(* ===== verification/Wd_Prelude.thy ===== *)
theory Wd_Prelude
  imports Complex_Main
begin

text \<open>
  Shared vocabulary of the development: the fragment of Python's data model the daemon uses
  (JSON-like values, strings with \<open>strip\<close>/\<open>lower\<close>/\<open>split\<close>, exceptions as values of a sum type)
  and the generic lemmas on them that the component theories rely on.

  A Python \<open>str\<close> is a \<^typ>\<open>string\<close>: a list of code points below 256. Exceptions are modelled by
  their class; message texts are not modelled. A \<open>dict\<close> is an association list in insertion order.
\<close>

named_theorems res_simps \<open>unfolding rules of the result type\<close>
named_theorems py_defs \<open>definitions of the Python string and value operations\<close>


section \<open>Exceptions and results\<close>

datatype exn =
    ValueError | TypeError | KeyError | IndexError | OverflowError | AssertionError | RuntimeError
  | PersistentStoreError | PersistentValidationError
  | RuleParseError | RuleStoreError | NodeGroupStoreError
  | ProviderLimitError | DuplicateProviderError
  | UnsupportedDriverPolicyError | ManagementPathSafetyError | EndpointPolicyConnectionError
  | TeardownBarrierError | DriverError | OpenVPNConfigValidationError | EndpointPolicyError
  | RuleImportError | RuleSetTrustStoreError | RuleSetLifecycleError | RuleSetRuntimeError
  | RouteChainStoreError | BackupError | BackupValidationError | DNSStateError | ResolverParseError
  | ProfileSemanticValidationError | ParseError | OSError
  | MalformedMessageError | UnsupportedVersionError | UnexpectedMessageTypeError | UnknownCommandError
  | UnknownEventError | UnsupportedPayloadFieldsError

type_synonym 'a res = "exn + 'a"

definition res_bind :: "'a res \<Rightarrow> ('a \<Rightarrow> 'b res) \<Rightarrow> 'b res" where
  "res_bind r f = (case r of Inl e \<Rightarrow> Inl e | Inr x \<Rightarrow> f x)"

definition res_guard :: "bool \<Rightarrow> exn \<Rightarrow> unit res" where
  "res_guard b e = (if b then Inr () else Inl e)"

fun res_map :: "('a \<Rightarrow> 'b res) \<Rightarrow> 'a list \<Rightarrow> 'b list res" where
  "res_map f [] = Inr []"
| "res_map f (x # xs) = res_bind (f x) (\<lambda>y. res_bind (res_map f xs) (\<lambda>ys. Inr (y # ys)))"

fun is_ok :: "'a res \<Rightarrow> bool" where
  "is_ok (Inl e) = False"
| "is_ok (Inr x) = True"

lemma res_bind_Inl [simp, res_simps]: "res_bind (Inl e) f = Inl e"
  by (simp add: res_bind_def)

lemma res_bind_Inr [simp, res_simps]: "res_bind (Inr x) f = f x"
  by (simp add: res_bind_def)

lemma res_guard_True [simp, res_simps]: "res_guard True e = Inr ()"
  by (simp add: res_guard_def)

lemma res_guard_False [simp, res_simps]: "res_guard False e = Inl e"
  by (simp add: res_guard_def)

lemma res_bind_eq_Inr_iff [simp]:
  "res_bind r f = Inr y \<longleftrightarrow> (\<exists>x. r = Inr x \<and> f x = Inr y)"
  by (cases r) auto

lemma res_guard_eq_Inr_iff [simp]: "res_guard b e = Inr u \<longleftrightarrow> b"
  by (simp add: res_guard_def)

lemma res_guard_eq_Inl_iff [simp]: "res_guard b e = Inl e' \<longleftrightarrow> \<not> b \<and> e' = e"
  by (auto simp: res_guard_def)

text \<open>Reading a successful run of a sequence of guards.\<close>

lemma if_raise_Inr: "(if b then Inl e else r) = Inr x \<longleftrightarrow> \<not> b \<and> r = Inr x"
  by simp

lemma res_map_Inr_iff:
  "res_map f xs = Inr ys \<longleftrightarrow> list_all2 (\<lambda>x y. f x = Inr y) xs ys"
proof (induction xs arbitrary: ys)
  case Nil
  show ?case by (cases ys) auto
next
  case (Cons x xs)
  then show ?case by (cases ys) auto
qed

lemma res_map_id:
  "(\<And>x. x \<in> set xs \<Longrightarrow> f (g x) = Inr x) \<Longrightarrow> res_map f (map g xs) = Inr xs"
  by (induction xs) auto

lemma res_map_length: "res_map f xs = Inr ys \<Longrightarrow> length ys = length xs"
  by (auto simp: res_map_Inr_iff dest: list_all2_lengthD)

lemma res_map_set:
  assumes "res_map f xs = Inr ys" and "y \<in> set ys"
  shows "\<exists>x \<in> set xs. f x = Inr y"
  using assms by (fastforce simp: res_map_Inr_iff list_all2_conv_all_nth in_set_conv_nth)


section \<open>Python strings\<close>

text \<open>The code points below 256 that \<open>str.strip\<close>, \<open>str.split\<close> and the \<open>\s\<close> class treat as white space.\<close>

definition py_whitespace :: "char list" where
  "py_whitespace =
     [CHR 0x09, CHR 0x0A, CHR 0x0B, CHR 0x0C, CHR 0x0D, CHR 0x1C, CHR 0x1D, CHR 0x1E, CHR 0x1F,
      CHR 0x20, CHR 0x85, CHR 0xA0]"

definition py_isspace :: "char \<Rightarrow> bool" where
  "py_isspace c \<longleftrightarrow> c \<in> set py_whitespace"

definition py_lstrip :: "string \<Rightarrow> string" where
  "py_lstrip s = dropWhile py_isspace s"

definition py_rstrip :: "string \<Rightarrow> string" where
  "py_rstrip s = rev (dropWhile py_isspace (rev s))"

definition py_strip :: "string \<Rightarrow> string" where
  "py_strip s = py_rstrip (py_lstrip s)"

text \<open>\<open>s.rstrip(chars)\<close> with an explicit set of characters.\<close>

definition py_rstrip_chars :: "char list \<Rightarrow> string \<Rightarrow> string" where
  "py_rstrip_chars cs s = rev (dropWhile (\<lambda>c. c \<in> set cs) (rev s))"

definition py_code :: "char \<Rightarrow> int" where
  "py_code c = of_char c"

definition py_lower_char :: "char \<Rightarrow> char" where
  "py_lower_char c =
     (let n = py_code c
      in if (65 \<le> n \<and> n \<le> 90) \<or> (192 \<le> n \<and> n \<le> 222 \<and> n \<noteq> 215) then char_of (n + 32) else c)"

definition py_lower :: "string \<Rightarrow> string" where
  "py_lower s = map py_lower_char s"

definition py_startswith :: "string \<Rightarrow> string \<Rightarrow> bool" where
  "py_startswith s p \<longleftrightarrow> take (length p) s = p"

definition py_endswith :: "string \<Rightarrow> string \<Rightarrow> bool" where
  "py_endswith s p \<longleftrightarrow> length p \<le> length s \<and> drop (length s - length p) s = p"

text \<open>Substring test \<open>needle in hay\<close>.\<close>

fun py_in :: "string \<Rightarrow> string \<Rightarrow> bool" where
  "py_in n [] = (n = [])"
| "py_in n (c # cs) = (py_startswith (c # cs) n \<or> py_in n cs)"

text \<open>\<open>s.split(sep)\<close> for a one-character separator, and \<open>sep.join(parts)\<close>.\<close>

fun py_split_char :: "char \<Rightarrow> string \<Rightarrow> string list" where
  "py_split_char d [] = [[]]"
| "py_split_char d (c # cs) =
     (if c = d then [] # py_split_char d cs
      else (case py_split_char d cs of [] \<Rightarrow> [[c]] | p # ps \<Rightarrow> (c # p) # ps))"

fun py_join :: "string \<Rightarrow> string list \<Rightarrow> string" where
  "py_join sep [] = []"
| "py_join sep [x] = x"
| "py_join sep (x # y # ys) = x @ sep @ py_join sep (y # ys)"

text \<open>
  \<open>s.splitlines()\<close>: the line boundaries below code point 256; a carriage return and line feed pair
  is one boundary, and a final boundary opens no further line.
\<close>

definition line_break :: "char \<Rightarrow> bool" where
  "line_break c \<longleftrightarrow>
     c \<in> set [CHR 0x0A, CHR 0x0B, CHR 0x0C, CHR 0x0D, CHR 0x1C, CHR 0x1D, CHR 0x1E, CHR 0x85]"

fun splitlines_from :: "string \<Rightarrow> string \<Rightarrow> string list" where
  "splitlines_from cur [] = (if cur = [] then [] else [rev cur])"
| "splitlines_from cur [c] = (if line_break c then [rev cur] else [rev (c # cur)])"
| "splitlines_from cur (c # d # cs) =
     (if c = CHR 0x0D \<and> d = CHR 0x0A then rev cur # splitlines_from [] cs
      else if line_break c then rev cur # splitlines_from [] (d # cs)
      else splitlines_from (c # cur) (d # cs))"

definition py_splitlines :: "string \<Rightarrow> string list" where
  "py_splitlines s = splitlines_from [] s"

definition py_removeprefix :: "string \<Rightarrow> string \<Rightarrow> string" where
  "py_removeprefix s p = (if py_startswith s p then drop (length p) s else s)"

text \<open>Decimal rendering of an integer, as \<open>str\<close> gives it.\<close>

definition digit_char :: "int \<Rightarrow> char" where
  "digit_char d = char_of (48 + d)"

function dec_digits :: "int \<Rightarrow> string" where
  "dec_digits n = (if n < 10 then [digit_char n] else dec_digits (n div 10) @ [digit_char (n mod 10)])"
  by pat_completeness auto
termination by (relation "measure nat") auto

declare dec_digits.simps [simp del]

definition int_str :: "int \<Rightarrow> string" where
  "int_str i = (if i < 0 then CHR ''-'' # dec_digits (- i) else dec_digits i)"

lemmas [py_defs] = py_lstrip_def py_rstrip_def py_strip_def py_startswith_def py_endswith_def

lemma dropWhile_rev_hd:
  "rev (dropWhile P (rev s)) \<noteq> [] \<Longrightarrow> hd (rev (dropWhile P (rev s))) = hd s"
proof -
  assume ne: "rev (dropWhile P (rev s)) \<noteq> []"
  have "s = rev (dropWhile P (rev s)) @ rev (takeWhile P (rev s))"
    by (metis rev_append rev_rev_ident takeWhile_dropWhile_id)
  then show ?thesis using ne by (metis hd_append2)
qed

lemma py_strip_hd: "py_strip s \<noteq> [] \<Longrightarrow> \<not> py_isspace (hd (py_strip s))"
proof -
  assume ne: "py_strip s \<noteq> []"
  then have h: "hd (py_strip s) = hd (py_lstrip s)"
    unfolding py_strip_def py_rstrip_def by (rule dropWhile_rev_hd)
  from ne have "py_lstrip s \<noteq> []" by (auto simp: py_strip_def py_rstrip_def)
  then show ?thesis unfolding h py_lstrip_def by (rule hd_dropWhile)
qed

lemma py_strip_last:
  assumes "py_strip s \<noteq> []"
  shows "\<not> py_isspace (last (py_strip s))"
proof -
  have "dropWhile py_isspace (rev (py_lstrip s)) \<noteq> []"
    using assms unfolding py_strip_def py_rstrip_def by (simp only: rev_is_Nil_conv not_False_eq_True)
  from hd_dropWhile[OF this] show ?thesis
    by (simp only: py_strip_def py_rstrip_def last_rev not_False_eq_True)
qed

lemma py_lstrip_id: "s = [] \<or> \<not> py_isspace (hd s) \<Longrightarrow> py_lstrip s = s"
  by (cases s) (auto simp: py_lstrip_def)

lemma py_rstrip_id: "s = [] \<or> \<not> py_isspace (last s) \<Longrightarrow> py_rstrip s = s"
  by (cases s rule: rev_cases) (auto simp: py_rstrip_def)

lemma py_strip_id:
  "s = [] \<or> (\<not> py_isspace (hd s) \<and> \<not> py_isspace (last s)) \<Longrightarrow> py_strip s = s"
  by (auto simp: py_strip_def py_lstrip_id py_rstrip_id)

lemma py_strip_idem [simp]: "py_strip (py_strip s) = py_strip s"
  by (rule py_strip_id) (metis py_strip_hd py_strip_last)

lemma py_strip_Nil [simp]: "py_strip [] = []"
  by (simp add: py_strip_def py_lstrip_def py_rstrip_def)

lemma py_strip_Nil_iff: "py_strip s = [] \<longleftrightarrow> list_all py_isspace s"
proof
  assume "py_strip s = []"
  then have "dropWhile py_isspace (rev (dropWhile py_isspace s)) = []"
    by (simp add: py_strip_def py_rstrip_def py_lstrip_def)
  then have "\<forall>c \<in> set (rev (dropWhile py_isspace s)). py_isspace c"
    unfolding dropWhile_eq_Nil_conv .
  then have "dropWhile py_isspace s = []"
    by (metis hd_dropWhile hd_in_set set_rev)
  then show "list_all py_isspace s" unfolding dropWhile_eq_Nil_conv list_all_iff .
next
  assume "list_all py_isspace s"
  then have "dropWhile py_isspace s = []" unfolding dropWhile_eq_Nil_conv list_all_iff .
  then show "py_strip s = []" by (simp only: py_strip_def py_rstrip_def py_lstrip_def) simp
qed

lemma set_py_strip: "set (py_strip s) \<subseteq> set s"
proof
  fix c
  assume "c \<in> set (py_strip s)"
  then have "c \<in> set (dropWhile py_isspace (rev (dropWhile py_isspace s)))"
    by (simp only: py_strip_def py_rstrip_def py_lstrip_def set_rev)
  then have "c \<in> set (dropWhile py_isspace s)" using set_dropWhileD set_rev by metis
  then show "c \<in> set s" using set_dropWhileD by metis
qed

lemma py_in_iff: "py_in n h \<longleftrightarrow> (\<exists>a b. h = a @ n @ b)"
proof (induction h)
  case Nil
  show ?case by simp
next
  case (Cons c cs)
  have "py_startswith (c # cs) n \<longleftrightarrow> (\<exists>b. c # cs = n @ b)"
    by (metis append_eq_conv_conj append_take_drop_id py_startswith_def)
  moreover have "(\<exists>a b. c # cs = a @ n @ b) \<longleftrightarrow> (\<exists>b. c # cs = n @ b) \<or> (\<exists>a b. cs = a @ n @ b)"
    by (metis Cons_eq_append_conv append_Cons append_Nil)
  ultimately show ?case using Cons.IH by simp
qed

lemma py_split_char_ne [simp]: "py_split_char d s \<noteq> []"
  by (induction s) (auto split: list.splits)

lemma py_split_char_none: "d \<notin> set s \<Longrightarrow> py_split_char d s = [s]"
  by (induction s) auto

lemma py_split_char_append:
  "d \<notin> set x \<Longrightarrow> py_split_char d (x @ d # s) = x # py_split_char d s"
  by (induction x) auto

lemma py_split_join:
  "ps \<noteq> [] \<Longrightarrow> \<forall>p \<in> set ps. d \<notin> set p \<Longrightarrow> py_split_char d (py_join [d] ps) = ps"
proof (induction ps rule: induct_list012)
  case (3 x y ys)
  then show ?case by (simp add: py_split_char_append)
qed (auto simp: py_split_char_none)


section \<open>Slugs\<close>

text \<open>
  \<open>NODE_GROUP_NAME_RE\<close>, \<open>CHAIN_ID_RE\<close> and \<open>GROUP_NAME_RE\<close> are one regular expression,
  \<open>^[a-z0-9][a-z0-9_-]{0,63}$\<close>, always matched against a stripped string (so the end-of-string
  anchor cannot match before a trailing newline).
\<close>

definition slug_start :: "char \<Rightarrow> bool" where
  "slug_start c \<longleftrightarrow> (let n = py_code c in (97 \<le> n \<and> n \<le> 122) \<or> (48 \<le> n \<and> n \<le> 57))"

definition slug_char :: "char \<Rightarrow> bool" where
  "slug_char c \<longleftrightarrow> slug_start c \<or> c = CHR ''_'' \<or> c = CHR ''-''"

fun is_slug :: "string \<Rightarrow> bool" where
  "is_slug [] = False"
| "is_slug (c # cs) = (slug_start c \<and> list_all slug_char cs \<and> length cs \<le> 63)"

lemma slug_char_not_space: "slug_char c \<Longrightarrow> \<not> py_isspace c"
  by (auto simp: slug_char_def slug_start_def py_isspace_def py_whitespace_def py_code_def Let_def)

lemma is_slug_strip [simp]: "is_slug s \<Longrightarrow> py_strip s = s"
proof (rule py_strip_id)
  assume s: "is_slug s"
  have "\<forall>c \<in> set s. slug_char c" using s by (cases s) (auto simp: slug_char_def list_all_iff)
  then show "s = [] \<or> (\<not> py_isspace (hd s) \<and> \<not> py_isspace (last s))"
    by (metis hd_in_set last_in_set slug_char_not_space)
qed

lemma is_slug_bounds: "is_slug s \<Longrightarrow> 0 < length s \<and> length s \<le> 64"
  by (cases s) auto


section \<open>Python values\<close>

datatype pyfloat = FFin real | FPosInf | FNegInf | FNaN

datatype pyval =
    PNone | PBool bool | PInt int | PFloat pyfloat | PStr string
  | PList "pyval list" | PDict "(string \<times> pyval) list"

type_synonym dict = "(string \<times> pyval) list"

text \<open>
  \<open>str(v)\<close>. The textual forms of floats, lists and dicts are supplied by the parameter \<open>rp\<close>;
  the program only ever relies on \<open>str\<close> being the identity on strings.
\<close>

definition py_str :: "(pyval \<Rightarrow> string) \<Rightarrow> pyval \<Rightarrow> string" where
  "py_str rp v = (case v of
       PStr s \<Rightarrow> s
     | PNone \<Rightarrow> ''None''
     | PBool b \<Rightarrow> (if b then ''True'' else ''False'')
     | PInt i \<Rightarrow> int_str i
     | _ \<Rightarrow> rp v)"

lemma py_str_PStr [simp]: "py_str rp (PStr s) = s"
  by (simp add: py_str_def)

text \<open>The truth value of an object, as \<open>if v\<close> and \<open>v or w\<close> use it.\<close>

fun py_truthy :: "pyval \<Rightarrow> bool" where
  "py_truthy PNone = False"
| "py_truthy (PBool b) = b"
| "py_truthy (PInt i) = (i \<noteq> 0)"
| "py_truthy (PFloat f) = (f \<noteq> FFin 0)"
| "py_truthy (PStr s) = (s \<noteq> [])"
| "py_truthy (PList xs) = (xs \<noteq> [])"
| "py_truthy (PDict d) = (d \<noteq> [])"

text \<open>\<open>data[key]\<close> and \<open>data.get(key, default)\<close>.\<close>

definition dict_item :: "dict \<Rightarrow> string \<Rightarrow> pyval res" where
  "dict_item d k = (case map_of d k of None \<Rightarrow> Inl KeyError | Some v \<Rightarrow> Inr v)"

definition dict_get :: "dict \<Rightarrow> string \<Rightarrow> pyval \<Rightarrow> pyval" where
  "dict_get d k v = (case map_of d k of None \<Rightarrow> v | Some w \<Rightarrow> w)"

text \<open>\<open>d[k] = v\<close> on an insertion-ordered dict.\<close>

fun dict_put :: "('k \<times> 'v) list \<Rightarrow> 'k \<Rightarrow> 'v \<Rightarrow> ('k \<times> 'v) list" where
  "dict_put [] k v = [(k, v)]"
| "dict_put ((a, b) # d) k v = (if a = k then (a, v) # d else (a, b) # dict_put d k v)"

lemma map_of_dict_put: "map_of (dict_put d k v) = (map_of d)(k \<mapsto> v)"
  by (induction d) (auto simp: fun_eq_iff)

lemma keys_dict_put: "set (map fst (dict_put d k v)) = insert k (set (map fst d))"
proof (induction d)
  case (Cons p d)
  then show ?case by (cases p) auto
qed simp

lemma dict_put_new: "k \<notin> set (map fst d) \<Longrightarrow> dict_put d k v = d @ [(k, v)]"
  by (induction d k v rule: dict_put.induct) auto

lemma distinct_dict_put: "distinct (map fst d) \<Longrightarrow> distinct (map fst (dict_put d k v))"
proof (induction d)
  case (Cons p d)
  then show ?case using keys_dict_put[of d k v] by (cases p) auto
qed simp

lemma dict_put_keys: "k \<in> set (map fst d) \<Longrightarrow> map fst (dict_put d k v) = map fst d"
proof (induction d)
  case (Cons p d)
  then show ?case by (cases p) auto
qed simp

lemma dict_put_same: "map_of d k = Some v \<Longrightarrow> dict_put d k v = d"
proof (induction d)
  case (Cons p d)
  then show ?case by (cases p) (auto split: if_splits)
qed simp


section \<open>Keyed lists\<close>

text \<open>Facts on first-match lookup and filter-then-append updates, the shape of every JSON-array store.\<close>

lemma find_filter_other:
  "k \<noteq> k' \<Longrightarrow> find (\<lambda>x. f x = k) (filter (\<lambda>x. f x \<noteq> k') xs) = find (\<lambda>x. f x = k) xs"
  by (induction xs) auto

lemma find_append:
  "find P (xs @ ys) = (case find P xs of None \<Rightarrow> find P ys | Some x \<Rightarrow> Some x)"
  by (induction xs) auto

lemma find_filter_same: "find (\<lambda>x. f x = k) (filter (\<lambda>x. f x \<noteq> k) xs) = None"
  by (simp add: find_None_iff)

lemma find_distinct_key:
  "distinct (map f xs) \<Longrightarrow> x \<in> set xs \<Longrightarrow> find (\<lambda>y. f y = f x) xs = Some x"
proof (induction xs)
  case (Cons a xs)
  then show ?case by (cases "f a = f x") (auto simp: image_iff)
qed simp

lemma find_Some_in: "find P xs = Some x \<Longrightarrow> x \<in> set xs \<and> P x"
  by (metis find_Some_iff nth_mem)

lemma distinct_map_filter_append:
  "distinct (map f xs) \<Longrightarrow> distinct (map f (filter (\<lambda>y. f y \<noteq> f x) xs @ [x]))"
  by (auto simp: distinct_map_filter)

end
