(* ===== verification/Effects.thy ===== *)
theory Effects
  imports Wd_Prelude
begin

text \<open>
  Stateful Python code: an action maps the state before to a result (or a raised exception) and the
  state after; what was changed before an exception stays changed. Total-correctness triples over
  actions, with one rule per construct.
\<close>

type_synonym ('s, 'a) act = "'s \<Rightarrow> 'a res \<times> 's"

named_theorems act_simps \<open>evaluation rules of actions\<close>
named_theorems triples \<open>proof rules for triples\<close>

definition act_return :: "'a \<Rightarrow> ('s, 'a) act" where
  "act_return x s = (Inr x, s)"

definition act_raise :: "exn \<Rightarrow> ('s, 'a) act" where
  "act_raise e s = (Inl e, s)"

definition act_get :: "('s \<Rightarrow> 'a) \<Rightarrow> ('s, 'a) act" where
  "act_get f s = (Inr (f s), s)"

definition act_modify :: "('s \<Rightarrow> 's) \<Rightarrow> ('s, unit) act" where
  "act_modify f s = (Inr (), f s)"

definition act_res :: "'a res \<Rightarrow> ('s, 'a) act" where
  "act_res r s = (r, s)"

definition act_bind :: "('s, 'a) act \<Rightarrow> ('a \<Rightarrow> ('s, 'b) act) \<Rightarrow> ('s, 'b) act" where
  "act_bind m f s = (case m s of (Inl e, t) \<Rightarrow> (Inl e, t) | (Inr x, t) \<Rightarrow> f x t)"

definition act_seq :: "('s, 'a) act \<Rightarrow> ('s, 'b) act \<Rightarrow> ('s, 'b) act" where
  "act_seq m n = act_bind m (\<lambda>_. n)"

text \<open>\<open>try: m except Exception as e: h(e)\<close>.\<close>

definition act_try :: "('s, 'a) act \<Rightarrow> (exn \<Rightarrow> ('s, 'a) act) \<Rightarrow> ('s, 'a) act" where
  "act_try m h s = (case m s of (Inl e, t) \<Rightarrow> h e t | (Inr x, t) \<Rightarrow> (Inr x, t))"

text \<open>\<open>try: m finally: f\<close> for a clean-up that does not raise.\<close>

definition act_finally :: "('s, 'a) act \<Rightarrow> ('s \<Rightarrow> 's) \<Rightarrow> ('s, 'a) act" where
  "act_finally m f s = (case m s of (r, t) \<Rightarrow> (r, f t))"

definition act_when :: "bool \<Rightarrow> ('s, unit) act \<Rightarrow> ('s, unit) act" where
  "act_when b m = (if b then m else act_return ())"

lemma act_return_apply [act_simps]: "act_return x s = (Inr x, s)"
  by (simp add: act_return_def)

lemma act_raise_apply [act_simps]: "act_raise e s = (Inl e, s)"
  by (simp add: act_raise_def)

lemma act_get_apply [act_simps]: "act_get f s = (Inr (f s), s)"
  by (simp add: act_get_def)

lemma act_modify_apply [act_simps]: "act_modify f s = (Inr (), f s)"
  by (simp add: act_modify_def)

lemma act_bind_Inr [act_simps]: "m s = (Inr x, t) \<Longrightarrow> act_bind m f s = f x t"
  by (simp add: act_bind_def)

lemma act_bind_Inl [act_simps]: "m s = (Inl e, t) \<Longrightarrow> act_bind m f s = (Inl e, t)"
  by (simp add: act_bind_def)

lemmas act_defs = act_return_def act_raise_def act_get_def act_modify_def act_res_def act_bind_def
  act_seq_def act_try_def act_finally_def act_when_def

text \<open>Inversion: what a finished run of an action says about its parts.\<close>

named_theorems act_runs \<open>inversion rules for finished runs\<close>

lemma run_if [act_runs]: "(if b then m else n) s = (if b then m s else n s)"
  by simp

lemma run_option [act_runs]:
  "(case x of None \<Rightarrow> m | Some y \<Rightarrow> f y) s = (case x of None \<Rightarrow> m s | Some y \<Rightarrow> f y s)"
  by (cases x) simp_all

lemma run_return [act_runs]: "act_return x s = (r, t) \<longleftrightarrow> r = Inr x \<and> t = s"
  by (auto simp: act_return_def)

lemma run_raise [act_runs]: "act_raise e s = (r, t) \<longleftrightarrow> r = Inl e \<and> t = s"
  by (auto simp: act_raise_def)

lemma run_get [act_runs]: "act_get f s = (r, t) \<longleftrightarrow> r = Inr (f s) \<and> t = s"
  by (auto simp: act_get_def)

lemma run_modify [act_runs]: "act_modify f s = (r, t) \<longleftrightarrow> r = Inr () \<and> t = f s"
  by (auto simp: act_modify_def)

lemma run_res [act_runs]: "act_res q s = (r, t) \<longleftrightarrow> r = q \<and> t = s"
  by (auto simp: act_res_def)

lemma run_bind [act_runs]:
  "act_bind m f s = (r, t) \<longleftrightarrow>
     (\<exists>e. m s = (Inl e, t) \<and> r = Inl e) \<or> (\<exists>x u. m s = (Inr x, u) \<and> f x u = (r, t))"
  by (auto simp: act_bind_def split: prod.splits sum.splits)

lemma run_seq [act_runs]:
  "act_seq m n s = (r, t) \<longleftrightarrow>
     (\<exists>e. m s = (Inl e, t) \<and> r = Inl e) \<or> (\<exists>x u. m s = (Inr x, u) \<and> n u = (r, t))"
  by (simp add: act_seq_def run_bind)

lemma run_try [act_runs]:
  "act_try m h s = (r, t) \<longleftrightarrow>
     (\<exists>e u. m s = (Inl e, u) \<and> h e u = (r, t)) \<or> (\<exists>x. m s = (Inr x, t) \<and> r = Inr x)"
  by (auto simp: act_try_def split: prod.splits sum.splits)

lemma run_finally [act_runs]:
  "act_finally m f s = (r, t) \<longleftrightarrow> (\<exists>u. m s = (r, u) \<and> t = f u)"
  by (auto simp: act_finally_def split: prod.splits)

lemma run_when [act_runs]:
  "act_when b m s = (r, t) \<longleftrightarrow> (if b then m s = (r, t) else r = Inr () \<and> t = s)"
  by (auto simp: act_when_def act_return_def)

definition triple :: "('s \<Rightarrow> bool) \<Rightarrow> ('s, 'a) act \<Rightarrow> ('a res \<Rightarrow> 's \<Rightarrow> bool) \<Rightarrow> bool" where
  "triple P m Q \<longleftrightarrow> (\<forall>s. P s \<longrightarrow> Q (fst (m s)) (snd (m s)))"

lemma tripleI: "(\<And>s r t. P s \<Longrightarrow> m s = (r, t) \<Longrightarrow> Q r t) \<Longrightarrow> triple P m Q"
  by (auto simp: triple_def)

lemma tripleD: "triple P m Q \<Longrightarrow> P s \<Longrightarrow> m s = (r, t) \<Longrightarrow> Q r t"
  by (auto simp: triple_def)

lemma triple_weaken:
  "triple P' m Q' \<Longrightarrow> (\<And>s. P s \<Longrightarrow> P' s) \<Longrightarrow> (\<And>r s. Q' r s \<Longrightarrow> Q r s) \<Longrightarrow> triple P m Q"
  by (auto simp: triple_def)

lemma triple_return [triples]: "(\<And>s. P s \<Longrightarrow> Q (Inr x) s) \<Longrightarrow> triple P (act_return x) Q"
  by (simp add: triple_def act_return_def)

lemma triple_raise [triples]: "(\<And>s. P s \<Longrightarrow> Q (Inl e) s) \<Longrightarrow> triple P (act_raise e) Q"
  by (simp add: triple_def act_raise_def)

lemma triple_res [triples]: "(\<And>s. P s \<Longrightarrow> Q r s) \<Longrightarrow> triple P (act_res r) Q"
  by (simp add: triple_def act_res_def)

lemma triple_get [triples]: "(\<And>s. P s \<Longrightarrow> Q (Inr (f s)) s) \<Longrightarrow> triple P (act_get f) Q"
  by (simp add: triple_def act_get_def)

lemma triple_modify [triples]: "(\<And>s. P s \<Longrightarrow> Q (Inr ()) (f s)) \<Longrightarrow> triple P (act_modify f) Q"
  by (simp add: triple_def act_modify_def)

lemma triple_bind:
  assumes "triple P m R" and "\<And>x. triple (R (Inr x)) (f x) Q" and "\<And>e s. R (Inl e) s \<Longrightarrow> Q (Inl e) s"
  shows "triple P (act_bind m f) Q"
proof (rule tripleI)
  fix s r t
  assume s: "P s" and run: "act_bind m f s = (r, t)"
  obtain r1 t1 where m: "m s = (r1, t1)" by fastforce
  then have R: "R r1 t1" using assms(1) s by (auto dest: tripleD)
  show "Q r t"
  proof (cases r1)
    case (Inl e)
    then show ?thesis using R m run assms(3)[of e t1] by (auto simp: act_bind_def)
  next
    case (Inr x)
    then have "f x t1 = (r, t)" using m run by (simp add: act_bind_def)
    with assms(2)[of x] R Inr show ?thesis by (auto dest: tripleD)
  qed
qed

lemma triple_seq:
  assumes "triple P m R" and "\<And>x. triple (R (Inr x)) n Q" and "\<And>e s. R (Inl e) s \<Longrightarrow> Q (Inl e) s"
  shows "triple P (act_seq m n) Q"
  unfolding act_seq_def using assms by (rule triple_bind)

lemma triple_try:
  assumes "triple P m R" and "\<And>e. triple (R (Inl e)) (h e) Q" and "\<And>x s. R (Inr x) s \<Longrightarrow> Q (Inr x) s"
  shows "triple P (act_try m h) Q"
proof (rule tripleI)
  fix s r t
  assume s: "P s" and run: "act_try m h s = (r, t)"
  obtain r1 t1 where m: "m s = (r1, t1)" by fastforce
  then have R: "R r1 t1" using assms(1) s by (auto dest: tripleD)
  show "Q r t"
  proof (cases r1)
    case (Inl e)
    then have "h e t1 = (r, t)" using m run by (simp add: act_try_def)
    with assms(2)[of e] R Inl show ?thesis by (auto dest: tripleD)
  next
    case (Inr x)
    then show ?thesis using R m run assms(3)[of x t1] by (auto simp: act_try_def)
  qed
qed

lemma triple_if:
  "(b \<Longrightarrow> triple P m Q) \<Longrightarrow> (\<not> b \<Longrightarrow> triple P n Q) \<Longrightarrow> triple P (if b then m else n) Q"
  by simp

lemma triple_conj: "triple P m Q \<Longrightarrow> triple P m Q' \<Longrightarrow> triple P m (\<lambda>r s. Q r s \<and> Q' r s)"
  by (simp add: triple_def)


section \<open>Frame conditions\<close>

text \<open>
  \<open>preserves R m\<close>: every run of \<open>m\<close>, raising or not, relates the state before to the state after by \<open>R\<close>.
  For a reflexive and transitive \<open>R\<close> the property composes along the program text.
\<close>

definition preserves :: "('s \<Rightarrow> 's \<Rightarrow> bool) \<Rightarrow> ('s, 'a) act \<Rightarrow> bool" where
  "preserves R m \<longleftrightarrow> (\<forall>s. R s (snd (m s)))"

lemma preservesD: "preserves R m \<Longrightarrow> m s = (r, t) \<Longrightarrow> R s t"
  by (metis preserves_def snd_conv)

lemma preservesI: "(\<And>s r t. m s = (r, t) \<Longrightarrow> R s t) \<Longrightarrow> preserves R m"
  by (metis preserves_def prod.collapse)

locale frame_rules =
  fixes R :: "'s \<Rightarrow> 's \<Rightarrow> bool"
  assumes R_refl: "R s s"
    and R_trans: "R s t \<Longrightarrow> R t u \<Longrightarrow> R s u"
begin

lemma keep_return: "preserves R (act_return x)"
  by (simp add: preserves_def act_return_def R_refl)

lemma keep_raise: "preserves R (act_raise e)"
  by (simp add: preserves_def act_raise_def R_refl)

lemma keep_res: "preserves R (act_res r)"
  by (simp add: preserves_def act_res_def R_refl)

lemma keep_get: "preserves R (act_get f)"
  by (simp add: preserves_def act_get_def R_refl)

lemma keep_modify: "(\<And>s. R s (f s)) \<Longrightarrow> preserves R (act_modify f)"
  by (simp add: preserves_def act_modify_def)

lemma keep_bind: "preserves R m \<Longrightarrow> (\<And>x. preserves R (f x)) \<Longrightarrow> preserves R (act_bind m f)"
  by (rule preservesI) (auto simp: run_bind intro: R_trans dest: preservesD)

lemma keep_seq: "preserves R m \<Longrightarrow> preserves R n \<Longrightarrow> preserves R (act_seq m n)"
  unfolding act_seq_def by (rule keep_bind)

lemma keep_try: "preserves R m \<Longrightarrow> (\<And>e. preserves R (h e)) \<Longrightarrow> preserves R (act_try m h)"
  by (rule preservesI) (auto simp: run_try intro: R_trans dest: preservesD)

lemma keep_if: "(b \<Longrightarrow> preserves R m) \<Longrightarrow> (\<not> b \<Longrightarrow> preserves R n) \<Longrightarrow> preserves R (if b then m else n)"
  by simp

lemma keep_option:
  "preserves R m \<Longrightarrow> (\<And>y. preserves R (f y)) \<Longrightarrow> preserves R (case x of None \<Rightarrow> m | Some y \<Rightarrow> f y)"
  by (simp split: option.split)

lemma keep_when: "preserves R m \<Longrightarrow> preserves R (act_when b m)"
  by (simp add: act_when_def keep_return)

lemma keep_finally: "preserves R m \<Longrightarrow> (\<And>s. R s (f s)) \<Longrightarrow> preserves R (act_finally m f)"
  by (rule preservesI) (auto simp: run_finally intro: R_trans dest: preservesD)

lemmas keep = keep_return keep_raise keep_res keep_get keep_bind keep_seq keep_try keep_if
  keep_option keep_when

end


section \<open>Actions that always return\<close>

definition returns :: "('s, 'a) act \<Rightarrow> bool" where
  "returns m \<longleftrightarrow> (\<forall>s. \<exists>x t. m s = (Inr x, t))"

lemma returnsI: "(\<And>s. \<exists>x t. m s = (Inr x, t)) \<Longrightarrow> returns m"
  by (simp add: returns_def)

lemma returnsD: "returns m \<Longrightarrow> \<exists>x t. m s = (Inr x, t)"
  by (simp add: returns_def)

lemma returns_basic [triples]:
  "returns (act_return x)" "returns (act_get f)" "returns (act_modify g)"
  by (simp_all add: returns_def act_return_def act_get_def act_modify_def)

lemma returns_bind [triples]: "returns m \<Longrightarrow> (\<And>x. returns (f x)) \<Longrightarrow> returns (act_bind m f)"
proof (rule returnsI)
  fix s assume m: "returns m" and f: "\<And>x. returns (f x)"
  obtain x t where "m s = (Inr x, t)" using returnsD[OF m] by blast
  then show "\<exists>x t. act_bind m f s = (Inr x, t)" using returnsD[OF f] by (simp add: act_bind_def)
qed

lemma returns_seq [triples]: "returns m \<Longrightarrow> returns n \<Longrightarrow> returns (act_seq m n)"
  unfolding act_seq_def by (rule returns_bind)

lemma returns_try [triples]: "(\<And>e. returns (h e)) \<Longrightarrow> returns (act_try m h)"
proof (rule returnsI)
  fix s assume h: "\<And>e. returns (h e)"
  obtain r t where "m s = (r, t)" by fastforce
  then show "\<exists>x t. act_try m h s = (Inr x, t)"
    using returnsD[OF h] by (cases r) (auto simp: act_try_def)
qed

lemma returns_if [triples]: "(b \<Longrightarrow> returns m) \<Longrightarrow> (\<not> b \<Longrightarrow> returns n) \<Longrightarrow> returns (if b then m else n)"
  by simp

lemma returns_option [triples]:
  "returns m \<Longrightarrow> (\<And>y. returns (f y)) \<Longrightarrow> returns (case x of None \<Rightarrow> m | Some y \<Rightarrow> f y)"
  by (simp split: option.split)

lemmas returns_rules = returns_basic returns_bind returns_seq returns_try returns_if returns_option

end
