(* ===== verification/Persistence.thy ===== *)
theory Persistence
  imports Wd_Prelude
begin

text \<open>
  \<open>src/config/persistence.py\<close>: JSON documents and the strict field validators every model's
  \<open>from_dict\<close> uses. A file is seen at the level of its parsed document: absent, not parseable, or
  a JSON value (the order of the keys in the text, which \<open>dump_json\<close> sorts, is not observable
  through a dict lookup and is left out).

  The theory also fixes the contract \<open>keyed_store\<close>: what the profile, provider, node-group, route
  chain and rule stores promise to the components that call them.
\<close>

section \<open>Documents and strict validators\<close>

datatype json_file = FMissing | FMalformed | FJson pyval

definition load_json :: "json_file \<Rightarrow> pyval \<Rightarrow> pyval res" where
  "load_json f dflt = (case f of
       FMissing \<Rightarrow> Inr dflt
     | FMalformed \<Rightarrow> Inl PersistentStoreError
     | FJson v \<Rightarrow> Inr v)"

definition dump_json :: "pyval \<Rightarrow> json_file" where
  "dump_json v = FJson v"

definition require_mapping :: "pyval \<Rightarrow> dict res" where
  "require_mapping v = (case v of PDict d \<Rightarrow> Inr d | _ \<Rightarrow> Inl PersistentValidationError)"

definition require_list :: "pyval \<Rightarrow> pyval list res" where
  "require_list v = (case v of PList xs \<Rightarrow> Inr xs | _ \<Rightarrow> Inl PersistentValidationError)"

definition strict_bool :: "pyval \<Rightarrow> bool res" where
  "strict_bool v = (case v of PBool b \<Rightarrow> Inr b | _ \<Rightarrow> Inl PersistentValidationError)"

definition strict_int :: "pyval \<Rightarrow> int res" where
  "strict_int v = (case v of PInt i \<Rightarrow> Inr i | _ \<Rightarrow> Inl PersistentValidationError)"

text \<open>
  \<open>float(i)\<close> of an integer: integers whose nearest double is beyond the finite range raise
  \<open>OverflowError\<close>. Finite doubles are real numbers here; the rounding of integers above
  \<open>2 ^ 53\<close> is not modelled.
\<close>

definition float_of_int :: "int \<Rightarrow> pyfloat res" where
  "float_of_int i =
     (if \<bar>i\<bar> \<ge> 2 ^ 1024 - 2 ^ 970 then Inl OverflowError else Inr (FFin (of_int i)))"

definition strict_float :: "pyval \<Rightarrow> pyfloat res" where
  "strict_float v = (case v of
       PInt i \<Rightarrow> float_of_int i
     | PFloat f \<Rightarrow> Inr f
     | _ \<Rightarrow> Inl PersistentValidationError)"

definition reject_unknown_keys :: "dict \<Rightarrow> string list \<Rightarrow> unit res" where
  "reject_unknown_keys d allowed =
     res_guard (list_all (\<lambda>k. k \<in> set allowed) (map fst d)) PersistentValidationError"

text \<open>
  The same call on an arbitrary JSON value, as a \<open>from_dict\<close> reached without a type check makes it. Every
  value but an object ends in an exception: \<open>set(data)\<close> or the later \<open>data["id"]\<close> raises \<open>TypeError\<close>,
  unless the value is a non-empty string or an array of strings with an unsupported one among them.
\<close>

fun str_item :: "pyval \<Rightarrow> bool" where
  "str_item (PStr s) = True"
| "str_item _ = False"

definition object_fields :: "pyval \<Rightarrow> string list \<Rightarrow> dict res" where
  "object_fields v allowed = (case v of
       PDict d \<Rightarrow> res_bind (reject_unknown_keys d allowed) (\<lambda>_. Inr d)
     | PStr s \<Rightarrow> Inl (if list_all (\<lambda>c. [c] \<in> set allowed) s then TypeError else PersistentValidationError)
     | PList xs \<Rightarrow>
         Inl (if list_all str_item xs \<and> \<not> list_all (\<lambda>x. x \<in> set (map PStr allowed)) xs
              then PersistentValidationError else TypeError)
     | _ \<Rightarrow> Inl TypeError)"

text \<open>
  \<open>dict(item)\<close> for an entry of a JSON array. An object gives itself; an empty array or string gives
  the empty dict. Every other entry is rejected: the two-element sequences that \<open>dict\<close> would also
  read as key/value pairs never appear in the files the program writes.
\<close>

definition dict_of :: "pyval \<Rightarrow> dict res" where
  "dict_of v = (case v of
       PDict d \<Rightarrow> Inr d
     | PList [] \<Rightarrow> Inr []
     | PStr [] \<Rightarrow> Inr []
     | _ \<Rightarrow> Inl TypeError)"

definition load_array :: "json_file \<Rightarrow> dict list res" where
  "load_array f =
     res_bind (load_json f (PList [])) (\<lambda>v. res_bind (require_list v) (res_map dict_of))"

definition save_array :: "dict list \<Rightarrow> json_file" where
  "save_array ds = dump_json (PList (map PDict ds))"

lemma strict_bool_PBool [simp]: "strict_bool (PBool b) = Inr b"
  by (simp add: strict_bool_def)

lemma strict_bool_Inr_iff [simp]: "strict_bool v = Inr b \<longleftrightarrow> v = PBool b"
  by (cases v) (auto simp: strict_bool_def)

lemma strict_int_PInt [simp]: "strict_int (PInt i) = Inr i"
  by (simp add: strict_int_def)

lemma strict_int_Inr_iff [simp]: "strict_int v = Inr i \<longleftrightarrow> v = PInt i"
  by (cases v) (auto simp: strict_int_def)

lemma strict_float_PFloat [simp]: "strict_float (PFloat f) = Inr f"
  by (simp add: strict_float_def)

lemma reject_unknown_keys_Inr [simp]:
  "reject_unknown_keys d ks = Inr u \<longleftrightarrow> (\<forall>k \<in> set (map fst d). k \<in> set ks)"
  by (simp add: reject_unknown_keys_def list_all_iff)

lemma reject_unknown_keys_ok: "map fst d = ks \<Longrightarrow> reject_unknown_keys d ks = Inr ()"
  by simp

lemma object_fields_Inr:
  "object_fields v ks = Inr d \<longleftrightarrow> v = PDict d \<and> (\<forall>k \<in> set (map fst d). k \<in> set ks)"
  by (cases v) (auto simp: object_fields_def)

lemma load_save_array [simp]: "load_array (save_array ds) = Inr ds"
proof -
  have "res_map dict_of (map PDict ds) = Inr ds"
    by (rule res_map_id) (simp add: dict_of_def)
  then show ?thesis
    by (simp add: load_array_def save_array_def dump_json_def load_json_def require_list_def)
qed

lemma load_array_missing [simp]: "load_array FMissing = Inr []"
  by (simp add: load_array_def load_json_def require_list_def)

lemma load_array_malformed [simp]: "load_array FMalformed = Inl PersistentStoreError"
  by (simp add: load_array_def load_json_def)


section \<open>The contract of a keyed store\<close>

text \<open>
  A store keeps a list of objects with distinct keys in a file. \<open>contents\<close> is the abstract value of
  the file, \<open>valid\<close> says which objects the model's constructors produce, and \<open>admits\<close> is the store's
  own admission rule for a write. Writes replace the object under the same key and move it to the end.
\<close>

datatype 'a store_op = Put 'a | Del string

fun store_spec :: "('a \<Rightarrow> string) \<Rightarrow> 'a store_op \<Rightarrow> (string \<Rightarrow> 'a option) \<Rightarrow> (string \<Rightarrow> 'a option)" where
  "store_spec key (Put x) m = m(key x \<mapsto> x)"
| "store_spec key (Del k) m = m(k := None)"

definition lookup_key :: "('a \<Rightarrow> string) \<Rightarrow> 'a list \<Rightarrow> string \<Rightarrow> 'a option" where
  "lookup_key key xs k = find (\<lambda>x. key x = k) xs"

lemma lookup_key_put:
  "lookup_key key (filter (\<lambda>y. key y \<noteq> key x) xs @ [x]) = (lookup_key key xs)(key x \<mapsto> x)"
proof
  fix k
  show "lookup_key key (filter (\<lambda>y. key y \<noteq> key x) xs @ [x]) k
      = ((lookup_key key xs)(key x \<mapsto> x)) k"
    by (cases "k = key x")
      (auto simp: lookup_key_def find_append find_filter_same find_filter_other split: option.splits)
qed

lemma lookup_key_del:
  "lookup_key key (filter (\<lambda>y. key y \<noteq> k) xs) = (lookup_key key xs)(k := None)"
  by (auto simp: lookup_key_def fun_eq_iff find_filter_same find_filter_other)

fun step_store :: "('s \<Rightarrow> 'a \<Rightarrow> 's res) \<Rightarrow> ('s \<Rightarrow> string \<Rightarrow> 's res) \<Rightarrow> 'a store_op \<Rightarrow> 's \<Rightarrow> 's res" where
  "step_store put del (Put x) s = put s x"
| "step_store put del (Del k) s = del s k"

fun run_store :: "('s \<Rightarrow> 'a \<Rightarrow> 's res) \<Rightarrow> ('s \<Rightarrow> string \<Rightarrow> 's res) \<Rightarrow> 'a store_op list \<Rightarrow> 's \<Rightarrow> 's res" where
  "run_store put del [] s = Inr s"
| "run_store put del (a # as) s = res_bind (step_store put del a s) (run_store put del as)"

definition op_ok :: "('a \<Rightarrow> bool) \<Rightarrow> (string \<Rightarrow> bool) \<Rightarrow> 'a store_op \<Rightarrow> bool" where
  "op_ok valid key_ok a = (case a of Put x \<Rightarrow> valid x | Del k \<Rightarrow> key_ok k)"

lemma by_key_lookup:
  "distinct (map key xs) \<Longrightarrow> map_of (rev (map (\<lambda>x. (key x, x)) xs)) k = lookup_key key xs k"
proof (induction xs)
  case (Cons x xs)
  have "lookup_key key xs (key x) = None"
    using Cons.prems by (auto simp: lookup_key_def find_None_iff image_iff)
  with Cons show ?case by (auto simp: lookup_key_def map_add_def split: option.split)
qed (simp add: lookup_key_def)

lemma lookup_key_Some:
  "distinct (map key xs) \<Longrightarrow> lookup_key key xs k = Some x \<longleftrightarrow> x \<in> set xs \<and> key x = k"
  by (auto simp: lookup_key_def find_distinct_key dest: find_Some_in)

text \<open>
  \<open>map_store\<close> is what a client sees that only looks objects up: the store behaves as a finite map on the
  keys it accepts. \<open>keyed_store\<close> adds the enumeration and its order.
\<close>

locale map_store =
  fixes get_op :: "'s \<Rightarrow> string \<Rightarrow> 'a option res"
    and put_op :: "'s \<Rightarrow> 'a \<Rightarrow> 's res"
    and del_op :: "'s \<Rightarrow> string \<Rightarrow> 's res"
    and key :: "'a \<Rightarrow> string"
    and valid :: "'a \<Rightarrow> bool"
    and key_ok :: "string \<Rightarrow> bool"
    and inv :: "'s \<Rightarrow> bool"
    and lookup :: "'s \<Rightarrow> string \<Rightarrow> 'a option"
  assumes get_lookup: "inv s \<Longrightarrow> key_ok k \<Longrightarrow> get_op s k = Inr (lookup s k)"
    and put_lookup: "inv s \<Longrightarrow> valid x \<Longrightarrow> put_op s x = Inr s' \<Longrightarrow>
          inv s' \<and> lookup s' = (lookup s)(key x \<mapsto> x)"
    and del_lookup: "inv s \<Longrightarrow> key_ok k \<Longrightarrow> del_op s k = Inr s' \<Longrightarrow>
          inv s' \<and> lookup s' = (lookup s)(k := None)"
begin

lemma step_map:
  assumes "inv s" and "op_ok valid key_ok a" and "step_store put_op del_op a s = Inr s'"
  shows "inv s' \<and> lookup s' = store_spec key a (lookup s)"
proof (cases a)
  case (Put x)
  then show ?thesis using assms put_lookup[of s x s'] by (simp add: op_ok_def)
next
  case (Del k)
  then show ?thesis using assms del_lookup[of s k s'] by (simp add: op_ok_def)
qed

lemma run_map:
  assumes "inv s" and "\<forall>a \<in> set as. op_ok valid key_ok a" and "run_store put_op del_op as s = Inr s'"
  shows "inv s' \<and> lookup s' = fold (store_spec key) as (lookup s)"
  using assms
proof (induction as arbitrary: s)
  case (Cons a as)
  from Cons.prems(3) obtain t where t: "step_store put_op del_op a s = Inr t" "run_store put_op del_op as t = Inr s'"
    by auto
  have "inv t \<and> lookup t = store_spec key a (lookup s)"
    using step_map[OF Cons.prems(1) _ t(1)] Cons.prems(2) by simp
  then show ?case using Cons.IH[of t] Cons.prems(2) t(2) by simp
qed simp

lemma run_map_get:
  assumes "inv s" and "\<forall>a \<in> set as. op_ok valid key_ok a" and "run_store put_op del_op as s = Inr s'" and "key_ok k"
  shows "get_op s' k = Inr (fold (store_spec key) as (lookup s) k)"
  using run_map[OF assms(1-3)] assms(4) by (simp add: get_lookup)

end

locale keyed_store =
  fixes all_op :: "'s \<Rightarrow> 'a list res"
    and get_op :: "'s \<Rightarrow> string \<Rightarrow> 'a option res"
    and put_op :: "'s \<Rightarrow> 'a \<Rightarrow> 's res"
    and del_op :: "'s \<Rightarrow> string \<Rightarrow> 's res"
    and key :: "'a \<Rightarrow> string"
    and valid :: "'a \<Rightarrow> bool"
    and admits :: "'s \<Rightarrow> 'a \<Rightarrow> bool"
    and inv :: "'s \<Rightarrow> bool"
    and contents :: "'s \<Rightarrow> 'a list"
  assumes distinct_contents: "inv s \<Longrightarrow> distinct (map key (contents s))"
    and all_contents: "inv s \<Longrightarrow> all_op s = Inr (contents s)"
    and get_contents: "inv s \<Longrightarrow> get_op s k = Inr (lookup_key key (contents s) k)"
    and put_admitted: "inv s \<Longrightarrow> valid x \<Longrightarrow> admits s x \<Longrightarrow> is_ok (put_op s x)"
    and put_contents: "inv s \<Longrightarrow> valid x \<Longrightarrow> put_op s x = Inr s' \<Longrightarrow>
          inv s' \<and> contents s' = filter (\<lambda>y. key y \<noteq> key x) (contents s) @ [x]"
    and del_total: "inv s \<Longrightarrow> is_ok (del_op s k)"
    and del_contents: "inv s \<Longrightarrow> del_op s k = Inr s' \<Longrightarrow>
          inv s' \<and> contents s' = filter (\<lambda>y. key y \<noteq> k) (contents s)"

sublocale keyed_store \<subseteq> kv: map_store get_op put_op del_op key valid "\<lambda>k. True" inv "\<lambda>s. lookup_key key (contents s)"
proof
  fix s s' :: 's and x :: 'a and k
  show "get_op s k = Inr (lookup_key key (contents s) k)" if "inv s"
    using that by (rule get_contents)
  show "inv s' \<and> lookup_key key (contents s') = (lookup_key key (contents s))(key x \<mapsto> x)"
    if "inv s" "valid x" "put_op s x = Inr s'"
    using put_contents[OF that] by (simp add: lookup_key_put)
  show "inv s' \<and> lookup_key key (contents s') = (lookup_key key (contents s))(k := None)"
    if "inv s" "del_op s k = Inr s'"
    using del_contents[OF that] by (simp add: lookup_key_del)
qed

context keyed_store
begin

lemma get_after_put:
  assumes "inv s" and "valid x" and "put_op s x = Inr s'"
  shows "get_op s' k = (if k = key x then Inr (Some x) else get_op s k)"
  using kv.put_lookup[OF assms] by (simp add: get_contents assms(1))

lemma get_after_del:
  assumes "inv s" and "del_op s i = Inr s'"
  shows "get_op s' k = (if k = i then Inr None else get_op s k)"
  using kv.del_lookup[OF assms(1) _ assms(2)] by (simp add: get_contents assms(1))

lemma ops_ok: "(\<forall>x. Put x \<in> set as \<longrightarrow> valid x) \<Longrightarrow> \<forall>a \<in> set as. op_ok valid (\<lambda>k. True) a"
  by (auto simp: op_ok_def split: store_op.split)

lemma run_refines:
  assumes "inv s" and "\<forall>x. Put x \<in> set as \<longrightarrow> valid x" and "run_store put_op del_op as s = Inr s'"
  shows "inv s' \<and> lookup_key key (contents s') = fold (store_spec key) as (lookup_key key (contents s))"
  using assms(1) ops_ok[OF assms(2)] assms(3) by (rule kv.run_map)

lemma run_lookup:
  assumes "inv s" and "\<forall>x. Put x \<in> set as \<longrightarrow> valid x" and "run_store put_op del_op as s = Inr s'"
  shows "get_op s' k = Inr (fold (store_spec key) as (lookup_key key (contents s)) k)"
  using assms(1) ops_ok[OF assms(2)] assms(3) by (rule kv.run_map_get) simp

lemma put_size:
  assumes "inv s" and "valid x" and "put_op s x = Inr s'"
  shows "length (contents s') \<le> Suc (length (contents s))"
  using put_contents[OF assms] by simp

end


section \<open>Array stores\<close>

text \<open>
  The JSON-array stores share one implementation pattern: filter the raw entries by the identifying
  field, append the new entry, save. \<open>object_codec\<close> is what the pattern needs of a model class.
\<close>

definition entry_is :: "string \<Rightarrow> string \<Rightarrow> dict \<Rightarrow> bool" where
  "entry_is kf k d \<longleftrightarrow> dict_get d kf PNone = PStr k"

definition array_find :: "(dict \<Rightarrow> 'a res) \<Rightarrow> string \<Rightarrow> json_file \<Rightarrow> pyval \<Rightarrow> 'a option res" where
  "array_find dec kf f v =
     res_bind (load_array f) (\<lambda>ds. case find (\<lambda>d. dict_get d kf PNone = v) ds of
         None \<Rightarrow> Inr None
       | Some d \<Rightarrow> res_bind (dec d) (\<lambda>x. Inr (Some x)))"

definition array_list :: "(dict \<Rightarrow> 'a res) \<Rightarrow> json_file \<Rightarrow> 'a list res" where
  "array_list dec f = res_bind (load_array f) (res_map dec)"

definition array_get :: "(dict \<Rightarrow> 'a res) \<Rightarrow> string \<Rightarrow> json_file \<Rightarrow> string \<Rightarrow> 'a option res" where
  "array_get dec kf f k = array_find dec kf f (PStr k)"

definition array_put :: "string \<Rightarrow> json_file \<Rightarrow> string \<Rightarrow> dict \<Rightarrow> json_file res" where
  "array_put kf f k d =
     res_bind (load_array f) (\<lambda>ds. Inr (save_array (filter (\<lambda>e. \<not> entry_is kf k e) ds @ [d])))"

definition array_del :: "string \<Rightarrow> json_file \<Rightarrow> string \<Rightarrow> json_file res" where
  "array_del kf f k =
     res_bind (load_array f) (\<lambda>ds. Inr (save_array (filter (\<lambda>e. \<not> entry_is kf k e) ds)))"

definition array_contents :: "(dict \<Rightarrow> 'a res) \<Rightarrow> json_file \<Rightarrow> 'a list" where
  "array_contents dec f = (case array_list dec f of Inl e \<Rightarrow> [] | Inr xs \<Rightarrow> xs)"

definition array_inv :: "('a \<Rightarrow> dict) \<Rightarrow> (dict \<Rightarrow> 'a res) \<Rightarrow> ('a \<Rightarrow> string) \<Rightarrow> ('a \<Rightarrow> bool) \<Rightarrow> json_file \<Rightarrow> bool" where
  "array_inv enc dec key valid f \<longleftrightarrow>
     (let xs = array_contents dec f
      in load_array f = Inr (map enc xs) \<and> distinct (map key xs) \<and> list_all valid xs)"

locale object_codec =
  fixes enc :: "'a \<Rightarrow> dict"
    and dec :: "dict \<Rightarrow> 'a res"
    and kf :: string
    and key :: "'a \<Rightarrow> string"
    and valid :: "'a \<Rightarrow> bool"
  assumes dec_enc: "valid x \<Longrightarrow> dec (enc x) = Inr x"
    and enc_key: "map_of (enc x) kf = Some (PStr (key x))"
begin

abbreviation "ainv \<equiv> array_inv enc dec key valid"

lemma entry_enc [simp]: "entry_is kf k (enc x) \<longleftrightarrow> key x = k"
  by (simp add: entry_is_def dict_get_def enc_key)

lemma res_map_enc: "list_all valid xs \<Longrightarrow> res_map dec (map enc xs) = Inr xs"
  by (rule res_map_id) (simp add: list_all_iff dec_enc)

lemma find_enc: "find (entry_is kf k) (map enc xs) = map_option enc (lookup_key key xs k)"
  by (induction xs) (auto simp: lookup_key_def)

lemma filter_enc:
  "filter (\<lambda>e. \<not> entry_is kf k e) (map enc xs) = map enc (filter (\<lambda>x. key x \<noteq> k) xs)"
  by (induction xs) auto

lemma contents_save: "list_all valid xs \<Longrightarrow> array_contents dec (save_array (map enc xs)) = xs"
  by (simp add: array_contents_def array_list_def res_map_enc)

lemma inv_save: "list_all valid xs \<Longrightarrow> distinct (map key xs) \<Longrightarrow> ainv (save_array (map enc xs))"
  by (simp add: array_inv_def contents_save)

lemma inv_missing: "ainv FMissing"
  by (simp add: array_inv_def array_contents_def array_list_def)

lemma inv_load:
  "ainv f \<Longrightarrow> load_array f = Inr (map enc (array_contents dec f)) \<and>
     distinct (map key (array_contents dec f)) \<and> list_all valid (array_contents dec f)"
  by (simp add: array_inv_def Let_def)

lemma array_find_inv:
  "ainv f \<Longrightarrow> array_find dec kf f v = Inr (find (\<lambda>x. PStr (key x) = v) (array_contents dec f))"
proof -
  assume "ainv f"
  note l = inv_load[OF this]
  have e: "dict_get (enc x) kf PNone = PStr (key x)" for x by (simp add: dict_get_def enc_key)
  have "find (\<lambda>d. dict_get d kf PNone = v) (map enc xs) = map_option enc (find (\<lambda>x. PStr (key x) = v) xs)"
    for xs by (induction xs) (auto simp: e)
  moreover have "find (\<lambda>x. PStr (key x) = v) (array_contents dec f) = Some x \<Longrightarrow> dec (enc x) = Inr x" for x
    using l by (auto simp: list_all_iff dec_enc dest: find_Some_in)
  ultimately show ?thesis using l by (simp add: array_find_def split: option.split)
qed

lemma array_get_inv: "ainv f \<Longrightarrow> array_get dec kf f k = Inr (lookup_key key (array_contents dec f) k)"
  by (simp add: array_get_def array_find_inv lookup_key_def)

lemma array_put_inv:
  assumes "ainv f" and "valid x"
  shows "\<exists>f'. array_put kf f (key x) (enc x) = Inr f' \<and> ainv f' \<and>
    array_contents dec f' = filter (\<lambda>y. key y \<noteq> key x) (array_contents dec f) @ [x]"
proof -
  note l = inv_load[OF assms(1)]
  define ys where "ys = filter (\<lambda>y. key y \<noteq> key x) (array_contents dec f) @ [x]"
  have w: "list_all valid ys" "distinct (map key ys)"
    using l assms(2) unfolding ys_def by (auto simp: list_all_iff distinct_map_filter)
  have "array_put kf f (key x) (enc x) = Inr (save_array (map enc ys))"
    using l by (simp add: array_put_def filter_enc ys_def)
  with inv_save[OF w] contents_save[OF w(1)] show ?thesis by (auto simp: ys_def)
qed

lemma array_del_inv:
  assumes "ainv f"
  shows "\<exists>f'. array_del kf f k = Inr f' \<and> ainv f' \<and>
    array_contents dec f' = filter (\<lambda>y. key y \<noteq> k) (array_contents dec f)"
proof -
  note l = inv_load[OF assms]
  define ys where "ys = filter (\<lambda>y. key y \<noteq> k) (array_contents dec f)"
  have w: "list_all valid ys" "distinct (map key ys)"
    using l unfolding ys_def by (auto simp: list_all_iff distinct_map_filter)
  have "array_del kf f k = Inr (save_array (map enc ys))"
    using l by (simp add: array_del_def filter_enc ys_def)
  with inv_save[OF w] contents_save[OF w(1)] show ?thesis by (auto simp: ys_def)
qed

end

sublocale object_codec \<subseteq> keyed_store "array_list dec" "array_get dec kf"
  "\<lambda>f x. array_put kf f (key x) (enc x)" "array_del kf" key valid "\<lambda>f x. True" ainv
  "array_contents dec"
proof
  fix f assume i: "ainv f"
  show "distinct (map key (array_contents dec f))" using inv_load[OF i] by simp
  show "array_list dec f = Inr (array_contents dec f)"
    using inv_load[OF i] by (simp add: array_list_def res_map_enc)
  show "array_get dec kf f k = Inr (lookup_key key (array_contents dec f) k)" for k
    using i by (rule array_get_inv)
  show "is_ok (array_put kf f (key x) (enc x))" if "valid x" for x
    using array_put_inv[OF i that] by auto
  show "is_ok (array_del kf f k)" for k
    using array_del_inv[OF i, of k] by auto
  show "ainv f' \<and> array_contents dec f' = filter (\<lambda>y. key y \<noteq> key x) (array_contents dec f) @ [x]"
    if "valid x" and "array_put kf f (key x) (enc x) = Inr f'" for x f'
    using array_put_inv[OF i that(1)] that(2) by auto
  show "ainv f' \<and> array_contents dec f' = filter (\<lambda>y. key y \<noteq> k) (array_contents dec f)"
    if "array_del kf f k = Inr f'" for k f'
    using array_del_inv[OF i, of k] that by auto
qed

end
