(* ===== verification/Profiles.thy ===== *)
theory Profiles
  imports Persistence
begin

text \<open>
  \<open>src/models/profile.py\<close> and \<open>src/models/provider.py\<close>: the two persistent objects the rotation
  logic works on, with their dict codecs.

  Date-times have microsecond resolution. An aware one is the UTC instant it denotes, a naive one
  the wall-clock reading. \<open>isoformat\<close>/\<open>fromisoformat\<close>, \<open>str\<close> of compound values and the current time
  are the fields of \<open>py_env\<close>; \<open>iso_law\<close> is the documented inverse property of the two functions.
\<close>

section \<open>Environment\<close>

datatype datetime = Aware int | Naive int

record py_env =
  pe_repr :: "pyval \<Rightarrow> string"
  pe_iso :: "datetime \<Rightarrow> string"
  pe_from_iso :: "string \<Rightarrow> datetime option"
  pe_utcnow :: datetime

definition iso_law :: "py_env \<Rightarrow> bool" where
  "iso_law E \<longleftrightarrow> (\<forall>t. pe_iso E t \<noteq> [] \<and> pe_from_iso E (pe_iso E t) = Some t)"


section \<open>Profiles\<close>

datatype protocol_type =
    VLESS | VMESS | TROJAN | HYSTERIA2 | TUIC | SHADOWSOCKS | WIREGUARD | AMNEZIAWG | SOCKS | HTTP
  | OPENVPN | OPENVPN_CLOAK

fun protocol_value :: "protocol_type \<Rightarrow> string" where
  "protocol_value VLESS = ''vless''"
| "protocol_value VMESS = ''vmess''"
| "protocol_value TROJAN = ''trojan''"
| "protocol_value HYSTERIA2 = ''hysteria2''"
| "protocol_value TUIC = ''tuic''"
| "protocol_value SHADOWSOCKS = ''shadowsocks''"
| "protocol_value WIREGUARD = ''wireguard''"
| "protocol_value AMNEZIAWG = ''amneziawg''"
| "protocol_value SOCKS = ''socks''"
| "protocol_value HTTP = ''http''"
| "protocol_value OPENVPN = ''openvpn''"
| "protocol_value OPENVPN_CLOAK = ''openvpn_cloak''"

definition all_protocols :: "protocol_type list" where
  "all_protocols =
     [VLESS, VMESS, TROJAN, HYSTERIA2, TUIC, SHADOWSOCKS, WIREGUARD, AMNEZIAWG, SOCKS, HTTP,
      OPENVPN, OPENVPN_CLOAK]"

text \<open>\<open>ProtocolType(v)\<close>: lookup by value.\<close>

definition protocol_of :: "pyval \<Rightarrow> protocol_type res" where
  "protocol_of v = (case find (\<lambda>p. PStr (protocol_value p) = v) all_protocols of
       None \<Rightarrow> Inl ValueError | Some p \<Rightarrow> Inr p)"

datatype profile_source = SrcManual | SrcSubscription

fun source_value :: "profile_source \<Rightarrow> string" where
  "source_value SrcManual = ''manual''"
| "source_value SrcSubscription = ''subscription''"

definition source_of :: "pyval \<Rightarrow> profile_source res" where
  "source_of v =
     (if v = PStr ''manual'' then Inr SrcManual
      else if v = PStr ''subscription'' then Inr SrcSubscription
      else Inl ValueError)"

datatype resilience_category = RESILIENT | COMPATIBILITY

text \<open>The dictionary \<open>PROTOCOL_RESILIENCE_CATEGORY\<close>, in the order of the source.\<close>

definition PROTOCOL_RESILIENCE_CATEGORY :: "(protocol_type \<times> resilience_category) list" where
  "PROTOCOL_RESILIENCE_CATEGORY =
     [(VLESS, RESILIENT), (TROJAN, RESILIENT), (HYSTERIA2, RESILIENT), (AMNEZIAWG, RESILIENT),
      (OPENVPN_CLOAK, RESILIENT), (VMESS, COMPATIBILITY), (TUIC, COMPATIBILITY),
      (SHADOWSOCKS, COMPATIBILITY), (WIREGUARD, COMPATIBILITY), (SOCKS, COMPATIBILITY),
      (HTTP, COMPATIBILITY), (OPENVPN, COMPATIBILITY)]"

record profile =
  p_id :: string
  p_name :: string
  p_protocol :: protocol_type
  p_config :: dict
  p_source :: profile_source
  p_provider_id :: pyval
  p_in_rotation_pool :: bool
  p_enabled :: bool
  p_created_at :: datetime
  p_last_used :: "datetime option"
  p_last_health_check :: "datetime option"
  p_health_status :: string
  p_latency_ms :: "pyfloat option"
  p_last_latency_check :: "datetime option"

definition profile_resilience_category :: "profile \<Rightarrow> resilience_category res" where
  "profile_resilience_category p =
     (case map_of PROTOCOL_RESILIENCE_CATEGORY (p_protocol p) of
        None \<Rightarrow> Inl KeyError | Some c \<Rightarrow> Inr c)"

definition PROFILE_FIELDS :: "string list" where
  "PROFILE_FIELDS =
     [''id'', ''name'', ''protocol'', ''config'', ''source'', ''provider_id'', ''in_rotation_pool'',
      ''enabled'', ''created_at'', ''last_used'', ''last_health_check'', ''health_status'',
      ''latency_ms'', ''last_latency_check'']"

definition dt_to_iso :: "py_env \<Rightarrow> datetime option \<Rightarrow> pyval" where
  "dt_to_iso E t = (case t of None \<Rightarrow> PNone | Some u \<Rightarrow> PStr (pe_iso E u))"

definition dt_from_iso :: "py_env \<Rightarrow> pyval \<Rightarrow> datetime option res" where
  "dt_from_iso E v =
     (if \<not> py_truthy v then Inr None
      else case v of
          PStr s \<Rightarrow> (case pe_from_iso E s of None \<Rightarrow> Inl ValueError | Some t \<Rightarrow> Inr (Some t))
        | _ \<Rightarrow> Inl TypeError)"

definition profile_to_dict :: "py_env \<Rightarrow> profile \<Rightarrow> dict" where
  "profile_to_dict E p =
     [(''id'', PStr (p_id p)),
      (''name'', PStr (p_name p)),
      (''protocol'', PStr (protocol_value (p_protocol p))),
      (''config'', PDict (p_config p)),
      (''source'', PStr (source_value (p_source p))),
      (''provider_id'', p_provider_id p),
      (''in_rotation_pool'', PBool (p_in_rotation_pool p)),
      (''enabled'', PBool (p_enabled p)),
      (''created_at'', dt_to_iso E (Some (p_created_at p))),
      (''last_used'', dt_to_iso E (p_last_used p)),
      (''last_health_check'', dt_to_iso E (p_last_health_check p)),
      (''health_status'', PStr (p_health_status p)),
      (''latency_ms'', (case p_latency_ms p of None \<Rightarrow> PNone | Some f \<Rightarrow> PFloat f)),
      (''last_latency_check'', dt_to_iso E (p_last_latency_check p))]"

definition optional_float :: "pyval \<Rightarrow> pyfloat option res" where
  "optional_float v =
     (if v = PNone then Inr None else res_bind (strict_float v) (\<lambda>f. Inr (Some f)))"

definition profile_from_dict :: "py_env \<Rightarrow> dict \<Rightarrow> profile res" where
  "profile_from_dict E data =
     res_bind (reject_unknown_keys data PROFILE_FIELDS) (\<lambda>_.
     res_bind (case dict_get data ''config'' (PDict []) of PDict c \<Rightarrow> Inr c | _ \<Rightarrow> Inl ValueError) (\<lambda>config.
     res_bind (dict_item data ''id'') (\<lambda>i.
     res_bind (dict_item data ''name'') (\<lambda>n.
     res_bind (res_bind (dict_item data ''protocol'') protocol_of) (\<lambda>proto.
     res_bind (res_bind (dict_item data ''source'') source_of) (\<lambda>src.
     res_bind (strict_bool (dict_get data ''in_rotation_pool'' (PBool False))) (\<lambda>pool.
     res_bind (strict_bool (dict_get data ''enabled'' (PBool True))) (\<lambda>en.
     res_bind (dt_from_iso E (dict_get data ''created_at'' PNone)) (\<lambda>created.
     res_bind (dt_from_iso E (dict_get data ''last_used'' PNone)) (\<lambda>used.
     res_bind (dt_from_iso E (dict_get data ''last_health_check'' PNone)) (\<lambda>checked.
     res_bind (optional_float (dict_get data ''latency_ms'' PNone)) (\<lambda>lat.
     res_bind (dt_from_iso E (dict_get data ''last_latency_check'' PNone)) (\<lambda>lchecked.
       Inr \<lparr>p_id = py_str (pe_repr E) i, p_name = py_str (pe_repr E) n, p_protocol = proto,
            p_config = config, p_source = src, p_provider_id = dict_get data ''provider_id'' PNone,
            p_in_rotation_pool = pool, p_enabled = en,
            p_created_at = (case created of None \<Rightarrow> pe_utcnow E | Some t \<Rightarrow> t),
            p_last_used = used, p_last_health_check = checked,
            p_health_status = py_str (pe_repr E) (dict_get data ''health_status'' (PStr ''unknown'')),
            p_latency_ms = lat, p_last_latency_check = lchecked\<rparr>)))))))))))))"


section \<open>Providers\<close>

record provider =
  pv_id :: string
  pv_name :: string
  pv_url :: string
  pv_last_updated :: "datetime option"
  pv_profiles :: "string list"
  pv_rotation_enabled :: bool
  pv_auto_update :: bool
  pv_update_interval_hours :: int
  pv_metadata :: dict

definition PROVIDER_FIELDS :: "string list" where
  "PROVIDER_FIELDS =
     [''id'', ''name'', ''url'', ''last_updated'', ''profiles'', ''rotation_enabled'',
      ''auto_update'', ''update_interval_hours'', ''metadata'']"

definition normalized_provider_url :: "string \<Rightarrow> string" where
  "normalized_provider_url url = py_strip url"

definition provider_to_dict :: "py_env \<Rightarrow> provider \<Rightarrow> dict" where
  "provider_to_dict E p =
     [(''id'', PStr (pv_id p)),
      (''name'', PStr (pv_name p)),
      (''url'', PStr (pv_url p)),
      (''last_updated'', dt_to_iso E (pv_last_updated p)),
      (''profiles'', PList (map PStr (pv_profiles p))),
      (''rotation_enabled'', PBool (pv_rotation_enabled p)),
      (''auto_update'', PBool (pv_auto_update p)),
      (''update_interval_hours'', PInt (pv_update_interval_hours p)),
      (''metadata'', PDict (pv_metadata p))]"

definition provider_from_dict :: "py_env \<Rightarrow> dict \<Rightarrow> provider res" where
  "provider_from_dict E data =
     res_bind (reject_unknown_keys data PROVIDER_FIELDS) (\<lambda>_.
     res_bind (case dict_get data ''profiles'' (PList []) of PList ps \<Rightarrow> Inr ps | _ \<Rightarrow> Inl ValueError) (\<lambda>ps.
     res_bind (case dict_get data ''metadata'' (PDict []) of PDict m \<Rightarrow> Inr m | _ \<Rightarrow> Inl ValueError) (\<lambda>m.
     res_bind (dict_item data ''id'') (\<lambda>i.
     res_bind (dict_item data ''name'') (\<lambda>n.
     res_bind (dict_item data ''url'') (\<lambda>u.
     res_bind (dt_from_iso E (dict_get data ''last_updated'' PNone)) (\<lambda>upd.
     res_bind (strict_bool (dict_get data ''rotation_enabled'' (PBool False))) (\<lambda>rot.
     res_bind (strict_bool (dict_get data ''auto_update'' (PBool True))) (\<lambda>auto_upd.
     res_bind (strict_int (dict_get data ''update_interval_hours'' (PInt 24))) (\<lambda>hours.
       Inr \<lparr>pv_id = py_str (pe_repr E) i, pv_name = py_str (pe_repr E) n,
            pv_url = py_str (pe_repr E) u, pv_last_updated = upd,
            pv_profiles = map (py_str (pe_repr E)) ps, pv_rotation_enabled = rot,
            pv_auto_update = auto_upd, pv_update_interval_hours = hours, pv_metadata = m\<rparr>))))))))))"


section \<open>Codecs are inverse\<close>

lemma find_protocol: "find (\<lambda>q. PStr (protocol_value q) = PStr (protocol_value p)) all_protocols = Some p"
  by (cases p) (simp_all add: all_protocols_def)

lemma protocol_of_value [simp]: "protocol_of (PStr (protocol_value p)) = Inr p"
  by (simp only: protocol_of_def find_protocol option.case)

lemma source_of_value [simp]: "source_of (PStr (source_value s)) = Inr s"
  by (cases s) (simp_all add: source_of_def)

lemma dt_from_to_iso [simp]: "iso_law E \<Longrightarrow> dt_from_iso E (dt_to_iso E t) = Inr t"
  by (cases t) (auto simp: dt_from_iso_def dt_to_iso_def iso_law_def)

lemma optional_float_round [simp]:
  "optional_float (case f of None \<Rightarrow> PNone | Some x \<Rightarrow> PFloat x) = Inr f"
  by (cases f) (simp_all add: optional_float_def)

lemma resilience_category_total: "\<exists>c. profile_resilience_category p = Inr c"
  by (cases "p_protocol p")
    (simp_all add: profile_resilience_category_def PROTOCOL_RESILIENCE_CATEGORY_def)

lemma profile_from_to_dict:
  assumes "iso_law E"
  shows "profile_from_dict E (profile_to_dict E p) = Inr p"
proof -
  have "reject_unknown_keys (profile_to_dict E p) PROFILE_FIELDS = Inr ()"
    by (rule reject_unknown_keys_ok) (simp add: profile_to_dict_def PROFILE_FIELDS_def)
  then show ?thesis
    unfolding profile_from_dict_def
    by (simp add: assms profile_to_dict_def dict_get_def dict_item_def)
qed

lemma provider_from_to_dict:
  assumes "iso_law E"
  shows "provider_from_dict E (provider_to_dict E p) = Inr p"
proof -
  have "reject_unknown_keys (provider_to_dict E p) PROVIDER_FIELDS = Inr ()"
    by (rule reject_unknown_keys_ok) (simp add: provider_to_dict_def PROVIDER_FIELDS_def)
  then show ?thesis
    unfolding provider_from_dict_def
    by (simp add: assms provider_to_dict_def dict_get_def dict_item_def comp_def)
qed


section \<open>A concrete environment\<close>

text \<open>
  An environment with an encoding of date-times that satisfies \<open>iso_law\<close>, and a profile, for the
  concrete runs of this development.
\<close>

definition sample_iso :: "datetime \<Rightarrow> string" where
  "sample_iso t = (case t of
       Aware i \<Rightarrow> CHR ''A'' # (if i < 0 then CHR ''-'' else CHR ''+'') # replicate (nat \<bar>i\<bar>) CHR ''1''
     | Naive i \<Rightarrow> CHR ''N'' # (if i < 0 then CHR ''-'' else CHR ''+'') # replicate (nat \<bar>i\<bar>) CHR ''1'')"

definition sample_from_iso :: "string \<Rightarrow> datetime option" where
  "sample_from_iso s = (case s of
       k # g # r \<Rightarrow>
         (let i = (if g = CHR ''-'' then - int (length r) else int (length r))
          in Some (if k = CHR ''A'' then Aware i else Naive i))
     | _ \<Rightarrow> None)"

definition sample_env :: py_env where
  "sample_env = \<lparr>pe_repr = (\<lambda>v. ''?''), pe_iso = sample_iso, pe_from_iso = sample_from_iso,
     pe_utcnow = Aware 0\<rparr>"

lemma sample_iso_law [simp]: "iso_law sample_env"
  by (simp add: iso_law_def sample_env_def sample_iso_def sample_from_iso_def Let_def split: datetime.split)

definition sample_profile :: "string \<Rightarrow> protocol_type \<Rightarrow> profile" where
  "sample_profile i pr =
     \<lparr>p_id = i, p_name = i, p_protocol = pr, p_config = [], p_source = SrcManual, p_provider_id = PNone,
      p_in_rotation_pool = True, p_enabled = True, p_created_at = Aware 0, p_last_used = None,
      p_last_health_check = None, p_health_status = ''unknown'', p_latency_ms = None,
      p_last_latency_check = None\<rparr>"

lemma sample_profile_simps [simp]:
  "p_id (sample_profile i pr) = i" "p_protocol (sample_profile i pr) = pr"
  "p_in_rotation_pool (sample_profile i pr)" "p_enabled (sample_profile i pr)"
  "p_provider_id (sample_profile i pr) = PNone" "p_source (sample_profile i pr) = SrcManual"
  by (simp_all add: sample_profile_def)

definition sample_provider :: "string \<Rightarrow> string \<Rightarrow> provider" where
  "sample_provider i u =
     \<lparr>pv_id = i, pv_name = i, pv_url = u, pv_last_updated = None, pv_profiles = [],
      pv_rotation_enabled = True, pv_auto_update = True, pv_update_interval_hours = 24, pv_metadata = []\<rparr>"

lemma sample_provider_simps [simp]:
  "pv_id (sample_provider i u) = i" "pv_url (sample_provider i u) = u"
  by (simp_all add: sample_provider_def)


section \<open>Properties\<close>

text \<open>
  C0. Serialising a profile or a provider with \<open>to_dict\<close> and reading it back with \<open>from_dict\<close> gives the
  same object, for every object of the two classes: every field is written, the reader accepts it, and
  none of the reader's defaults replaces a stored value.
\<close>

theorem models_round_trip:
  assumes "iso_law E"
  shows "profile_from_dict E (profile_to_dict E p) = Inr p \<and>
    provider_from_dict E (provider_to_dict E v) = Inr v"
  using profile_from_to_dict[OF assms] provider_from_to_dict[OF assms] by blast

theorem models_round_trip_witness:
  "iso_law sample_env \<and>
   profile_from_dict sample_env (profile_to_dict sample_env (sample_profile ''a'' WIREGUARD)) =
     Inr (sample_profile ''a'' WIREGUARD) \<and>
   provider_from_dict sample_env (provider_to_dict sample_env (sample_provider ''p'' ''https://x'')) =
     Inr (sample_provider ''p'' ''https://x'')"
  using models_round_trip[OF sample_iso_law, of "sample_profile ''a'' WIREGUARD" "sample_provider ''p'' ''https://x''"]
  by simp

end
