(* ===== verification/Py_Text.thy ===== *)
theory Py_Text
  imports Wd_Prelude
begin

text \<open>
  Standard-library text routines the program uses: white-space splitting, \<open>shlex\<close> in POSIX mode,
  \<open>int\<close> of a literal, hexadecimal formatting, the word class of \<open>re\<close> and \<open>ipaddress.ip_address\<close>.
\<close>

section \<open>Splitting\<close>

text \<open>\<open>s.split()\<close>: maximal runs of characters that are not white space.\<close>

fun split_ws_from :: "string \<Rightarrow> string \<Rightarrow> string list" where
  "split_ws_from cur [] = (if cur = [] then [] else [rev cur])"
| "split_ws_from cur (c # cs) =
     (if py_isspace c then (if cur = [] then split_ws_from [] cs else rev cur # split_ws_from [] cs)
      else split_ws_from (c # cur) cs)"

definition py_split_ws :: "string \<Rightarrow> string list" where
  "py_split_ws s = split_ws_from [] s"

text \<open>\<open>s.split(c, 1)[0]\<close>, \<open>s.partition(c)\<close> and \<open>s.replace(c, t)\<close> for one character \<open>c\<close>.\<close>

definition before_char :: "char \<Rightarrow> string \<Rightarrow> string" where
  "before_char c s = takeWhile (\<lambda>d. d \<noteq> c) s"

definition after_char :: "char \<Rightarrow> string \<Rightarrow> string option" where
  "after_char c s = (case dropWhile (\<lambda>d. d \<noteq> c) s of [] \<Rightarrow> None | d # ds \<Rightarrow> Some ds)"

definition replace_char :: "char \<Rightarrow> string \<Rightarrow> string \<Rightarrow> string" where
  "replace_char c t s = concat (map (\<lambda>d. if d = c then t else [d]) s)"


text \<open>
  \<open>s.upper()\<close> on code points below 256. The sharp s becomes two letters. The micro sign and the y with
  diaeresis leave the range of the model and stay as they are; no text the program compares with an
  upper-cased string contains them.
\<close>

definition py_upper_char :: "char \<Rightarrow> string" where
  "py_upper_char c =
     (let n = py_code c
      in if (97 \<le> n \<and> n \<le> 122) \<or> (224 \<le> n \<and> n \<le> 254 \<and> n \<noteq> 247) then [char_of (n - 32)]
         else if n = 223 then ''SS''
         else [c])"

definition py_upper :: "string \<Rightarrow> string" where
  "py_upper s = concat (map py_upper_char s)"


section \<open>Character classes and numbers\<close>

definition is_digit :: "char \<Rightarrow> bool" where
  "is_digit c \<longleftrightarrow> (let n = py_code c in 48 \<le> n \<and> n \<le> 57)"

definition is_hex :: "char \<Rightarrow> bool" where
  "is_hex c \<longleftrightarrow> is_digit c \<or> (let n = py_code c in (65 \<le> n \<and> n \<le> 70) \<or> (97 \<le> n \<and> n \<le> 102))"

text \<open>\<open>\w\<close> on code points below 256.\<close>

definition word_char :: "char \<Rightarrow> bool" where
  "word_char c \<longleftrightarrow> (let n = py_code c in
     (48 \<le> n \<and> n \<le> 57) \<or> (65 \<le> n \<and> n \<le> 90) \<or> n = 95 \<or> (97 \<le> n \<and> n \<le> 122) \<or>
     n \<in> set [170, 178, 179, 181, 185, 186, 188, 189, 190] \<or>
     (192 \<le> n \<and> n \<noteq> 215 \<and> n \<noteq> 247))"

definition digit_val :: "char \<Rightarrow> int" where
  "digit_val c = (let n = py_code c in
     if 48 \<le> n \<and> n \<le> 57 then n - 48
     else if 65 \<le> n \<and> n \<le> 90 then n - 55
     else if 97 \<le> n \<and> n \<le> 122 then n - 87
     else 255)"

definition digits_val :: "int \<Rightarrow> string \<Rightarrow> int" where
  "digits_val base s = foldl (\<lambda>a c. a * base + digit_val c) 0 s"

definition hex_digit :: "int \<Rightarrow> char" where
  "hex_digit d = (if d < 10 then char_of (48 + d) else char_of (87 + d))"

function hex_digits :: "int \<Rightarrow> string" where
  "hex_digits n = (if n < 16 then [hex_digit n] else hex_digits (n div 16) @ [hex_digit (n mod 16)])"
  by pat_completeness auto
termination by (relation "measure nat") auto

declare hex_digits.simps [simp del]

definition hex_int :: "int \<Rightarrow> string" where
  "hex_int i = (if i < 0 then CHR ''-'' # hex_digits (- i) else hex_digits i)"

text \<open>Digits of a literal in a base, with single underscores allowed between digits.\<close>

fun underscored :: "int \<Rightarrow> string \<Rightarrow> bool" where
  "underscored base [] = False"
| "underscored base [c] = (digit_val c < base)"
| "underscored base (c # d # cs) =
     (digit_val c < base \<and> (if d = CHR ''_'' then underscored base cs else underscored base (d # cs)))"

definition strip_underscores :: "string \<Rightarrow> string" where
  "strip_underscores s = filter (\<lambda>c. c \<noteq> CHR ''_'') s"

text \<open>\<open>int(s, 0)\<close>: an optional sign, a base prefix, and decimal literals without leading zeros.\<close>

definition int_literal :: "string \<Rightarrow> int option" where
  "int_literal s =
     (let p = py_lower (take 2 s); r = drop 2 s; r' = py_removeprefix r ''_'' in
      if p = ''0x'' then (if underscored 16 r' then Some (digits_val 16 (strip_underscores r')) else None)
      else if p = ''0o'' then (if underscored 8 r' then Some (digits_val 8 (strip_underscores r')) else None)
      else if p = ''0b'' then (if underscored 2 r' then Some (digits_val 2 (strip_underscores r')) else None)
      else if \<not> underscored 10 s then None
      else let d = strip_underscores s in
        if hd d = CHR ''0'' \<and> digits_val 10 d \<noteq> 0 then None else Some (digits_val 10 d))"

definition py_int_base0 :: "string \<Rightarrow> int option" where
  "py_int_base0 s = (case py_strip s of
       [] \<Rightarrow> None
     | c # cs \<Rightarrow>
         if c = CHR ''-'' then map_option uminus (int_literal cs)
         else if c = CHR ''+'' then int_literal cs
         else int_literal (c # cs))"


text \<open>\<open>int(s)\<close>: surrounding white space, a sign, decimal digits; at most 4300 of them.\<close>

definition unsigned_int :: "string \<Rightarrow> int option" where
  "unsigned_int s =
     (let d = strip_underscores s in
      if underscored 10 s \<and> int (length d) \<le> 4300 then Some (digits_val 10 d) else None)"

definition py_int :: "string \<Rightarrow> int option" where
  "py_int s = (case py_strip s of
       [] \<Rightarrow> None
     | c # cs \<Rightarrow>
         if c = CHR ''-'' then map_option uminus (unsigned_int cs)
         else if c = CHR ''+'' then unsigned_int cs
         else unsigned_int (c # cs))"


section \<open>Lexing\<close>

datatype lex_state = LStart | LWord | LQuote char | LEscape lex_state

definition shlex_space :: "char \<Rightarrow> bool" where
  "shlex_space c \<longleftrightarrow> c \<in> set [CHR '' '', CHR 0x09, CHR 0x0D, CHR 0x0A]"

definition shlex_quote :: "char \<Rightarrow> bool" where
  "shlex_quote c \<longleftrightarrow> c = CHR 0x27 \<or> c = CHR 0x22"

definition drop_line :: "string \<Rightarrow> string" where
  "drop_line s = drop 1 (dropWhile (\<lambda>c. c \<noteq> CHR 0x0A) s)"

lemma drop_line_length [termination_simp]: "length (drop_line s) < Suc (length s)"
  unfolding drop_line_def using length_dropWhile_le[of "\<lambda>c. c \<noteq> CHR 0x0A" s]
  by (simp only: length_drop)

definition shlex_emit :: "string \<Rightarrow> bool \<Rightarrow> string list res \<Rightarrow> string list res" where
  "shlex_emit tok quoted rest =
     (if tok \<noteq> [] \<or> quoted then res_bind rest (\<lambda>ts. Inr (tok # ts)) else rest)"

text \<open>
  \<open>list(lexer)\<close> for a POSIX \<open>shlex\<close> with \<open>whitespace_split\<close> and the comment characters \<open>com\<close>: the state
  machine of \<open>read_token\<close>, its token so far and its flag \<open>quoted\<close>. A token is emitted when it is not
  empty or was quoted. Only the double quote lets a backslash escape inside it.
\<close>

fun shlex_go :: "(char \<Rightarrow> bool) \<Rightarrow> lex_state \<Rightarrow> string \<Rightarrow> bool \<Rightarrow> string \<Rightarrow> string list res" where
  "shlex_go com LStart tok quoted [] = Inr []"
| "shlex_go com LStart tok quoted (c # cs) =
     (if shlex_space c then shlex_go com LStart tok quoted cs
      else if com c then shlex_go com LStart tok quoted (drop_line cs)
      else if c = CHR 0x5C then shlex_go com (LEscape LWord) tok quoted cs
      else if shlex_quote c then shlex_go com (LQuote c) tok quoted cs
      else shlex_go com LWord [c] quoted cs)"
| "shlex_go com LWord tok quoted [] = shlex_emit tok quoted (Inr [])"
| "shlex_go com LWord tok quoted (c # cs) =
     (if shlex_space c then shlex_emit tok quoted (shlex_go com LStart [] False cs)
      else if com c then shlex_emit tok quoted (shlex_go com LStart [] False (drop_line cs))
      else if shlex_quote c then shlex_go com (LQuote c) tok quoted cs
      else if c = CHR 0x5C then shlex_go com (LEscape LWord) tok quoted cs
      else shlex_go com LWord (tok @ [c]) quoted cs)"
| "shlex_go com (LQuote q) tok quoted [] = Inl ValueError"
| "shlex_go com (LQuote q) tok quoted (c # cs) =
     (if c = q then shlex_go com LWord tok True cs
      else if c = CHR 0x5C \<and> q = CHR 0x22 then shlex_go com (LEscape (LQuote q)) tok True cs
      else shlex_go com (LQuote q) (tok @ [c]) True cs)"
| "shlex_go com (LEscape st) tok quoted [] = Inl ValueError"
| "shlex_go com (LEscape st) tok quoted (c # cs) =
     (case st of
        LQuote q \<Rightarrow>
          (if c \<noteq> CHR 0x5C \<and> c \<noteq> q then shlex_go com st (tok @ [CHR 0x5C, c]) quoted cs
           else shlex_go com st (tok @ [c]) quoted cs)
      | _ \<Rightarrow> shlex_go com st (tok @ [c]) quoted cs)"

text \<open>\<open>shlex.split(line)\<close> recognises no comments.\<close>

definition shlex_split :: "string \<Rightarrow> string list res" where
  "shlex_split line = shlex_go (\<lambda>c. False) LStart [] False line"


section \<open>IP addresses\<close>

text \<open>
  \<open>ipaddress.ip_address\<close> of a string and the text of the result, after CPython 3.12: an IPv4 address is
  its number, an IPv6 address its number and optional scope.
\<close>

datatype ip_addr = IPv4 int | IPv6 int "string option"

definition parse_octet :: "string \<Rightarrow> int option" where
  "parse_octet s =
     (if s = [] \<or> \<not> list_all is_digit s \<or> length s > 3 \<or> (s \<noteq> ''0'' \<and> hd s = CHR ''0'') then None
      else let n = digits_val 10 s in if n > 255 then None else Some n)"

definition parse_ipv4 :: "string \<Rightarrow> int option" where
  "parse_ipv4 s = (case map parse_octet (py_split_char (CHR ''.'') s) of
       [Some a, Some b, Some c, Some d] \<Rightarrow> Some (a * 16777216 + b * 65536 + c * 256 + d)
     | _ \<Rightarrow> None)"

definition ipv4_str :: "int \<Rightarrow> string" where
  "ipv4_str n = py_join ''.'' (map dec_digits
     [n div 16777216, n div 65536 mod 256, n div 256 mod 256, n mod 256])"

definition parse_hextet :: "string \<Rightarrow> int option" where
  "parse_hextet s =
     (if s = [] \<or> \<not> list_all is_hex s \<or> length s > 4 then None else Some (digits_val 16 s))"

text \<open>The parts after an IPv4-style suffix has been turned into two hextets.\<close>

definition ipv6_parts :: "string \<Rightarrow> string list option" where
  "ipv6_parts s =
     (let ps = py_split_char (CHR '':'') s in
      if length ps < 3 then None
      else if CHR ''.'' \<in> set (last ps) then
        map_option (\<lambda>n. butlast ps @ [hex_digits (n div 65536), hex_digits (n mod 65536)])
          (parse_ipv4 (last ps))
      else Some ps)"

definition skip_positions :: "string list \<Rightarrow> nat list" where
  "skip_positions ps = filter (\<lambda>i. ps ! i = []) [1..<length ps - 1]"

definition hextets :: "string list \<Rightarrow> int list option" where
  "hextets ss = (if list_all (\<lambda>s. parse_hextet s \<noteq> None) ss then Some (map (the \<circ> parse_hextet) ss) else None)"

definition ipv6_hextets :: "string list \<Rightarrow> int list option" where
  "ipv6_hextets ps =
     (if length ps > 9 then None
      else case skip_positions ps of
        [] \<Rightarrow> if length ps = 8 then hextets ps else None
      | [k] \<Rightarrow>
          (let hi = (if hd ps = [] then k - 1 else k);
               lo0 = length ps - k - 1;
               lo = (if last ps = [] then lo0 - 1 else lo0)
           in if (hd ps = [] \<and> hi \<noteq> 0) \<or> (last ps = [] \<and> lo \<noteq> 0) \<or> hi + lo > 7 then None
              else case (hextets (take hi ps), hextets (drop (length ps - lo) ps)) of
                  (Some a, Some b) \<Rightarrow> Some (a @ replicate (8 - (hi + lo)) 0 @ b)
                | _ \<Rightarrow> None)
      | _ \<Rightarrow> None)"

definition parse_ipv6 :: "string \<Rightarrow> ip_addr option" where
  "parse_ipv6 s =
     (let addr = before_char (CHR ''%'') s; scope = after_char (CHR ''%'') s in
      if (case scope of None \<Rightarrow> False | Some x \<Rightarrow> x = [] \<or> CHR ''%'' \<in> set x) then None
      else if CHR ''/'' \<in> set s then None
      else case ipv6_parts addr of
          None \<Rightarrow> None
        | Some ps \<Rightarrow> map_option (\<lambda>hs. IPv6 (foldl (\<lambda>a h. a * 65536 + h) 0 hs) scope) (ipv6_hextets ps))"

definition ip_address :: "string \<Rightarrow> ip_addr option" where
  "ip_address s = (case parse_ipv4 s of Some n \<Rightarrow> Some (IPv4 n) | None \<Rightarrow> parse_ipv6 s)"

fun ip_version :: "ip_addr \<Rightarrow> nat" where
  "ip_version (IPv4 n) = 4"
| "ip_version (IPv6 n s) = 6"

definition ipv6_groups :: "int \<Rightarrow> int list" where
  "ipv6_groups n = map (\<lambda>i. n div 65536 ^ (7 - i) mod 65536) [0..<8]"

text \<open>Start and length of the first longest run of zero groups.\<close>

fun zero_run :: "int list \<Rightarrow> nat" where
  "zero_run [] = 0"
| "zero_run (x # xs) = (if x = 0 then Suc (zero_run xs) else 0)"

definition best_run :: "int list \<Rightarrow> nat \<times> nat" where
  "best_run gs = foldl (\<lambda>(bs, bl) i. let l = zero_run (drop i gs) in if l > bl then (i, l) else (bs, bl))
     (0, 0) [0..<length gs]"

definition ipv6_str :: "int \<Rightarrow> string" where
  "ipv6_str n =
     (let gs = ipv6_groups n; hs = map hex_digits gs in
      case best_run gs of (st, l) \<Rightarrow>
        if l > 1 then
          py_join '':'' (take st hs) @ ''::'' @ py_join '':'' (drop (st + l) hs)
        else py_join '':'' hs)"

fun ip_str :: "ip_addr \<Rightarrow> string" where
  "ip_str (IPv4 n) = ipv4_str n"
| "ip_str (IPv6 n None) = ipv6_str n"
| "ip_str (IPv6 n (Some s)) = ipv6_str n @ CHR ''%'' # s"


section \<open>IP networks\<close>

text \<open>
  \<open>ipaddress.ip_network(s, strict=False)\<close>: the network address and the prefix length. An IPv4 prefix may
  also be written as a netmask or a host mask. Clearing host bits drops the scope of an IPv6 address.
  \<open>ip_in_net\<close> is \<open>address in network\<close>: the masked address is the network address, never across versions.
\<close>

datatype ip_net = IPv4Net int nat | IPv6Net int "string option" nat

definition prefix_of_string :: "int \<Rightarrow> string \<Rightarrow> nat option" where
  "prefix_of_string mx s =
     (if s \<noteq> [] \<and> list_all is_digit s \<and> digits_val 10 s \<le> mx then Some (nat (digits_val 10 s)) else None)"

definition netmask_prefix :: "int \<Rightarrow> nat option" where
  "netmask_prefix n = find (\<lambda>p. 4294967296 - 2 ^ (32 - p) = n) [0..<33]"

definition ipv4_prefix :: "string \<Rightarrow> nat option" where
  "ipv4_prefix s = (case prefix_of_string 32 s of
       Some p \<Rightarrow> Some p
     | None \<Rightarrow>
         (case parse_ipv4 s of
            None \<Rightarrow> None
          | Some n \<Rightarrow>
              (case netmask_prefix n of Some p \<Rightarrow> Some p | None \<Rightarrow> netmask_prefix (4294967295 - n))))"

definition mask_bits :: "nat \<Rightarrow> int \<Rightarrow> int" where
  "mask_bits k n = n div 2 ^ k * 2 ^ k"

definition ipv4_network :: "string \<Rightarrow> nat option \<Rightarrow> ip_net option" where
  "ipv4_network a p = (case (parse_ipv4 a, p) of
       (Some n, Some l) \<Rightarrow> Some (IPv4Net (mask_bits (32 - l) n) l)
     | _ \<Rightarrow> None)"

definition ipv6_network :: "string \<Rightarrow> nat option \<Rightarrow> ip_net option" where
  "ipv6_network a p = (case (parse_ipv6 a, p) of
       (Some (IPv6 n sc), Some l) \<Rightarrow>
         (let m = mask_bits (128 - l) n in Some (IPv6Net m (if m = n then sc else None) l))
     | _ \<Rightarrow> None)"

definition ip_network :: "string \<Rightarrow> ip_net option" where
  "ip_network s = (case py_split_char (CHR ''/'') s of
       [a] \<Rightarrow>
         (case ipv4_network a (Some 32) of Some w \<Rightarrow> Some w | None \<Rightarrow> ipv6_network a (Some 128))
     | [a, m] \<Rightarrow>
         (case ipv4_network a (ipv4_prefix m) of
            Some w \<Rightarrow> Some w
          | None \<Rightarrow> ipv6_network a (prefix_of_string 128 m))
     | _ \<Rightarrow> None)"

fun ip_in_net :: "ip_addr \<Rightarrow> ip_net \<Rightarrow> bool" where
  "ip_in_net (IPv4 n) (IPv4Net m p) = (mask_bits (32 - p) n = m)"
| "ip_in_net (IPv6 n sc) (IPv6Net m sc' p) = (mask_bits (128 - p) n = m)"
| "ip_in_net _ _ = False"

fun ip_net_str :: "ip_net \<Rightarrow> string" where
  "ip_net_str (IPv4Net n p) = ipv4_str n @ CHR ''/'' # dec_digits (int p)"
| "ip_net_str (IPv6Net n sc p) = ip_str (IPv6 n sc) @ CHR ''/'' # dec_digits (int p)"

text \<open>The addresses of a network are an interval whose length is a power of two.\<close>

lemma mask_bits_interval:
  "mask_bits k n = mask_bits k m \<longleftrightarrow> mask_bits k m \<le> n \<and> n < mask_bits k m + 2 ^ k"
proof -
  define w :: int where "w = 2 ^ k"
  have w: "0 < w" by (simp add: w_def)
  have "n div w = m div w \<longleftrightarrow> m div w * w \<le> n \<and> n < m div w * w + w"
  proof
    assume "n div w = m div w"
    then show "m div w * w \<le> n \<and> n < m div w * w + w"
      using div_mult_mod_eq[of n w] pos_mod_bound[OF w, of n] pos_mod_sign[OF w, of n] by simp
  next
    assume h: "m div w * w \<le> n \<and> n < m div w * w + w"
    have "(m div w * w + (n - m div w * w)) div w = m div w + (n - m div w * w) div w"
      using w by (intro div_mult_self3) simp
    moreover have "(n - m div w * w) div w = 0" using h by (intro div_pos_pos_trivial) simp_all
    ultimately show "n div w = m div w" by simp
  qed
  then show ?thesis using w by (simp add: w_def mask_bits_def)
qed


section \<open>Decimal texts\<close>

lemma digit_val_digit_char: "0 \<le> d \<Longrightarrow> d < 10 \<Longrightarrow> digit_val (digit_char d) = d"
proof -
  assume d: "0 \<le> d" "d < 10"
  then have "py_code (digit_char d) = 48 + d"
    by (simp add: py_code_def digit_char_def of_char_of take_bit_int_eq_self)
  then show ?thesis using d by (simp add: digit_val_def)
qed

lemma digits_val_append: "digits_val b (s @ [c]) = digits_val b s * b + digit_val c"
  by (simp add: digits_val_def)

lemma digits_val_dec_digits: "0 \<le> n \<Longrightarrow> digits_val 10 (dec_digits n) = n"
proof (induction n rule: dec_digits.induct)
  case (1 n)
  show ?case
  proof (cases "n < 10")
    case True
    then show ?thesis using 1 by (simp add: dec_digits.simps[of n] digits_val_def digit_val_digit_char)
  next
    case False
    then show ?thesis
      using 1 by (simp add: dec_digits.simps[of n] digits_val_append digit_val_digit_char)
  qed
qed

lemma dec_digits_inj: "0 \<le> m \<Longrightarrow> 0 \<le> n \<Longrightarrow> dec_digits m = dec_digits n \<longleftrightarrow> m = n"
  by (metis digits_val_dec_digits)

lemma dec_digits_ne [simp]: "dec_digits n \<noteq> []"
  by (subst dec_digits.simps) simp

lemma dec_digits_digit: "0 \<le> n \<Longrightarrow> c \<in> set (dec_digits n) \<Longrightarrow> is_digit c"
proof (induction n rule: dec_digits.induct)
  case (1 n)
  have d: "is_digit (digit_char d)" if "0 \<le> d" "d < 10" for d
    using that by (simp add: is_digit_def py_code_def digit_char_def of_char_of take_bit_int_eq_self)
  show ?case
  proof (cases "n < 10")
    case True
    then show ?thesis using 1 d[of n] by (simp add: dec_digits.simps[of n])
  next
    case False
    then show ?thesis using 1 d[of "n mod 10"] by (auto simp: dec_digits.simps[of n])
  qed
qed

lemma digit_not_space: "is_digit c \<Longrightarrow> \<not> py_isspace c"
  by (auto simp: is_digit_def py_isspace_def py_whitespace_def py_code_def Let_def)

end
