(* ===== verification/OpenVPN_Safety.thy ===== *)
theory OpenVPN_Safety
  imports Profiles Py_Text
begin

text \<open>
  \<open>src/parsers/openvpn_safety.py\<close>: the allow-list validator that every imported or stored OpenVPN
  configuration passes. Lines are tokenised by Python's POSIX \<open>shlex\<close> with the validator's comment
  characters; the main loop is a fold of \<open>config_line\<close> over the lines.
\<close>

section \<open>Tables\<close>

definition SUPPORTED_OPENVPN_DIRECTIVES :: "string list" where
  "SUPPORTED_OPENVPN_DIRECTIVES =
     [''allow-compression'', ''allow-pull-fqdn'', ''allow-recursive-routing'',
      ''auth'', ''auth-nocache'', ''auth-retry'', ''bcast-buffers'', ''bind'',
      ''bind-dev'', ''block-ipv6'', ''block-outside-dns'', ''cipher'', ''client'',
      ''comp-lzo'', ''comp-noadapt'', ''compress'', ''connect-retry'',
      ''connect-retry-max'', ''connect-timeout'', ''data-ciphers'',
      ''data-ciphers-fallback'', ''dev'', ''dev-type'', ''dhcp-option'',
      ''disable-dco'', ''disable-occ'', ''dns'', ''explicit-exit-notify'', ''float'',
      ''fragment'', ''hand-window'', ''http-proxy-option'', ''ifconfig'',
      ''ifconfig-ipv6'', ''ifconfig-noexec'', ''ifconfig-nowarn'', ''inactive'',
      ''keepalive'', ''key-direction'', ''keying-material-exporter'', ''link-mtu'',
      ''lladdr'', ''local'', ''lport'', ''machine-readable-output'', ''mark'',
      ''mssfix'', ''mtu-disc'', ''mtu-test'', ''multihome'', ''mute'',
      ''mute-replay-warnings'', ''nice'', ''nobind'', ''ns-cert-type'', ''passtos'',
      ''persist-key'', ''persist-local-ip'', ''persist-remote-ip'', ''persist-tun'',
      ''ping'', ''ping-exit'', ''ping-restart'', ''ping-timer-rem'', ''port'',
      ''preresolve'', ''proto'', ''proto-force'', ''pull'', ''pull-filter'',
      ''push-peer-info'', ''rcvbuf'', ''redirect-gateway'', ''redirect-private'',
      ''register-dns'', ''remap-usr1'', ''remote'', ''remote-cert-eku'',
      ''remote-cert-ku'', ''remote-cert-tls'', ''remote-random'',
      ''remote-random-hostname'', ''reneg-bytes'', ''reneg-pkts'', ''reneg-sec'',
      ''replay-window'', ''resolv-retry'', ''route'', ''route-delay'',
      ''route-gateway'', ''route-ipv6'', ''route-ipv6-gateway'', ''route-metric'',
      ''route-noexec'', ''route-nopull'', ''route-table'', ''rport'',
      ''session-timeout'', ''shaper'', ''single-session'', ''sndbuf'',
      ''socks-proxy-retry'', ''static-challenge'', ''suppress-timestamps'',
      ''tcp-nodelay'', ''tcp-queue-limit'', ''tls-cert-profile'', ''tls-cipher'',
      ''tls-ciphersuites'', ''tls-client'', ''tls-crypt-v2-max-age'', ''tls-exit'',
      ''tls-timeout'', ''tls-version-max'', ''tls-version-min'', ''topology'',
      ''tran-window'', ''tun-ipv6'', ''tun-mtu'', ''tun-mtu-extra'', ''tun-mtu-max'',
      ''txqueuelen'', ''verb'', ''verify-hash'', ''verify-x509-name'', ''x509-track'',
      ''x509-username-field'']"

definition SUPPORTED_OPENVPN_INLINE_BLOCKS :: "string list" where
  "SUPPORTED_OPENVPN_INLINE_BLOCKS =
     [''auth-user-pass'', ''ca'', ''cert'', ''crl-verify'', ''extra-certs'',
      ''http-proxy-user-pass'', ''key'', ''peer-fingerprint'', ''pkcs12'', ''secret'',
      ''tls-auth'', ''tls-crypt'', ''tls-crypt-v2'']"

definition INLINE_PATH_DIRECTIVES :: "string list" where
  "INLINE_PATH_DIRECTIVES =
     filter (\<lambda>k. k \<notin> set [''auth-user-pass'', ''peer-fingerprint'']) SUPPORTED_OPENVPN_INLINE_BLOCKS"

definition SPECIAL_DIRECTIVES :: "string list" where
  "SPECIAL_DIRECTIVES =
     [''auth-user-pass'', ''dns-updown'', ''http-proxy'', ''ignore-unknown-option'', ''setenv'',
      ''socks-proxy'']"

definition SAFE_OPTIONAL_COMPATIBILITY_DIRECTIVES :: "string list" where
  "SAFE_OPTIONAL_COMPATIBILITY_DIRECTIVES = [''block-outside-dns'', ''register-dns'']"


section \<open>Tokens\<close>

definition shlex_comment :: "char \<Rightarrow> bool" where
  "shlex_comment c \<longleftrightarrow> c = CHR ''#'' \<or> c = CHR '';''"

definition directive_tokens :: "string \<Rightarrow> string list res" where
  "directive_tokens line = (case shlex_go shlex_comment LStart [] False line of
       Inl e \<Rightarrow> Inl OpenVPNConfigValidationError | Inr ts \<Rightarrow> Inr ts)"

text \<open>\<open>_INLINE_TAG.fullmatch(line)\<close>: the group of \<open></?([A-Za-z0-9][A-Za-z0-9_-]*)>\<close>.\<close>

definition tag_start :: "char \<Rightarrow> bool" where
  "tag_start c \<longleftrightarrow> (let n = py_code c in
     (65 \<le> n \<and> n \<le> 90) \<or> (97 \<le> n \<and> n \<le> 122) \<or> (48 \<le> n \<and> n \<le> 57))"

definition tag_char :: "char \<Rightarrow> bool" where
  "tag_char c \<longleftrightarrow> tag_start c \<or> c = CHR ''_'' \<or> c = CHR ''-''"

fun is_tag_name :: "string \<Rightarrow> bool" where
  "is_tag_name [] = False"
| "is_tag_name (c # cs) = (tag_start c \<and> list_all tag_char cs)"

definition inline_tag :: "string \<Rightarrow> string option" where
  "inline_tag line =
     (if line \<noteq> [] \<and> hd line = CHR ''<''
      then let r = py_removeprefix (tl line) ''/''
           in if r \<noteq> [] \<and> last r = CHR ''>'' \<and> is_tag_name (butlast r) then Some (butlast r) else None
      else None)"


section \<open>Directive checks\<close>

definition validate_special_directive :: "string \<Rightarrow> string list \<Rightarrow> unit res" where
  "validate_special_directive k args =
     (let normalized = map py_lower args in
      res_guard
        (if k = ''auth-user-pass'' then args = [] \<or> normalized = [''username-only''] \<or> normalized = [''[inline]'']
         else if k = ''dns-updown'' then normalized = [''disable'']
         else if k = ''http-proxy'' then
           length args = 2 \<or> (length args = 3 \<and> normalized ! 2 \<in> set [''auto'', ''auto-nct''])
         else if k = ''ignore-unknown-option'' then
           args \<noteq> [] \<and>
           list_all (\<lambda>n. n \<in> set SAFE_OPTIONAL_COMPATIBILITY_DIRECTIVES)
             (map (\<lambda>a. py_removeprefix (py_lower a) ''--'') args)
         else if k = ''setenv'' then
           length args = 2 \<and> normalized ! 0 = ''opt'' \<and>
           py_removeprefix (normalized ! 1) ''--'' \<in> set SAFE_OPTIONAL_COMPATIBILITY_DIRECTIVES
         else if k = ''socks-proxy'' then 1 \<le> length args \<and> length args \<le> 2
         else False)
        OpenVPNConfigValidationError)"

definition validate_inline_path_directive :: "string \<Rightarrow> string list \<Rightarrow> unit res" where
  "validate_inline_path_directive k args =
     (if args = [] \<or> py_lower (hd args) \<noteq> ''[inline]'' then Inl OpenVPNConfigValidationError
      else res_guard
        (if k = ''tls-auth'' then
           length args \<in> {1, 2} \<and> (length args = 1 \<or> args ! 1 \<in> set [''0'', ''1''])
         else length args = 1)
        OpenVPNConfigValidationError)"

record ovpn_state =
  ov_directives :: "(string \<times> string list list) list"
  ov_inline_blocks :: "string list"
  ov_required :: "string list"
  ov_active :: "string option"
  ov_has_data :: bool

definition ovpn_init :: ovpn_state where
  "ovpn_init = \<lparr>ov_directives = [], ov_inline_blocks = [], ov_required = [], ov_active = None,
     ov_has_data = False\<rparr>"

text \<open>\<open>directives.setdefault(key, []).append(args)\<close>.\<close>

definition setdefault_append ::
  "(string \<times> string list list) list \<Rightarrow> string \<Rightarrow> string list \<Rightarrow> (string \<times> string list list) list" where
  "setdefault_append d k args =
     dict_put d k ((case map_of d k of None \<Rightarrow> [] | Some xs \<Rightarrow> xs) @ [args])"

text \<open>The required blocks of one directive, after its arguments have been checked.\<close>

definition check_directive :: "string \<Rightarrow> string list \<Rightarrow> string list res" where
  "check_directive k args =
     (if k \<in> set INLINE_PATH_DIRECTIVES then
        res_bind (validate_inline_path_directive k args) (\<lambda>_. Inr [k])
      else if k \<in> set SPECIAL_DIRECTIVES then
        res_bind (validate_special_directive k args) (\<lambda>_.
          Inr (if k = ''auth-user-pass'' \<and> map py_lower args = [''[inline]''] then [k] else []))
      else if k \<notin> set SUPPORTED_OPENVPN_DIRECTIVES then Inl OpenVPNConfigValidationError
      else Inr [])"

definition config_directive :: "ovpn_state \<Rightarrow> string \<Rightarrow> ovpn_state res" where
  "config_directive st line =
     res_bind (directive_tokens line) (\<lambda>parts.
       if parts = [] then Inr st
       else
         let k = py_removeprefix (py_lower (hd parts)) ''--''; args = tl parts in
         if k = [] then Inl OpenVPNConfigValidationError
         else res_bind (check_directive k args) (\<lambda>req.
           Inr (st\<lparr>ov_required := ov_required st @ req,
                   ov_directives := setdefault_append (ov_directives st) k args\<rparr>)))"

definition config_line :: "ovpn_state \<Rightarrow> string \<Rightarrow> ovpn_state res" where
  "config_line st raw_line =
     (let line = py_strip raw_line; tag = inline_tag line in
      if line = [] then Inr st
      else case ov_active st of
        Some blk \<Rightarrow>
          (case tag of
             Some t \<Rightarrow>
               (if py_startswith line ''</'' then
                  if py_lower t \<noteq> blk then Inl OpenVPNConfigValidationError
                  else if \<not> ov_has_data st then Inl OpenVPNConfigValidationError
                  else Inr (st\<lparr>ov_active := None, ov_has_data := False\<rparr>)
                else Inl OpenVPNConfigValidationError)
           | None \<Rightarrow> Inr (st\<lparr>ov_has_data := True\<rparr>))
      | None \<Rightarrow>
          (case tag of
             Some t \<Rightarrow>
               (let block_name = py_lower t in
                if py_startswith line ''</'' then Inl OpenVPNConfigValidationError
                else if block_name \<notin> set SUPPORTED_OPENVPN_INLINE_BLOCKS then Inl OpenVPNConfigValidationError
                else Inr (st\<lparr>ov_inline_blocks := block_name # ov_inline_blocks st,
                             ov_active := Some block_name, ov_has_data := False\<rparr>))
           | None \<Rightarrow> config_directive st line))"

fun config_lines :: "ovpn_state \<Rightarrow> string list \<Rightarrow> ovpn_state res" where
  "config_lines st [] = Inr st"
| "config_lines st (l # ls) = res_bind (config_line st l) (\<lambda>st'. config_lines st' ls)"

definition validate_openvpn_config :: "string \<Rightarrow> (string \<times> string list list) list res" where
  "validate_openvpn_config text =
     (let raw_config = py_strip text in
      if raw_config = [] then Inl OpenVPNConfigValidationError
      else if CHR 0x00 \<in> set raw_config then Inl OpenVPNConfigValidationError
      else res_bind (config_lines ovpn_init (py_splitlines raw_config)) (\<lambda>st.
        if ov_active st \<noteq> None then Inl OpenVPNConfigValidationError
        else if \<not> list_all (\<lambda>b. b \<in> set (ov_inline_blocks st)) (ov_required st)
          then Inl OpenVPNConfigValidationError
        else Inr (ov_directives st)))"

text \<open>\<open>str(profile.config.get("raw_config") or "")\<close>.\<close>

definition raw_config_of :: "(pyval \<Rightarrow> string) \<Rightarrow> profile \<Rightarrow> string" where
  "raw_config_of rp p =
     (let v = dict_get (p_config p) ''raw_config'' PNone in if py_truthy v then py_str rp v else [])"

definition validate_openvpn_profile :: "(pyval \<Rightarrow> string) \<Rightarrow> profile \<Rightarrow> unit res" where
  "validate_openvpn_profile rp p =
     (if p_protocol p \<notin> {OPENVPN, OPENVPN_CLOAK} then Inr ()
      else let raw_config = py_strip (raw_config_of rp p) in
        if raw_config = [] then Inl OpenVPNConfigValidationError
        else res_bind (validate_openvpn_config raw_config) (\<lambda>_. Inr ()))"


section \<open>What acceptance guarantees\<close>

text \<open>Directives through which OpenVPN runs programs, loads code or reads and writes arbitrary files.\<close>

definition exec_directives :: "string list" where
  "exec_directives =
     [''up'', ''down'', ''script-security'', ''plugin'', ''tls-verify'', ''auth-user-pass-verify'',
      ''client-connect'', ''client-disconnect'', ''learn-address'', ''ipchange'', ''route-up'',
      ''route-pre-down'', ''iproute'', ''config'', ''cd'', ''chroot'', ''log'', ''log-append'',
      ''status'', ''writepid'', ''daemon'', ''user'', ''group'', ''management'', ''askpass'',
      ''engine'', ''providers'', ''pkcs11-providers'', ''tmp-dir'', ''client-config-dir'']"

definition admitted_directive :: "string \<Rightarrow> string list \<Rightarrow> bool" where
  "admitted_directive k args \<longleftrightarrow>
     k \<in> set (SUPPORTED_OPENVPN_DIRECTIVES @ INLINE_PATH_DIRECTIVES @ SPECIAL_DIRECTIVES) \<and>
     k \<notin> set exec_directives \<and>
     (k \<in> set INLINE_PATH_DIRECTIVES \<longrightarrow> args \<noteq> [] \<and> py_lower (hd args) = ''[inline]'') \<and>
     (k = ''setenv'' \<longrightarrow>
        (\<exists>a b. args = [a, b] \<and> py_lower a = ''opt'' \<and>
           py_removeprefix (py_lower b) ''--'' \<in> set SAFE_OPTIONAL_COMPATIBILITY_DIRECTIVES))"

definition opens_block :: "string \<Rightarrow> string \<Rightarrow> bool" where
  "opens_block line b \<longleftrightarrow>
     \<not> py_startswith (py_strip line) ''</'' \<and> map_option py_lower (inline_tag (py_strip line)) = Some b"

definition ovpn_inv :: "string list \<Rightarrow> ovpn_state \<Rightarrow> bool" where
  "ovpn_inv ls st \<longleftrightarrow>
     (\<forall>k argss. (k, argss) \<in> set (ov_directives st) \<longrightarrow>
        (\<forall>args \<in> set argss. admitted_directive k args) \<and>
        (k \<in> set INLINE_PATH_DIRECTIVES \<longrightarrow> k \<in> set (ov_required st))) \<and>
     (\<forall>b \<in> set (ov_inline_blocks st). \<exists>l \<in> set ls. opens_block l b)"

lemma allowed_not_exec:
  "k \<in> set (SUPPORTED_OPENVPN_DIRECTIVES @ INLINE_PATH_DIRECTIVES @ SPECIAL_DIRECTIVES) \<Longrightarrow>
     k \<notin> set exec_directives"
proof -
  have "list_all (\<lambda>k. k \<notin> set exec_directives)
      (SUPPORTED_OPENVPN_DIRECTIVES @ INLINE_PATH_DIRECTIVES @ SPECIAL_DIRECTIVES)"
    by code_simp
  then show "k \<in> set (SUPPORTED_OPENVPN_DIRECTIVES @ INLINE_PATH_DIRECTIVES @ SPECIAL_DIRECTIVES) \<Longrightarrow>
     k \<notin> set exec_directives"
    unfolding list_all_iff by blast
qed

lemma setenv_tables:
  "''setenv'' \<notin> set INLINE_PATH_DIRECTIVES \<and> ''setenv'' \<in> set SPECIAL_DIRECTIVES"
  by code_simp

lemma validate_setenv:
  "validate_special_directive ''setenv'' args = Inr u \<longleftrightarrow>
     length args = 2 \<and> py_lower (args ! 0) = ''opt'' \<and>
     py_removeprefix (py_lower (args ! 1)) ''--'' \<in> set SAFE_OPTIONAL_COMPATIBILITY_DIRECTIVES"
  by (auto simp: validate_special_directive_def Let_def)

lemma check_directive_admitted:
  assumes "check_directive k args = Inr req"
  shows "admitted_directive k args"
proof -
  have tab: "k \<in> set (SUPPORTED_OPENVPN_DIRECTIVES @ INLINE_PATH_DIRECTIVES @ SPECIAL_DIRECTIVES)"
    using assms by (auto simp: check_directive_def split: if_splits)
  have path: "args \<noteq> [] \<and> py_lower (hd args) = ''[inline]''" if "k \<in> set INLINE_PATH_DIRECTIVES"
    using assms that
    by (auto simp: check_directive_def validate_inline_path_directive_def split: if_splits)
  have setenv: "\<exists>a b. args = [a, b] \<and> py_lower a = ''opt'' \<and>
      py_removeprefix (py_lower b) ''--'' \<in> set SAFE_OPTIONAL_COMPATIBILITY_DIRECTIVES"
    if k: "k = ''setenv''"
  proof -
    have "validate_special_directive ''setenv'' args = Inr ()"
      using assms setenv_tables unfolding k check_directive_def by auto
    then show ?thesis unfolding validate_setenv
      by (auto simp: numeral_2_eq_2 length_Suc_conv)
  qed
  from tab allowed_not_exec[OF tab] path setenv show ?thesis
    unfolding admitted_directive_def by blast
qed

lemma check_directive_required:
  "check_directive k args = Inr req \<Longrightarrow> k \<in> set INLINE_PATH_DIRECTIVES \<Longrightarrow> req = [k]"
  by (simp add: check_directive_def)

lemma setdefault_append_entries:
  assumes "(k', xs) \<in> set (setdefault_append d k args)"
  shows "(k', xs) \<in> set d \<or> (k' = k \<and> (\<exists>ys. xs = ys @ [args] \<and> (ys = [] \<or> (k, ys) \<in> set d)))"
proof -
  have put: "(k', xs) \<in> set (dict_put d k v) \<Longrightarrow> (k', xs) \<in> set d \<or> (k' = k \<and> xs = v)" for v
    by (induction d k v rule: dict_put.induct) (auto split: if_splits)
  show ?thesis
  proof (cases "map_of d k")
    case None
    then show ?thesis using put assms unfolding setdefault_append_def by fastforce
  next
    case (Some ys)
    then show ?thesis
      using put assms map_of_SomeD[OF Some] unfolding setdefault_append_def by fastforce
  qed
qed

lemma config_directive_inv:
  assumes "ovpn_inv ls st" and "config_directive st line = Inr st'"
  shows "ovpn_inv ls st'"
proof (cases "st' = st")
  case False
  with assms(2) obtain k args req where c: "check_directive k args = Inr req"
    and st': "st' = st\<lparr>ov_required := ov_required st @ req,
      ov_directives := setdefault_append (ov_directives st) k args\<rparr>"
    by (auto simp: config_directive_def Let_def split: if_splits)
  have "(\<forall>as \<in> set xs. admitted_directive k' as) \<and>
      (k' \<in> set INLINE_PATH_DIRECTIVES \<longrightarrow> k' \<in> set (ov_required st @ req))"
    if "(k', xs) \<in> set (setdefault_append (ov_directives st) k args)" for k' xs
    using setdefault_append_entries[OF that] assms(1) check_directive_admitted[OF c]
      check_directive_required[OF c]
    by (auto simp: ovpn_inv_def)
  then show ?thesis using assms(1) unfolding st' by (simp add: ovpn_inv_def)
qed (use assms in simp)

lemma ovpn_inv_mono: "ovpn_inv ls st \<Longrightarrow> set ls \<subseteq> set ls' \<Longrightarrow> ovpn_inv ls' st"
  unfolding ovpn_inv_def by blast

lemma config_line_inv:
  assumes "ovpn_inv ls st" and "config_line st raw = Inr st'"
  shows "ovpn_inv (raw # ls) st'"
proof -
  have i: "ovpn_inv (raw # ls) st" by (rule ovpn_inv_mono[OF assms(1)]) auto
  show ?thesis
  proof (cases "ov_active st")
    case None
    show ?thesis
    proof (cases "inline_tag (py_strip raw)")
      case None
      with \<open>ov_active st = None\<close> assms(2)
      have "st' = st \<or> config_directive st (py_strip raw) = Inr st'"
        by (auto simp: config_line_def Let_def split: if_splits)
      then show ?thesis using i config_directive_inv[OF i] by blast
    next
      case (Some t)
      with \<open>ov_active st = None\<close> assms(2) i show ?thesis
        by (auto simp: config_line_def Let_def ovpn_inv_def opens_block_def split: if_splits)
    qed
  next
    case (Some blk)
    with assms(2) i show ?thesis
      by (auto simp: config_line_def Let_def ovpn_inv_def split: if_splits option.splits)
  qed
qed

lemma config_lines_inv:
  "config_lines st ls = Inr st' \<Longrightarrow> ovpn_inv ls0 st \<Longrightarrow> ovpn_inv (rev ls @ ls0) st'"
proof (induction ls arbitrary: st ls0)
  case (Cons l ls)
  then obtain t where "config_line st l = Inr t" "config_lines t ls = Inr st'" by auto
  with Cons.IH[of t "l # ls0"] config_line_inv[OF Cons.prems(2)] show ?case by simp
qed simp

lemma validate_openvpn_config_admits:
  assumes "validate_openvpn_config text = Inr ds" and "(k, argss) \<in> set ds"
  shows "(\<forall>args \<in> set argss. admitted_directive k args) \<and>
    (k \<in> set INLINE_PATH_DIRECTIVES \<longrightarrow>
       (\<exists>l \<in> set (py_splitlines (py_strip text)). opens_block l k))"
proof -
  from assms(1) obtain st where st: "config_lines ovpn_init (py_splitlines (py_strip text)) = Inr st"
    and req: "\<forall>b \<in> set (ov_required st). b \<in> set (ov_inline_blocks st)" and ds: "ds = ov_directives st"
    by (auto simp: validate_openvpn_config_def Let_def list_all_iff split: if_splits)
  have "ovpn_inv (rev (py_splitlines (py_strip text)) @ []) st"
    by (rule config_lines_inv[OF st]) (simp add: ovpn_inv_def ovpn_init_def)
  then have inv: "ovpn_inv (py_splitlines (py_strip text)) st" by (rule ovpn_inv_mono) auto
  have d: "(k, argss) \<in> set (ov_directives st)" using assms(2) ds by simp
  have adm: "\<forall>args \<in> set argss. admitted_directive k args" using inv d unfolding ovpn_inv_def by blast
  have "\<exists>l \<in> set (py_splitlines (py_strip text)). opens_block l k" if "k \<in> set INLINE_PATH_DIRECTIVES"
    using inv d req that unfolding ovpn_inv_def by blast
  with adm show ?thesis by blast
qed

section \<open>Properties\<close>

definition sample_ovpn :: string where
  "sample_ovpn = ''client'' @ [CHR 0x0A] @ ''ca [inline]'' @ [CHR 0x0A] @ ''<ca>'' @ [CHR 0x0A] @
     ''x'' @ [CHR 0x0A] @ ''</ca>''"

lemma sample_ovpn_ok:
  "validate_openvpn_config sample_ovpn = Inr [(''client'', [[]]), (''ca'', [[''[inline]'']])]"
  by code_simp



end
