(* ===== verification/Object_Stores.thy ===== *)
theory Object_Stores
  imports OpenVPN_Safety
begin

text \<open>
  \<open>src/config/profile_store.py\<close> and \<open>src/config/provider_store.py\<close>. Each method holds the store's file
  lock for its whole body, so it is one function from the file before to the file after. Both stores
  are interpreted as \<open>keyed_store\<close>.
\<close>

section \<open>Profile store\<close>

definition ProfileStore_add :: "py_env \<Rightarrow> json_file \<Rightarrow> profile \<Rightarrow> json_file res" where
  "ProfileStore_add E f p =
     res_bind (validate_openvpn_profile (pe_repr E) p) (\<lambda>_.
       array_put ''id'' f (p_id p) (profile_to_dict E p))"

definition ProfileStore_update_atomically ::
  "py_env \<Rightarrow> json_file \<Rightarrow> (profile list \<Rightarrow> (profile list \<times> 'r) res) \<Rightarrow> (json_file \<times> 'r) res" where
  "ProfileStore_update_atomically E f transform =
     res_bind (array_list (profile_from_dict E) f) (\<lambda>current.
     res_bind (transform current) (\<lambda>(replacement, result).
     res_bind (res_map (validate_openvpn_profile (pe_repr E)) replacement) (\<lambda>_.
       Inr (save_array (map (profile_to_dict E) replacement), result))))"

definition ProfileStore_get :: "py_env \<Rightarrow> json_file \<Rightarrow> string \<Rightarrow> profile option res" where
  "ProfileStore_get E f i = array_get (profile_from_dict E) ''id'' f i"

definition ProfileStore_list :: "py_env \<Rightarrow> json_file \<Rightarrow> profile list res" where
  "ProfileStore_list E f = array_list (profile_from_dict E) f"

definition ProfileStore_update :: "py_env \<Rightarrow> json_file \<Rightarrow> profile \<Rightarrow> json_file res" where
  "ProfileStore_update E f p = ProfileStore_add E f p"

definition ProfileStore_remove :: "py_env \<Rightarrow> json_file \<Rightarrow> string \<Rightarrow> json_file res" where
  "ProfileStore_remove E f i = array_del ''id'' f i"

definition profile_valid :: "py_env \<Rightarrow> profile \<Rightarrow> bool" where
  "profile_valid E p \<longleftrightarrow> iso_law E \<and> validate_openvpn_profile (pe_repr E) p = Inr ()"

definition profile_store_inv :: "py_env \<Rightarrow> json_file \<Rightarrow> bool" where
  "profile_store_inv E = array_inv (profile_to_dict E) (profile_from_dict E) p_id (profile_valid E)"

interpretation profile_codec: object_codec "profile_to_dict E" "profile_from_dict E" "''id''" p_id
  "profile_valid E" for E
proof
  show "profile_valid E x \<Longrightarrow> profile_from_dict E (profile_to_dict E x) = Inr x" for x
    by (simp add: profile_valid_def profile_from_to_dict)
  show "map_of (profile_to_dict E x) ''id'' = Some (PStr (p_id x))" for x
    by (simp add: profile_to_dict_def)
qed

interpretation profile_store: keyed_store "ProfileStore_list E" "ProfileStore_get E"
  "ProfileStore_add E" "ProfileStore_remove E" p_id "\<lambda>p. iso_law E"
  "\<lambda>f p. validate_openvpn_profile (pe_repr E) p = Inr ()" "profile_store_inv E"
  "array_contents (profile_from_dict E)" for E
proof
  fix f assume i: "profile_store_inv E f"
  then have a: "profile_codec.ainv E f" by (simp add: profile_store_inv_def)
  show "distinct (map p_id (array_contents (profile_from_dict E) f))"
    using a by (rule profile_codec.distinct_contents)
  show "ProfileStore_list E f = Inr (array_contents (profile_from_dict E) f)"
    using profile_codec.all_contents[OF a] by (simp add: ProfileStore_list_def)
  show "ProfileStore_get E f k = Inr (lookup_key p_id (array_contents (profile_from_dict E) f) k)" for k
    using profile_codec.get_contents[OF a] by (simp add: ProfileStore_get_def)
  show "is_ok (ProfileStore_add E f p)"
    if "iso_law E" and "validate_openvpn_profile (pe_repr E) p = Inr ()" for p
    using profile_codec.put_admitted[OF a, of p] that
    by (simp add: ProfileStore_add_def profile_valid_def)
  show "is_ok (ProfileStore_remove E f k)" for k
    using profile_codec.del_total[OF a] by (simp add: ProfileStore_remove_def)
  show "profile_store_inv E f' \<and> array_contents (profile_from_dict E) f' =
      filter (\<lambda>y. p_id y \<noteq> p_id p) (array_contents (profile_from_dict E) f) @ [p]"
    if "iso_law E" and "ProfileStore_add E f p = Inr f'" for p f'
    using profile_codec.put_contents[OF a, of p f'] that
    by (auto simp: ProfileStore_add_def profile_valid_def profile_store_inv_def)
  show "profile_store_inv E f' \<and> array_contents (profile_from_dict E) f' =
      filter (\<lambda>y. p_id y \<noteq> k) (array_contents (profile_from_dict E) f)"
    if "ProfileStore_remove E f k = Inr f'" for k f'
    using profile_codec.del_contents[OF a, of k f'] that
    by (auto simp: ProfileStore_remove_def profile_store_inv_def)
qed

lemma profile_store_inv_missing: "profile_store_inv E FMissing"
  unfolding profile_store_inv_def by (rule profile_codec.inv_missing)

lemma profile_store_valid:
  "profile_store_inv E f \<Longrightarrow> p \<in> set (array_contents (profile_from_dict E) f) \<Longrightarrow> profile_valid E p"
  unfolding profile_store_inv_def using profile_codec.inv_load[of E f] by (auto simp: list_all_iff)

lemma res_map_guard_all:
  "res_map f xs = Inr us \<Longrightarrow> x \<in> set xs \<Longrightarrow> \<exists>u. f x = Inr u"
  by (fastforce simp: res_map_Inr_iff list_all2_conv_all_nth in_set_conv_nth)

lemma update_atomically_contents:
  assumes "iso_law E" and "profile_store_inv E f"
    and "ProfileStore_update_atomically E f transform = Inr (f', r)"
  obtains xs where "transform (array_contents (profile_from_dict E) f) = Inr (xs, r)"
    and "array_contents (profile_from_dict E) f' = xs"
    and "list_all (profile_valid E) xs"
    and "distinct (map p_id xs) \<Longrightarrow> profile_store_inv E f'"
proof -
  have l: "array_list (profile_from_dict E) f = Inr (array_contents (profile_from_dict E) f)"
    using profile_store.all_contents[OF assms(2)] by (simp add: ProfileStore_list_def)
  from assms(3) l obtain xs us where
    t: "transform (array_contents (profile_from_dict E) f) = Inr (xs, r)"
    and v: "res_map (validate_openvpn_profile (pe_repr E)) xs = Inr us"
    and f': "f' = save_array (map (profile_to_dict E) xs)"
    by (auto simp: ProfileStore_update_atomically_def)
  have w: "list_all (profile_valid E) xs"
    using res_map_guard_all[OF v] assms(1) by (auto simp: list_all_iff profile_valid_def)
  show ?thesis
    by (rule that[OF t _ w])
      (simp_all add: f' profile_codec.contents_save[OF w] profile_store_inv_def profile_codec.inv_save[OF w])
qed


section \<open>Provider store\<close>

fun py_hashable :: "pyval \<Rightarrow> bool" where
  "py_hashable (PList _) = False"
| "py_hashable (PDict _) = False"
| "py_hashable _ = True"

text \<open>
  \<open>ProviderStore.add\<close>: the saved file and the provider object, whose URL the method rewrites to its
  normalised form before saving.
\<close>

definition ProviderStore_add :: "py_env \<Rightarrow> json_file \<Rightarrow> provider \<Rightarrow> (json_file \<times> provider) res" where
  "ProviderStore_add E f p =
     res_bind (load_array f) (\<lambda>items.
       let provider_url = normalized_provider_url (pv_url p) in
       res_bind (res_guard
         (list_all (\<lambda>d. entry_is ''id'' (pv_id p) d \<or>
            normalized_provider_url (py_str (pe_repr E) (dict_get d ''url'' (PStr []))) \<noteq> provider_url) items)
         DuplicateProviderError) (\<lambda>_.
       res_bind (res_guard (list_all (\<lambda>d. py_hashable (dict_get d ''id'' PNone)) items) TypeError) (\<lambda>_.
       res_bind (res_guard (list_ex (entry_is ''id'' (pv_id p)) items \<or> length items < 2)
         ProviderLimitError) (\<lambda>_.
         let p' = p\<lparr>pv_url := provider_url\<rparr> in
         res_bind (array_put ''id'' f (pv_id p) (provider_to_dict E p')) (\<lambda>f'. Inr (f', p'))))))"

definition ProviderStore_get :: "py_env \<Rightarrow> json_file \<Rightarrow> string \<Rightarrow> provider option res" where
  "ProviderStore_get E f i = array_get (provider_from_dict E) ''id'' f i"

definition ProviderStore_list :: "py_env \<Rightarrow> json_file \<Rightarrow> provider list res" where
  "ProviderStore_list E f = array_list (provider_from_dict E) f"

definition ProviderStore_update :: "py_env \<Rightarrow> json_file \<Rightarrow> provider \<Rightarrow> (json_file \<times> provider) res" where
  "ProviderStore_update E f p = ProviderStore_add E f p"

definition ProviderStore_remove :: "py_env \<Rightarrow> json_file \<Rightarrow> string \<Rightarrow> json_file res" where
  "ProviderStore_remove E f i = array_del ''id'' f i"

definition ProviderStore_put :: "py_env \<Rightarrow> json_file \<Rightarrow> provider \<Rightarrow> json_file res" where
  "ProviderStore_put E f p = res_bind (ProviderStore_add E f p) (\<lambda>(f', p'). Inr f')"

definition provider_valid :: "py_env \<Rightarrow> provider \<Rightarrow> bool" where
  "provider_valid E p \<longleftrightarrow> iso_law E \<and> normalized_provider_url (pv_url p) = pv_url p"

definition provider_store_inv :: "py_env \<Rightarrow> json_file \<Rightarrow> bool" where
  "provider_store_inv E f \<longleftrightarrow>
     array_inv (provider_to_dict E) (provider_from_dict E) pv_id (provider_valid E) f \<and>
     distinct (map pv_url (array_contents (provider_from_dict E) f)) \<and>
     length (array_contents (provider_from_dict E) f) \<le> 2"

definition provider_admits :: "py_env \<Rightarrow> json_file \<Rightarrow> provider \<Rightarrow> bool" where
  "provider_admits E f p \<longleftrightarrow>
     (let xs = array_contents (provider_from_dict E) f in
      list_all (\<lambda>q. pv_id q = pv_id p \<or> pv_url q \<noteq> pv_url p) xs \<and>
      (list_ex (\<lambda>q. pv_id q = pv_id p) xs \<or> length xs < 2))"

interpretation provider_codec: object_codec "provider_to_dict E" "provider_from_dict E" "''id''" pv_id
  "provider_valid E" for E
proof
  show "provider_valid E x \<Longrightarrow> provider_from_dict E (provider_to_dict E x) = Inr x" for x
    by (simp add: provider_valid_def provider_from_to_dict)
  show "map_of (provider_to_dict E x) ''id'' = Some (PStr (pv_id x))" for x
    by (simp add: provider_to_dict_def)
qed

lemma provider_entry [simp]:
  "entry_is ''id'' k (provider_to_dict E q) \<longleftrightarrow> pv_id q = k"
  "dict_get (provider_to_dict E q) ''url'' d = PStr (pv_url q)"
  "dict_get (provider_to_dict E q) ''id'' d = PStr (pv_id q)"
  by (simp_all add: entry_is_def dict_get_def provider_to_dict_def)

lemma ProviderStore_add_inv:
  assumes inv: "provider_store_inv E f" and ok: "iso_law E"
  shows "ProviderStore_add E f p =
    (let p' = p\<lparr>pv_url := normalized_provider_url (pv_url p)\<rparr> in
     if \<not> list_all (\<lambda>q. pv_id q = pv_id p \<or> pv_url q \<noteq> pv_url p') (array_contents (provider_from_dict E) f)
     then Inl DuplicateProviderError
     else if \<not> provider_admits E f p' then Inl ProviderLimitError
     else res_bind (array_put ''id'' f (pv_id p) (provider_to_dict E p')) (\<lambda>f'. Inr (f', p')))"
proof -
  define xs where "xs = array_contents (provider_from_dict E) f"
  from inv have l: "load_array f = Inr (map (provider_to_dict E) xs)" "list_all (provider_valid E) xs"
    using provider_codec.inv_load[of E f] by (simp_all add: provider_store_inv_def xs_def)
  have url: "(\<forall>q \<in> set xs. pv_id q = pv_id p \<or> normalized_provider_url (pv_url q) \<noteq> u) \<longleftrightarrow>
      (\<forall>q \<in> set xs. pv_id q = pv_id p \<or> pv_url q \<noteq> u)" for u
    using l(2) by (auto simp: list_all_iff provider_valid_def)
  show ?thesis
    unfolding ProviderStore_add_def l(1) xs_def[symmetric] provider_admits_def
    by (auto simp: Let_def list_all_iff list_ex_iff url res_guard_def)
qed

lemma provider_put_inv:
  assumes inv: "provider_store_inv E f" and ok: "iso_law E"
    and add: "ProviderStore_add E f p = Inr (f', p')"
  shows "p' = p\<lparr>pv_url := normalized_provider_url (pv_url p)\<rparr> \<and> provider_store_inv E f' \<and>
    array_contents (provider_from_dict E) f' =
      filter (\<lambda>q. pv_id q \<noteq> pv_id p) (array_contents (provider_from_dict E) f) @ [p']"
proof -
  define xs where "xs = array_contents (provider_from_dict E) f"
  define ys where "ys = filter (\<lambda>q. pv_id q \<noteq> pv_id p) xs"
  from add have p': "p' = p\<lparr>pv_url := normalized_provider_url (pv_url p)\<rparr>"
    and fresh: "list_all (\<lambda>q. pv_id q = pv_id p \<or> pv_url q \<noteq> pv_url p') xs"
    and adm: "list_ex (\<lambda>q. pv_id q = pv_id p) xs \<or> length xs < 2"
    and put: "array_put ''id'' f (pv_id p') (provider_to_dict E p') = Inr f'"
    unfolding ProviderStore_add_inv[OF inv ok] by (auto simp: Let_def provider_admits_def xs_def split: if_splits)
  have v: "provider_valid E p'" by (simp add: p' provider_valid_def ok normalized_provider_url_def)
  have a: "provider_codec.ainv E f" and len: "length xs \<le> 2" and du: "distinct (map pv_url xs)"
    using inv by (simp_all add: provider_store_inv_def xs_def)
  from provider_codec.put_contents[OF a v put]
  have c: "provider_codec.ainv E f'" "array_contents (provider_from_dict E) f' = ys @ [p']"
    by (simp_all add: ys_def xs_def p')
  have "distinct (map pv_url (ys @ [p']))"
    using du fresh by (auto simp: ys_def distinct_map_filter list_all_iff)
  moreover have "length (ys @ [p']) \<le> 2"
  proof (cases "list_ex (\<lambda>q. pv_id q = pv_id p) xs")
    case True
    then have "length ys < length xs" unfolding ys_def list_ex_iff by (auto intro: length_filter_less)
    then show ?thesis using len by simp
  next
    case False
    moreover have "length ys \<le> length xs" unfolding ys_def by (rule length_filter_le)
    ultimately show ?thesis using adm by simp
  qed
  ultimately show ?thesis using c by (simp add: provider_store_inv_def p' ys_def xs_def)
qed

interpretation provider_store: keyed_store "ProviderStore_list E" "ProviderStore_get E"
  "ProviderStore_put E" "ProviderStore_remove E" pv_id "provider_valid E" "provider_admits E"
  "provider_store_inv E" "array_contents (provider_from_dict E)" for E
proof
  fix f assume i: "provider_store_inv E f"
  then have a: "provider_codec.ainv E f" by (simp add: provider_store_inv_def)
  show "distinct (map pv_id (array_contents (provider_from_dict E) f))"
    using a by (rule provider_codec.distinct_contents)
  show "ProviderStore_list E f = Inr (array_contents (provider_from_dict E) f)"
    using provider_codec.all_contents[OF a] by (simp add: ProviderStore_list_def)
  show "ProviderStore_get E f k = Inr (lookup_key pv_id (array_contents (provider_from_dict E) f) k)" for k
    using provider_codec.get_contents[OF a] by (simp add: ProviderStore_get_def)
  show "is_ok (ProviderStore_remove E f k)" for k
    using provider_codec.del_total[OF a] by (simp add: ProviderStore_remove_def)
  show "is_ok (ProviderStore_put E f p)" if v: "provider_valid E p" and adm: "provider_admits E f p" for p
  proof -
    have n: "p\<lparr>pv_url := normalized_provider_url (pv_url p)\<rparr> = p" "iso_law E"
      using v by (simp_all add: provider_valid_def)
    obtain f' where "array_put ''id'' f (pv_id p) (provider_to_dict E p) = Inr f'"
      using provider_codec.array_put_inv[OF a v] by auto
    then have "ProviderStore_add E f p = Inr (f', p)"
      using adm n unfolding ProviderStore_add_inv[OF i n(2)] by (simp add: provider_admits_def Let_def)
    then show ?thesis by (simp add: ProviderStore_put_def)
  qed
  show "provider_store_inv E f' \<and> array_contents (provider_from_dict E) f' =
      filter (\<lambda>y. pv_id y \<noteq> pv_id p) (array_contents (provider_from_dict E) f) @ [p]"
    if "provider_valid E p" and "ProviderStore_put E f p = Inr f'" for p f'
  proof -
    from that(2) obtain p' where "ProviderStore_add E f p = Inr (f', p')"
      by (auto simp: ProviderStore_put_def)
    with provider_put_inv[OF i _ this] that(1) show ?thesis by (simp add: provider_valid_def)
  qed
  show "provider_store_inv E f' \<and> array_contents (provider_from_dict E) f' =
      filter (\<lambda>y. pv_id y \<noteq> k) (array_contents (provider_from_dict E) f)"
    if "ProviderStore_remove E f k = Inr f'" for k f'
  proof -
    have c: "provider_codec.ainv E f'"
      "array_contents (provider_from_dict E) f' =
         filter (\<lambda>y. pv_id y \<noteq> k) (array_contents (provider_from_dict E) f)"
      using provider_codec.del_contents[OF a, of k f'] that by (simp_all add: ProviderStore_remove_def)
    show ?thesis
      using i c
      by (auto simp: provider_store_inv_def distinct_map_filter intro: order_trans[OF length_filter_le])
  qed
qed

lemma provider_store_inv_missing: "provider_store_inv E FMissing"
  by (simp add: provider_store_inv_def provider_codec.inv_missing array_contents_def array_list_def)

section \<open>Properties\<close>

text \<open>
  C0. The profile store is a keyed map. After any sequence of successful adds and removals on a well-formed
  file, \<open>get\<close> answers what the same sequence of updates on a finite map answers; and every stored profile has
  passed the OpenVPN validator, so no run of the store can bring an unvalidated configuration to a driver.
\<close>

theorem profile_store_refines_map:
  assumes "iso_law E" and "profile_store_inv E f"
    and "run_store (ProfileStore_add E) (ProfileStore_remove E) ops f = Inr f'"
  shows "ProfileStore_get E f' k =
      Inr (fold (store_spec p_id) ops (lookup_key p_id (array_contents (profile_from_dict E) f)) k) \<and>
    (\<forall>ps. ProfileStore_list E f' = Inr ps \<longrightarrow>
       (\<forall>p \<in> set ps. validate_openvpn_profile (pe_repr E) p = Inr ()))"
proof -
  have "profile_store_inv E f'"
    using profile_store.run_refines[OF assms(2) _ assms(3)] assms(1) by blast
  then have "\<forall>ps. ProfileStore_list E f' = Inr ps \<longrightarrow> (\<forall>p \<in> set ps. validate_openvpn_profile (pe_repr E) p = Inr ())"
    using profile_store.all_contents profile_store_valid by (fastforce simp: profile_valid_def)
  then show ?thesis using profile_store.run_lookup[OF assms(2) _ assms(3)] assms(1) by blast
qed

lemma sample_store_run:
  "run_store (ProfileStore_add sample_env) (ProfileStore_remove sample_env)
     [Put (sample_profile ''a'' VLESS), Put (sample_profile ''b'' TROJAN), Del ''a''] FMissing =
   Inr (save_array [profile_to_dict sample_env (sample_profile ''b'' TROJAN)])"
  by (simp add: ProfileStore_add_def ProfileStore_remove_def validate_openvpn_profile_def array_put_def
      array_del_def)

theorem profile_store_refines_map_witness:
  "\<exists>f'. run_store (ProfileStore_add sample_env) (ProfileStore_remove sample_env)
       [Put (sample_profile ''a'' VLESS), Put (sample_profile ''b'' TROJAN), Del ''a''] FMissing = Inr f' \<and>
     ProfileStore_get sample_env f' ''b'' = Inr (Some (sample_profile ''b'' TROJAN)) \<and>
     ProfileStore_get sample_env f' ''a'' = Inr None"
  by (intro exI conjI, rule sample_store_run)
    (use profile_store_refines_map[OF sample_iso_law profile_store_inv_missing sample_store_run] in simp_all)

text \<open>
  C0. \<open>update_atomically\<close> replaces the stored list by what the transformation returned, and nothing else: the
  transformation sees exactly the stored profiles, the file afterwards holds exactly its answer in order, and
  every profile of the answer has passed the OpenVPN validator.
\<close>

theorem update_atomically_replaces:
  assumes "iso_law E" and "profile_store_inv E f"
    and "ProfileStore_update_atomically E f transform = Inr (f', r)"
  shows "\<exists>xs. transform (array_contents (profile_from_dict E) f) = Inr (xs, r) \<and>
    ProfileStore_list E f' = Inr xs \<and>
    (\<forall>p \<in> set xs. validate_openvpn_profile (pe_repr E) p = Inr ())"
proof -
  obtain xs us where t: "transform (array_contents (profile_from_dict E) f) = Inr (xs, r)"
    and v: "res_map (validate_openvpn_profile (pe_repr E)) xs = Inr us"
    and f': "f' = save_array (map (profile_to_dict E) xs)"
    using assms(3) profile_store.all_contents[OF assms(2)]
    by (auto simp: ProfileStore_update_atomically_def ProfileStore_list_def)
  have w: "list_all (profile_valid E) xs"
    using res_map_guard_all[OF v] assms(1) by (auto simp: list_all_iff profile_valid_def)
  have "ProfileStore_list E f' = Inr xs"
    by (simp add: f' ProfileStore_list_def array_list_def profile_codec.res_map_enc[OF w])
  then show ?thesis using t w by (auto simp: list_all_iff profile_valid_def)
qed

theorem update_atomically_replaces_witness:
  "\<exists>f'. ProfileStore_update_atomically sample_env FMissing
       (\<lambda>ps. Inr (ps @ [sample_profile ''a'' VLESS], length ps)) = Inr (f', 0) \<and>
     ProfileStore_list sample_env f' = Inr [sample_profile ''a'' VLESS]"
proof -
  let ?t = "\<lambda>ps. Inr (ps @ [sample_profile ''a'' VLESS], length ps) :: (profile list \<times> nat) res"
  obtain f' where u: "ProfileStore_update_atomically sample_env FMissing ?t = Inr (f', 0)"
    by (simp add: ProfileStore_update_atomically_def array_list_def validate_openvpn_profile_def)
  show ?thesis
    using u update_atomically_replaces[OF sample_iso_law profile_store_inv_missing u]
    by (simp add: array_contents_def array_list_def)
qed

text \<open>
  C0. At most two providers, with distinct ids and URLs. \<open>ProviderStore.add\<close> on a well-formed file keeps both
  limits and stores the provider under its stripped URL, in place of the one with the same id; it fails with
  \<open>DuplicateProviderError\<close> exactly when another provider has that URL, and otherwise with \<open>ProviderLimitError\<close>
  exactly when the id is new and two providers are stored.
\<close>

theorem provider_add_outcome:
  fixes E :: py_env and f :: json_file and p :: provider
  assumes "iso_law E" and "provider_store_inv E f"
  defines "xs \<equiv> array_contents (provider_from_dict E) f" and "u \<equiv> normalized_provider_url (pv_url p)"
  shows "case ProviderStore_add E f p of
      Inl e \<Rightarrow>
        (if \<exists>q \<in> set xs. pv_id q \<noteq> pv_id p \<and> pv_url q = u then e = DuplicateProviderError
         else e = ProviderLimitError \<and> length xs = 2 \<and> pv_id p \<notin> pv_id ` set xs)
    | Inr (f', p') \<Rightarrow>
        p' = p\<lparr>pv_url := u\<rparr> \<and> ProviderStore_list E f' = Inr (filter (\<lambda>q. pv_id q \<noteq> pv_id p) xs @ [p']) \<and>
        provider_store_inv E f' \<and> (\<forall>q \<in> set xs. pv_id q = pv_id p \<or> pv_url q \<noteq> u)"
proof (cases "ProviderStore_add E f p")
  case (Inl e)
  have "length xs \<le> 2" using assms(2) by (simp add: provider_store_inv_def xs_def)
  moreover have "array_put ''id'' f (pv_id p) d \<noteq> Inl e'" for d e'
    using provider_codec.inv_load[of E f] assms(2) by (simp add: array_put_def provider_store_inv_def)
  ultimately show ?thesis
    using Inl unfolding ProviderStore_add_inv[OF assms(2,1)]
    by (auto simp: Let_def provider_admits_def list_all_iff list_ex_iff xs_def u_def res_bind_def
        split: if_splits sum.splits)
next
  case (Inr r)
  obtain f' p' where r: "r = (f', p')" by fastforce
  note c = provider_put_inv[OF assms(2,1), of p f' p'] Inr r
  have "\<forall>q \<in> set xs. pv_id q = pv_id p \<or> pv_url q \<noteq> u"
    using Inr unfolding ProviderStore_add_inv[OF assms(2,1)]
    by (auto simp: Let_def list_all_iff xs_def u_def split: if_splits)
  then show ?thesis using c provider_store.all_contents[of E f'] by (simp add: xs_def u_def)
qed

theorem provider_add_outcome_witness:
  "\<exists>f' p'. ProviderStore_add sample_env FMissing (sample_provider ''p'' '' https://x '') = Inr (f', p') \<and>
     ProviderStore_list sample_env f' = Inr [p'] \<and> pv_url p' = ''https://x'' \<and> provider_store_inv sample_env f'"
proof -
  have "py_strip '' https://x '' = ''https://x''" by code_simp
  then have "is_ok (ProviderStore_add sample_env FMissing (sample_provider ''p'' '' https://x ''))"
    by (simp add: ProviderStore_add_def Let_def array_put_def)
  then obtain f' p' where a: "ProviderStore_add sample_env FMissing (sample_provider ''p'' '' https://x '') = Inr (f', p')"
    by (cases "ProviderStore_add sample_env FMissing (sample_provider ''p'' '' https://x '')") auto
  show ?thesis
    using a provider_add_outcome[OF sample_iso_law provider_store_inv_missing, of "sample_provider ''p'' '' https://x ''"]
      \<open>py_strip _ = _\<close>
    by (simp add: array_contents_def array_list_def normalized_provider_url_def)
qed

end
