(* ===== verification/Node_Groups.thy ===== *)
theory Node_Groups
  imports Object_Stores
begin

text \<open>
  \<open>src/node_groups/models.py\<close> and \<open>src/node_groups/store.py\<close>: node groups, their constructor checks,
  their dict codec and the store with its nine mutators. \<open>rp\<close> is the text of compound values.
\<close>

section \<open>Model\<close>

text \<open>
  \<open>group_target\<close> of a string action: the dot of \<open>^group:(.+)$\<close> does not match a newline.
\<close>

definition group_target :: "string \<Rightarrow> string option" where
  "group_target action =
     (let s = py_strip action; rest = drop 6 s in
      if py_startswith s ''group:'' \<and> rest \<noteq> [] \<and> CHR 0x0A \<notin> set rest
      then Some (py_strip rest) else None)"

definition NODE_GROUP_FIELDS :: "string list" where
  "NODE_GROUP_FIELDS =
     [''name'', ''enabled'', ''member_profile_ids'', ''member_provider_ids'', ''exclude_profile_ids'',
      ''resilience_policy'', ''selection_mode'', ''manual_profile_id'']"

datatype resilience_policy = RESILIENT_ONLY | PREFERRED | COMPATIBILITY_ALLOWED

fun policy_value :: "resilience_policy \<Rightarrow> string" where
  "policy_value RESILIENT_ONLY = ''resilient_only''"
| "policy_value PREFERRED = ''preferred''"
| "policy_value COMPATIBILITY_ALLOWED = ''compatibility_allowed''"

definition policy_of :: "string \<Rightarrow> resilience_policy res" where
  "policy_of s =
     (if s = ''resilient_only'' then Inr RESILIENT_ONLY
      else if s = ''preferred'' then Inr PREFERRED
      else if s = ''compatibility_allowed'' then Inr COMPATIBILITY_ALLOWED
      else Inl PersistentValidationError)"

datatype selection_mode = SelManual | SelAuto

fun mode_value :: "selection_mode \<Rightarrow> string" where
  "mode_value SelManual = ''manual''"
| "mode_value SelAuto = ''auto''"

definition mode_of :: "string \<Rightarrow> selection_mode res" where
  "mode_of s =
     (if s = ''manual'' then Inr SelManual
      else if s = ''auto'' then Inr SelAuto
      else Inl PersistentValidationError)"

record node_group =
  ng_name :: string
  ng_enabled :: bool
  ng_member_profile_ids :: "string list"
  ng_member_provider_ids :: "string list"
  ng_exclude_profile_ids :: "string list"
  ng_resilience_policy :: resilience_policy
  ng_selection_mode :: selection_mode
  ng_manual_profile_id :: "string option"

definition validate_name :: "string \<Rightarrow> string res" where
  "validate_name name =
     (let normalized = py_strip name in
      res_bind (res_guard (is_slug normalized) PersistentValidationError) (\<lambda>_. Inr normalized))"

fun validate_ids :: "string list \<Rightarrow> pyval list \<Rightarrow> string list res" where
  "validate_ids acc [] = Inr acc"
| "validate_ids acc (PStr s # xs) =
     (if py_strip s = [] then Inl PersistentValidationError
      else validate_ids (if py_strip s \<in> set acc then acc else acc @ [py_strip s]) xs)"
| "validate_ids acc (_ # xs) = Inl PersistentValidationError"

definition validate_id_list :: "pyval \<Rightarrow> string list res" where
  "validate_id_list v = (case v of PList xs \<Rightarrow> validate_ids [] xs | _ \<Rightarrow> Inl PersistentValidationError)"

text \<open>The pairing rule of \<open>__post_init__\<close>: manual needs a pinned profile, auto forbids one.\<close>

definition validate_manual :: "selection_mode \<Rightarrow> pyval \<Rightarrow> string option res" where
  "validate_manual mode v = (case mode of
       SelManual \<Rightarrow>
         (case v of
            PStr s \<Rightarrow> if py_strip s = [] then Inl PersistentValidationError else Inr (Some (py_strip s))
          | _ \<Rightarrow> Inl PersistentValidationError)
     | SelAuto \<Rightarrow> if v = PNone then Inr None else Inl PersistentValidationError)"

definition NodeGroup_init ::
  "string \<Rightarrow> pyval \<Rightarrow> pyval \<Rightarrow> pyval \<Rightarrow> pyval \<Rightarrow> string \<Rightarrow> string \<Rightarrow> pyval \<Rightarrow> node_group res" where
  "NodeGroup_init name enabled mprof mprov excl policy mode manual =
     res_bind (validate_name name) (\<lambda>n.
     res_bind (strict_bool enabled) (\<lambda>en.
     res_bind (validate_id_list mprof) (\<lambda>ps.
     res_bind (validate_id_list mprov) (\<lambda>vs.
     res_bind (validate_id_list excl) (\<lambda>xs.
     res_bind (policy_of policy) (\<lambda>pol.
     res_bind (mode_of mode) (\<lambda>md.
     res_bind (validate_manual md manual) (\<lambda>man.
     res_bind (res_guard (list_all (\<lambda>p. p \<notin> set xs) ps) PersistentValidationError) (\<lambda>_.
       Inr \<lparr>ng_name = n, ng_enabled = en, ng_member_profile_ids = ps, ng_member_provider_ids = vs,
            ng_exclude_profile_ids = xs, ng_resilience_policy = pol, ng_selection_mode = md,
            ng_manual_profile_id = man\<rparr>)))))))))"

definition opt_str :: "string option \<Rightarrow> pyval" where
  "opt_str s = (case s of None \<Rightarrow> PNone | Some x \<Rightarrow> PStr x)"

definition NodeGroup_to_dict :: "node_group \<Rightarrow> dict" where
  "NodeGroup_to_dict g =
     [(''name'', PStr (ng_name g)),
      (''enabled'', PBool (ng_enabled g)),
      (''member_profile_ids'', PList (map PStr (ng_member_profile_ids g))),
      (''member_provider_ids'', PList (map PStr (ng_member_provider_ids g))),
      (''exclude_profile_ids'', PList (map PStr (ng_exclude_profile_ids g))),
      (''resilience_policy'', PStr (policy_value (ng_resilience_policy g))),
      (''selection_mode'', PStr (mode_value (ng_selection_mode g))),
      (''manual_profile_id'', opt_str (ng_manual_profile_id g))]"

definition NodeGroup_from_dict :: "(pyval \<Rightarrow> string) \<Rightarrow> dict \<Rightarrow> node_group res" where
  "NodeGroup_from_dict rp data =
     res_bind (reject_unknown_keys data NODE_GROUP_FIELDS) (\<lambda>_.
     res_bind (dict_item data ''name'') (\<lambda>n.
     res_bind (strict_bool (dict_get data ''enabled'' (PBool True))) (\<lambda>en.
       NodeGroup_init (py_str rp n) (PBool en)
         (dict_get data ''member_profile_ids'' (PList []))
         (dict_get data ''member_provider_ids'' (PList []))
         (dict_get data ''exclude_profile_ids'' (PList []))
         (py_str rp (dict_get data ''resilience_policy'' (PStr ''preferred'')))
         (py_str rp (dict_get data ''selection_mode'' (PStr ''auto'')))
         (dict_get data ''manual_profile_id'' PNone))))"


section \<open>Store\<close>

definition NodeGroupStore_replace ::
  "(pyval \<Rightarrow> string) \<Rightarrow> dict list \<Rightarrow> node_group \<Rightarrow> (json_file \<times> node_group) res" where
  "NodeGroupStore_replace rp items grp =
     res_bind (NodeGroup_from_dict rp (NodeGroup_to_dict grp)) (\<lambda>validated.
       Inr (save_array (filter (\<lambda>e. \<not> entry_is ''name'' (ng_name validated) e) items
              @ [NodeGroup_to_dict validated]), validated))"

definition NodeGroupStore_add :: "(pyval \<Rightarrow> string) \<Rightarrow> json_file \<Rightarrow> node_group \<Rightarrow> json_file res" where
  "NodeGroupStore_add rp f grp =
     res_bind (load_array f) (\<lambda>items.
     res_bind (NodeGroup_from_dict rp (NodeGroup_to_dict grp)) (\<lambda>validated.
       Inr (save_array (filter (\<lambda>e. \<not> entry_is ''name'' (ng_name validated) e) items
              @ [NodeGroup_to_dict validated]))))"

definition NodeGroupStore_update :: "(pyval \<Rightarrow> string) \<Rightarrow> json_file \<Rightarrow> node_group \<Rightarrow> json_file res" where
  "NodeGroupStore_update rp f grp = NodeGroupStore_add rp f grp"

definition NodeGroupStore_get :: "(pyval \<Rightarrow> string) \<Rightarrow> json_file \<Rightarrow> string \<Rightarrow> node_group option res" where
  "NodeGroupStore_get rp f name = array_get (NodeGroup_from_dict rp) ''name'' f name"

definition NodeGroupStore_list :: "(pyval \<Rightarrow> string) \<Rightarrow> json_file \<Rightarrow> node_group list res" where
  "NodeGroupStore_list rp f = array_list (NodeGroup_from_dict rp) f"

definition NodeGroupStore_remove :: "json_file \<Rightarrow> string \<Rightarrow> json_file res" where
  "NodeGroupStore_remove f name = array_del ''name'' f name"

definition require_group :: "(pyval \<Rightarrow> string) \<Rightarrow> dict list \<Rightarrow> string \<Rightarrow> node_group res" where
  "require_group rp items name = (case find (entry_is ''name'' name) items of
       Some d \<Rightarrow> NodeGroup_from_dict rp d
     | None \<Rightarrow> Inl NodeGroupStoreError)"

text \<open>The common body of the mutators: load, require the group, change the object, replace.\<close>

definition NodeGroupStore_mutate ::
  "(pyval \<Rightarrow> string) \<Rightarrow> json_file \<Rightarrow> string \<Rightarrow> (node_group \<Rightarrow> node_group) \<Rightarrow> (json_file \<times> node_group) res" where
  "NodeGroupStore_mutate rp f name change =
     res_bind (load_array f) (\<lambda>items.
     res_bind (require_group rp items name) (\<lambda>grp.
       NodeGroupStore_replace rp items (change grp)))"

definition append_new :: "'a list \<Rightarrow> 'a \<Rightarrow> 'a list" where
  "append_new xs x = (if x \<in> set xs then xs else xs @ [x])"

definition without :: "'a list \<Rightarrow> 'a \<Rightarrow> 'a list" where
  "without xs x = filter (\<lambda>y. y \<noteq> x) xs"

definition add_member_profile where
  "add_member_profile rp f name pid = NodeGroupStore_mutate rp f name
     (\<lambda>g. g\<lparr>ng_member_profile_ids := append_new (ng_member_profile_ids g) pid\<rparr>)"

definition remove_member_profile where
  "remove_member_profile rp f name pid = NodeGroupStore_mutate rp f name
     (\<lambda>g. g\<lparr>ng_member_profile_ids := without (ng_member_profile_ids g) pid\<rparr>)"

definition set_selection where
  "set_selection rp f name mode pid = NodeGroupStore_mutate rp f name
     (\<lambda>g. g\<lparr>ng_selection_mode := mode, ng_manual_profile_id := pid\<rparr>)"

definition add_member_provider where
  "add_member_provider rp f name pid = NodeGroupStore_mutate rp f name
     (\<lambda>g. g\<lparr>ng_member_provider_ids := append_new (ng_member_provider_ids g) pid\<rparr>)"

definition remove_member_provider where
  "remove_member_provider rp f name pid = NodeGroupStore_mutate rp f name
     (\<lambda>g. g\<lparr>ng_member_provider_ids := without (ng_member_provider_ids g) pid\<rparr>)"

definition add_exclude_profile where
  "add_exclude_profile rp f name pid = NodeGroupStore_mutate rp f name
     (\<lambda>g. g\<lparr>ng_exclude_profile_ids := append_new (ng_exclude_profile_ids g) pid\<rparr>)"

definition remove_exclude_profile where
  "remove_exclude_profile rp f name pid = NodeGroupStore_mutate rp f name
     (\<lambda>g. g\<lparr>ng_exclude_profile_ids := without (ng_exclude_profile_ids g) pid\<rparr>)"

definition set_resilience_policy where
  "set_resilience_policy rp f name policy = NodeGroupStore_mutate rp f name
     (\<lambda>g. g\<lparr>ng_resilience_policy := policy\<rparr>)"

definition set_enabled where
  "set_enabled rp f name en = NodeGroupStore_mutate rp f name (\<lambda>g. g\<lparr>ng_enabled := en\<rparr>)"


section \<open>Well-formed groups\<close>

definition id_ok :: "string \<Rightarrow> bool" where
  "id_ok s \<longleftrightarrow> s \<noteq> [] \<and> py_strip s = s"

definition ids_ok :: "string list \<Rightarrow> bool" where
  "ids_ok xs \<longleftrightarrow> distinct xs \<and> list_all id_ok xs"

definition manual_ok :: "selection_mode \<Rightarrow> string option \<Rightarrow> bool" where
  "manual_ok mode man = (case mode of
       SelManual \<Rightarrow> (case man of None \<Rightarrow> False | Some i \<Rightarrow> id_ok i)
     | SelAuto \<Rightarrow> man = None)"

definition node_group_valid :: "node_group \<Rightarrow> bool" where
  "node_group_valid g \<longleftrightarrow>
     is_slug (ng_name g) \<and>
     ids_ok (ng_member_profile_ids g) \<and> ids_ok (ng_member_provider_ids g) \<and>
     ids_ok (ng_exclude_profile_ids g) \<and>
     set (ng_member_profile_ids g) \<inter> set (ng_exclude_profile_ids g) = {} \<and>
     manual_ok (ng_selection_mode g) (ng_manual_profile_id g)"

lemma policy_of_value [simp]: "policy_of (policy_value p) = Inr p"
  by (cases p) (simp_all add: policy_of_def)

lemma mode_of_value [simp]: "mode_of (mode_value m) = Inr m"
  by (cases m) (simp_all add: mode_of_def)

lemma validate_ids_ok:
  "validate_ids acc xs = Inr ys \<Longrightarrow> ids_ok acc \<Longrightarrow> ids_ok ys"
  by (induction acc xs rule: validate_ids.induct)
    (auto simp: ids_ok_def id_ok_def split: if_splits)

lemma validate_ids_id:
  "ids_ok (acc @ xs) \<Longrightarrow> validate_ids acc (map PStr xs) = Inr (acc @ xs)"
  by (induction xs arbitrary: acc) (auto simp: ids_ok_def id_ok_def)

lemma validate_id_list_ok: "validate_id_list v = Inr ys \<Longrightarrow> ids_ok ys"
  by (cases v) (auto simp: validate_id_list_def ids_ok_def dest: validate_ids_ok)

lemma validate_id_list_id [simp]: "ids_ok xs \<Longrightarrow> validate_id_list (PList (map PStr xs)) = Inr xs"
  using validate_ids_id[of "[]" xs] by (simp add: validate_id_list_def)

lemma validate_manual_ok:
  "validate_manual md v = Inr man \<Longrightarrow> manual_ok md man"
  by (auto simp: validate_manual_def manual_ok_def id_ok_def split: selection_mode.splits pyval.splits if_splits)

lemma validate_name_ok: "validate_name s = Inr n \<Longrightarrow> is_slug n \<and> n = py_strip s"
  by (auto simp: validate_name_def Let_def)

lemma NodeGroup_init_valid:
  "NodeGroup_init n en ps vs xs pol md man = Inr g \<Longrightarrow> node_group_valid g"
  by (auto simp: NodeGroup_init_def node_group_valid_def list_all_iff
      dest: validate_name_ok validate_id_list_ok validate_manual_ok)

lemma NodeGroup_from_dict_valid: "NodeGroup_from_dict rp d = Inr g \<Longrightarrow> node_group_valid g"
  by (auto simp: NodeGroup_from_dict_def dest: NodeGroup_init_valid)

lemma NodeGroup_from_to_dict:
  assumes "node_group_valid g"
  shows "NodeGroup_from_dict rp (NodeGroup_to_dict g) = Inr g"
proof -
  have keys: "reject_unknown_keys (NodeGroup_to_dict g) NODE_GROUP_FIELDS = Inr ()"
    by (rule reject_unknown_keys_ok) (simp add: NodeGroup_to_dict_def NODE_GROUP_FIELDS_def)
  have man: "validate_manual (ng_selection_mode g) (opt_str (ng_manual_profile_id g)) = Inr (ng_manual_profile_id g)"
    using assms
    by (auto simp: node_group_valid_def manual_ok_def validate_manual_def opt_str_def id_ok_def
        split: selection_mode.splits option.splits)
  have nm: "validate_name (ng_name g) = Inr (ng_name g)"
    using assms by (simp add: node_group_valid_def validate_name_def Let_def)
  have ids: "ids_ok (ng_member_profile_ids g)" "ids_ok (ng_member_provider_ids g)"
      "ids_ok (ng_exclude_profile_ids g)"
      "list_all (\<lambda>p. p \<notin> set (ng_exclude_profile_ids g)) (ng_member_profile_ids g)"
    using assms by (auto simp: node_group_valid_def list_all_iff)
  show ?thesis
    unfolding NodeGroup_from_dict_def keys
    by (simp add: NodeGroup_to_dict_def dict_get_def dict_item_def NodeGroup_init_def man nm ids)
qed

definition node_group_store_inv :: "(pyval \<Rightarrow> string) \<Rightarrow> json_file \<Rightarrow> bool" where
  "node_group_store_inv rp = array_inv NodeGroup_to_dict (NodeGroup_from_dict rp) ng_name node_group_valid"

interpretation node_group_codec: object_codec NodeGroup_to_dict "NodeGroup_from_dict rp" "''name''" ng_name
  node_group_valid for rp
proof
  show "node_group_valid x \<Longrightarrow> NodeGroup_from_dict rp (NodeGroup_to_dict x) = Inr x" for x
    by (rule NodeGroup_from_to_dict)
  show "map_of (NodeGroup_to_dict x) ''name'' = Some (PStr (ng_name x))" for x
    by (simp add: NodeGroup_to_dict_def)
qed

lemma NodeGroupStore_add_array:
  "node_group_valid g \<Longrightarrow>
     NodeGroupStore_add rp f g = array_put ''name'' f (ng_name g) (NodeGroup_to_dict g)"
  by (simp add: NodeGroupStore_add_def array_put_def NodeGroup_from_to_dict)

interpretation node_group_store: keyed_store "NodeGroupStore_list rp" "NodeGroupStore_get rp"
  "NodeGroupStore_add rp" NodeGroupStore_remove ng_name node_group_valid "\<lambda>f g. True"
  "node_group_store_inv rp" "array_contents (NodeGroup_from_dict rp)" for rp
proof
  fix f assume "node_group_store_inv rp f"
  then have a: "node_group_codec.ainv rp f" by (simp add: node_group_store_inv_def)
  note defs = NodeGroupStore_list_def NodeGroupStore_get_def NodeGroupStore_remove_def
    node_group_store_inv_def
  show "distinct (map ng_name (array_contents (NodeGroup_from_dict rp) f))"
    using a by (rule node_group_codec.distinct_contents)
  show "NodeGroupStore_list rp f = Inr (array_contents (NodeGroup_from_dict rp) f)"
    using node_group_codec.all_contents[OF a] by (simp add: defs)
  show "NodeGroupStore_get rp f k = Inr (lookup_key ng_name (array_contents (NodeGroup_from_dict rp) f) k)" for k
    using node_group_codec.get_contents[OF a] by (simp add: defs)
  show "is_ok (NodeGroupStore_add rp f g)" if "node_group_valid g" for g
    using node_group_codec.put_admitted[OF a that] that by (simp add: NodeGroupStore_add_array)
  show "is_ok (NodeGroupStore_remove f k)" for k
    using node_group_codec.del_total[OF a] by (simp add: defs)
  show "node_group_store_inv rp f' \<and> array_contents (NodeGroup_from_dict rp) f' =
      filter (\<lambda>y. ng_name y \<noteq> ng_name g) (array_contents (NodeGroup_from_dict rp) f) @ [g]"
    if "node_group_valid g" and "NodeGroupStore_add rp f g = Inr f'" for g f'
    using node_group_codec.put_contents[OF a that(1)] that by (simp add: defs NodeGroupStore_add_array)
  show "node_group_store_inv rp f' \<and> array_contents (NodeGroup_from_dict rp) f' =
      filter (\<lambda>y. ng_name y \<noteq> k) (array_contents (NodeGroup_from_dict rp) f)"
    if "NodeGroupStore_remove f k = Inr f'" for k f'
    using node_group_codec.del_contents[OF a, of k f'] that by (simp add: defs)
qed

lemma node_group_store_inv_missing: "node_group_store_inv rp FMissing"
  unfolding node_group_store_inv_def by (rule node_group_codec.inv_missing)

text \<open>Every mutator is a validated change of the one group it names.\<close>

lemma mutate_contents:
  assumes inv: "node_group_store_inv rp f"
    and run: "NodeGroupStore_mutate rp f name change = Inr (f', g')"
    and keeps: "\<And>g. ng_name (change g) = ng_name g"
  shows "\<exists>g. lookup_key ng_name (array_contents (NodeGroup_from_dict rp) f) name = Some g \<and>
      NodeGroup_from_dict rp (NodeGroup_to_dict (change g)) = Inr g' \<and> ng_name g' = name \<and>
      node_group_valid g' \<and> node_group_store_inv rp f' \<and>
      array_contents (NodeGroup_from_dict rp) f' =
        filter (\<lambda>y. ng_name y \<noteq> name) (array_contents (NodeGroup_from_dict rp) f) @ [g']"
proof -
  define xs where "xs = array_contents (NodeGroup_from_dict rp) f"
  have a: "node_group_codec.ainv rp f" using inv by (simp add: node_group_store_inv_def)
  have l: "load_array f = Inr (map NodeGroup_to_dict xs)" "list_all node_group_valid xs"
    using node_group_codec.inv_load[OF a] by (simp_all add: xs_def)
  from run l(1) obtain g where g: "lookup_key ng_name xs name = Some g"
      and rep: "NodeGroupStore_replace rp (map NodeGroup_to_dict xs) (change g) = Inr (f', g')"
    using NodeGroup_from_to_dict l(2)
    by (auto simp: NodeGroupStore_mutate_def require_group_def node_group_codec.find_enc list_all_iff
        lookup_key_def dest: find_Some_in split: option.splits)
  have name: "ng_name g = name" using g by (auto simp: lookup_key_def dest: find_Some_in)
  from rep have v: "NodeGroup_from_dict rp (NodeGroup_to_dict (change g)) = Inr g'"
    and f': "f' = save_array (filter (\<lambda>e. \<not> entry_is ''name'' (ng_name g') e) (map NodeGroup_to_dict xs)
              @ [NodeGroup_to_dict g'])"
    by (auto simp: NodeGroupStore_replace_def)
  have valid: "node_group_valid g'" by (rule NodeGroup_from_dict_valid[OF v])
  have "ng_name g' = py_strip (ng_name (change g))"
    using v by (auto simp: NodeGroup_from_dict_def NodeGroup_init_def NodeGroup_to_dict_def
        dict_get_def dict_item_def dest: validate_name_ok)
  moreover have "is_slug (ng_name g)"
    using g l(2) by (auto simp: lookup_key_def list_all_iff node_group_valid_def dest: find_Some_in)
  ultimately have name': "ng_name g' = name" using keeps name by simp
  have "NodeGroupStore_add rp f g' = Inr f'"
    using l(1) f' by (simp add: NodeGroupStore_add_def NodeGroup_from_to_dict[OF valid])
  from node_group_store.put_contents[OF inv valid this] g v name' valid show ?thesis
    by (auto simp: xs_def)
qed

section \<open>Properties\<close>

definition sample_group :: node_group where
  "sample_group =
     \<lparr>ng_name = ''home'', ng_enabled = True, ng_member_profile_ids = [''a'', ''b''],
      ng_member_provider_ids = [], ng_exclude_profile_ids = [''c''],
      ng_resilience_policy = PREFERRED, ng_selection_mode = SelAuto, ng_manual_profile_id = None\<rparr>"

lemma sample_group_valid [simp]: "node_group_valid sample_group"
  by code_simp

text \<open>
  C0. \<open>NodeGroup.from_dict\<close> is a validator and a normaliser. What it accepts is well formed (a slug as name,
  trimmed and distinct ids, no profile both member and excluded, a manual choice exactly in manual mode), and
  such a group written by \<open>to_dict\<close> is read back unchanged.
\<close>

theorem node_group_codec_sound:
  assumes "NodeGroup_from_dict rp d = Inr g"
  shows "node_group_valid g \<and> NodeGroup_from_dict rp (NodeGroup_to_dict g) = Inr g"
  using NodeGroup_from_dict_valid[OF assms] NodeGroup_from_to_dict by blast

theorem node_group_codec_sound_witness:
  "node_group_valid sample_group \<and>
   NodeGroup_from_dict (\<lambda>v. []) (NodeGroup_to_dict sample_group) = Inr sample_group"
  by (rule node_group_codec_sound[OF NodeGroup_from_to_dict[OF sample_group_valid]])

text \<open>The nine mutators of the store, applied to one group.\<close>

definition all_mutators where
  "all_mutators rp f name i mode man pol en =
     [add_member_profile rp f name i, remove_member_profile rp f name i, set_selection rp f name mode man,
      add_member_provider rp f name i, remove_member_provider rp f name i, add_exclude_profile rp f name i,
      remove_exclude_profile rp f name i, set_resilience_policy rp f name pol, set_enabled rp f name en]"

lemmas mutator_defs = add_member_profile_def remove_member_profile_def set_selection_def
  add_member_provider_def remove_member_provider_def add_exclude_profile_def remove_exclude_profile_def
  set_resilience_policy_def set_enabled_def

lemma mutators_mutate:
  assumes "m \<in> set (all_mutators rp f name i mode man pol en)"
  obtains change where "m = NodeGroupStore_mutate rp f name change" and "\<And>g. ng_name (change g) = ng_name g"
  using assms unfolding all_mutators_def mutator_defs by fastforce

text \<open>
  C27. Every mutator of the node-group store changes the named group only. If it succeeds, the group existed,
  the stored result is the returned, well-formed group, every other group is untouched and the file stays
  well formed.
\<close>

theorem node_group_mutators_frame:
  assumes "node_group_store_inv rp f" and "m \<in> set (all_mutators rp f name i mode man pol en)"
    and "m = Inr (f', g')"
  shows "node_group_store_inv rp f' \<and> node_group_valid g' \<and>
    NodeGroupStore_get rp f name \<noteq> Inr None \<and>
    NodeGroupStore_get rp f' k = (if k = name then Inr (Some g') else NodeGroupStore_get rp f k)"
proof -
  obtain change where c: "NodeGroupStore_mutate rp f name change = Inr (f', g')"
    "\<And>g. ng_name (change g) = ng_name g"
    using assms(2,3) by (metis mutators_mutate)
  obtain g where g: "lookup_key ng_name (array_contents (NodeGroup_from_dict rp) f) name = Some g"
    "ng_name g' = name" "node_group_valid g'" "node_group_store_inv rp f'"
    "array_contents (NodeGroup_from_dict rp) f' =
       filter (\<lambda>y. ng_name y \<noteq> name) (array_contents (NodeGroup_from_dict rp) f) @ [g']"
    using mutate_contents[OF assms(1) c] by blast
  have "lookup_key ng_name (array_contents (NodeGroup_from_dict rp) f') =
      (lookup_key ng_name (array_contents (NodeGroup_from_dict rp) f))(name \<mapsto> g')"
    using lookup_key_put[of ng_name g' "array_contents (NodeGroup_from_dict rp) f"] g(2,5) by simp
  then show ?thesis
    using g node_group_store.get_contents[OF assms(1)] node_group_store.get_contents[OF g(4)] by simp
qed

lemma sample_mutation:
  "\<exists>f' g'. set_enabled (\<lambda>v. []) (save_array [NodeGroup_to_dict sample_group]) ''home'' False = Inr (f', g')"
proof -
  have "node_group_valid (sample_group\<lparr>ng_enabled := False\<rparr>)" by code_simp
  note v = NodeGroup_from_to_dict[OF this] NodeGroup_from_to_dict[OF sample_group_valid]
  have "ng_name sample_group = ''home''" by (simp add: sample_group_def)
  then show ?thesis
    by (simp add: set_enabled_def NodeGroupStore_mutate_def require_group_def NodeGroupStore_replace_def v)
qed

theorem node_group_mutators_frame_witness:
  "\<exists>f' g'. set_enabled (\<lambda>v. []) (save_array [NodeGroup_to_dict sample_group]) ''home'' False = Inr (f', g') \<and>
     NodeGroupStore_get (\<lambda>v. []) f' ''home'' = Inr (Some g') \<and> node_group_valid g'"
proof -
  have inv: "node_group_store_inv (\<lambda>v. []) (save_array [NodeGroup_to_dict sample_group])"
    using node_group_codec.inv_save[of "[sample_group]" "\<lambda>v. []"] by (simp add: node_group_store_inv_def)
  obtain f' g' where r: "set_enabled (\<lambda>v. []) (save_array [NodeGroup_to_dict sample_group]) ''home'' False = Inr (f', g')"
    using sample_mutation by blast
  show ?thesis
    using r node_group_mutators_frame[OF inv, of "Inr (f', g')" "''home''" "''x''" SelAuto None PREFERRED False f' g' "''home''"]
    by (simp add: all_mutators_def)
qed

end
