(* ===== verification/Candidate_Selection.thy ===== *)
theory Candidate_Selection
  imports Node_Groups "HOL-Library.Product_Lexorder" "HOL-Library.List_Lexorder" "HOL-Library.Char_ord"
  "HOL-Library.Multiset"
begin

text \<open>
  \<open>src/rotation/pool_builder.py\<close>, \<open>src/node_groups/resolver.py\<close> and \<open>src/node_groups/scoring.py\<close>: which
  profiles may be used, and which one is chosen. The clock is read once per pass (\<open>now\<close>, in
  microseconds UTC). Python iterates a set in an unspecified order; the model takes that order
  from the parameter \<open>perm\<close>.

  Strings compare by code points and tuples lexicographically, as the library's orders on lists and
  products. Floats are ordered with \<open>-inf\<close> first and \<open>inf\<close> last; a NaN latency, for which Python's
  comparisons are not an order, is placed after \<open>inf\<close>.
\<close>

section \<open>Order on floats\<close>

fun float_key :: "pyfloat \<Rightarrow> nat \<times> real" where
  "float_key FNegInf = (0, 0)"
| "float_key (FFin x) = (1, x)"
| "float_key FPosInf = (2, 0)"
| "float_key FNaN = (3, 0)"

lemma float_key_inj: "float_key a = float_key b \<Longrightarrow> a = b"
  by (cases a; cases b) simp_all

instantiation pyfloat :: linorder
begin

definition less_eq_pyfloat :: "pyfloat \<Rightarrow> pyfloat \<Rightarrow> bool" where
  "less_eq_pyfloat a b \<longleftrightarrow> float_key a \<le> float_key b"

definition less_pyfloat :: "pyfloat \<Rightarrow> pyfloat \<Rightarrow> bool" where
  "less_pyfloat a b \<longleftrightarrow> float_key a < float_key b"

instance
  by standard (auto simp: less_eq_pyfloat_def less_pyfloat_def intro: float_key_inj)

end


section \<open>Eligibility\<close>

record pool_config =
  rc_health_status_cooldown_seconds :: real
  rc_latency_max_stale_seconds :: real

definition origin_enabled :: "py_env \<Rightarrow> json_file \<Rightarrow> profile \<Rightarrow> bool res" where
  "origin_enabled E provs p =
     (if p_source p = SrcSubscription then
        res_bind (if py_truthy (p_provider_id p)
                  then array_find (provider_from_dict E) ''id'' provs (p_provider_id p)
                  else Inr None)
          (\<lambda>v. Inr (case v of None \<Rightarrow> False | Some q \<Rightarrow> pv_rotation_enabled q))
      else Inr True)"

fun as_utc :: "datetime \<Rightarrow> int" where
  "as_utc (Aware t) = t"
| "as_utc (Naive t) = t"

definition seconds :: "int \<Rightarrow> real" where
  "seconds us = real_of_int us / 1000000"

definition recently_failed :: "int \<Rightarrow> real \<Rightarrow> profile \<Rightarrow> bool" where
  "recently_failed now cooldown p =
     (if p_health_status p \<noteq> ''down'' then False
      else case p_last_health_check p of
          None \<Rightarrow> False
        | Some t \<Rightarrow> if as_utc t > now then False else seconds (now - as_utc t) < cooldown)"

fun filter_eligible_profiles ::
  "py_env \<Rightarrow> int \<Rightarrow> pool_config \<Rightarrow> json_file \<Rightarrow> profile list \<Rightarrow> profile list res" where
  "filter_eligible_profiles E now cfg provs [] = Inr []"
| "filter_eligible_profiles E now cfg provs (p # ps) =
     res_bind (origin_enabled E provs p) (\<lambda>ok.
     res_bind (filter_eligible_profiles E now cfg provs ps) (\<lambda>rest.
       if \<not> ok then Inr rest
       else if \<not> p_enabled p then Inr rest
       else if recently_failed now (rc_health_status_cooldown_seconds cfg) p then Inr rest
       else Inr (p # rest)))"

definition build_pool :: "py_env \<Rightarrow> int \<Rightarrow> pool_config \<Rightarrow> json_file \<Rightarrow> json_file \<Rightarrow> profile list res" where
  "build_pool E now cfg profs provs =
     res_bind (ProfileStore_list E profs) (\<lambda>ps.
       filter_eligible_profiles E now cfg provs (filter p_in_rotation_pool ps))"

definition resolve_membership ::
  "(string list \<Rightarrow> string list) \<Rightarrow> node_group \<Rightarrow> profile list \<Rightarrow> profile list" where
  "resolve_membership perm g profiles =
     (let included = remdups (ng_member_profile_ids g @
            map p_id (filter (\<lambda>p. p_provider_id p \<in> set (map PStr (ng_member_provider_ids g))) profiles));
          included' = filter (\<lambda>i. i \<notin> set (ng_exclude_profile_ids g)) included;
          by_id = map_of (rev (map (\<lambda>p. (p_id p, p)) profiles))
      in List.map_filter by_id (perm included'))"

definition resilient_only :: "profile list \<Rightarrow> profile list res" where
  "resilient_only ps =
     res_bind (res_map profile_resilience_category ps) (\<lambda>cs.
       Inr (map fst (filter (\<lambda>pc. snd pc = RESILIENT) (zip ps cs))))"

definition resolve_candidates ::
  "py_env \<Rightarrow> (string list \<Rightarrow> string list) \<Rightarrow> int \<Rightarrow> pool_config \<Rightarrow> node_group \<Rightarrow> json_file \<Rightarrow> json_file
     \<Rightarrow> profile list res" where
  "resolve_candidates E perm now cfg g profs provs =
     res_bind (ProfileStore_list E profs) (\<lambda>profiles.
     res_bind (filter_eligible_profiles E now cfg provs (resolve_membership perm g profiles)) (\<lambda>eligible.
       if ng_resilience_policy g = RESILIENT_ONLY then resilient_only eligible else Inr eligible))"


section \<open>Scoring\<close>

definition resilience_score :: "resilience_policy \<Rightarrow> profile \<Rightarrow> real res" where
  "resilience_score policy p =
     (if policy \<noteq> PREFERRED then Inr 0
      else res_bind (profile_resilience_category p) (\<lambda>c. Inr (if c = RESILIENT then 1 else 0)))"

definition fresh_latency_ms :: "int \<Rightarrow> pool_config \<Rightarrow> profile \<Rightarrow> pyfloat option" where
  "fresh_latency_ms now cfg p =
     (case (p_latency_ms p, p_last_latency_check p) of
        (Some l, Some t) \<Rightarrow>
          (if as_utc t > now then None
           else if seconds (now - as_utc t) \<ge> rc_latency_max_stale_seconds cfg then None
           else Some l)
      | _ \<Rightarrow> None)"

record candidate_score =
  cs_profile_id :: string
  cs_resilience_score :: real
  cs_latency_score :: "pyfloat option"
  cs_health_score :: "real option"
  cs_total :: real

definition score_candidate :: "int \<Rightarrow> pool_config \<Rightarrow> resilience_policy \<Rightarrow> profile \<Rightarrow> candidate_score res" where
  "score_candidate now cfg policy p =
     res_bind (resilience_score policy p) (\<lambda>r.
       let health = None in
       Inr \<lparr>cs_profile_id = p_id p, cs_resilience_score = r,
            cs_latency_score = fresh_latency_ms now cfg p, cs_health_score = health,
            cs_total = r + (case health of None \<Rightarrow> 0 | Some h \<Rightarrow> h)\<rparr>)"

definition score_candidates ::
  "int \<Rightarrow> pool_config \<Rightarrow> resilience_policy \<Rightarrow> profile list \<Rightarrow> candidate_score list res" where
  "score_candidates now cfg policy ps = res_map (score_candidate now cfg policy) ps"

definition latency_rank :: "candidate_score \<Rightarrow> pyfloat" where
  "latency_rank s = (case cs_latency_score s of None \<Rightarrow> FPosInf | Some l \<Rightarrow> l)"

definition rank_key :: "candidate_score \<Rightarrow> real \<times> pyfloat \<times> string" where
  "rank_key s = (- cs_total s, latency_rank s, cs_profile_id s)"

definition rank_candidates ::
  "int \<Rightarrow> pool_config \<Rightarrow> resilience_policy \<Rightarrow> profile list \<Rightarrow> candidate_score list res" where
  "rank_candidates now cfg policy ps =
     res_bind (score_candidates now cfg policy ps) (\<lambda>scores. Inr (sort_key rank_key scores))"

datatype selection_result = SELECTED | UNAVAILABLE

record selection_explanation =
  se_group_name :: string
  se_result :: selection_result
  se_selected_profile_id :: "string option"
  se_candidates :: "candidate_score list"
  se_decided_by :: "string option"

definition decided_by :: "candidate_score list \<Rightarrow> string" where
  "decided_by ranked =
     (if length ranked = 1 then ''only_candidate''
      else if cs_total (ranked ! 0) \<noteq> cs_total (ranked ! 1) then ''resilience_score''
      else if latency_rank (ranked ! 0) \<noteq> latency_rank (ranked ! 1) then ''latency_tie_break''
      else ''tie_break_by_id'')"

definition select_best ::
  "int \<Rightarrow> pool_config \<Rightarrow> node_group \<Rightarrow> profile list \<Rightarrow> (profile option \<times> selection_explanation) res" where
  "select_best now cfg g candidates =
     res_bind (rank_candidates now cfg (ng_resilience_policy g) candidates) (\<lambda>ranked.
       case ranked of
         [] \<Rightarrow> Inr (None, \<lparr>se_group_name = ng_name g, se_result = UNAVAILABLE,
                 se_selected_profile_id = None, se_candidates = [], se_decided_by = None\<rparr>)
       | winner # _ \<Rightarrow>
           (case map_of (rev (map (\<lambda>p. (p_id p, p)) candidates)) (cs_profile_id winner) of
              None \<Rightarrow> Inl KeyError
            | Some p \<Rightarrow>
                Inr (Some p, \<lparr>se_group_name = ng_name g, se_result = SELECTED,
                  se_selected_profile_id = Some (cs_profile_id winner), se_candidates = ranked,
                  se_decided_by = Some (decided_by ranked)\<rparr>)))"


section \<open>Eligible sets\<close>

definition is_resilient :: "profile \<Rightarrow> bool" where
  "is_resilient p \<longleftrightarrow> profile_resilience_category p = Inr RESILIENT"

definition eligible :: "py_env \<Rightarrow> int \<Rightarrow> pool_config \<Rightarrow> json_file \<Rightarrow> profile \<Rightarrow> bool" where
  "eligible E now cfg provs p \<longleftrightarrow>
     origin_enabled E provs p = Inr True \<and> p_enabled p \<and>
     \<not> recently_failed now (rc_health_status_cooldown_seconds cfg) p"

definition in_scope :: "node_group \<Rightarrow> profile \<Rightarrow> bool" where
  "in_scope g p \<longleftrightarrow>
     (p_id p \<in> set (ng_member_profile_ids g) \<or>
      (\<exists>v \<in> set (ng_member_provider_ids g). p_provider_id p = PStr v)) \<and>
     p_id p \<notin> set (ng_exclude_profile_ids g)"

text \<open>The order in which a Python set of strings is iterated: any enumeration without repetition.\<close>

definition set_order :: "(string list \<Rightarrow> string list) \<Rightarrow> bool" where
  "set_order perm \<longleftrightarrow> (\<forall>xs. distinct xs \<longrightarrow> distinct (perm xs) \<and> set (perm xs) = set xs)"

lemma origin_enabled_total:
  "provider_store_inv E provs \<Longrightarrow> \<exists>b. origin_enabled E provs p = Inr b"
  by (auto simp: origin_enabled_def provider_store_inv_def provider_codec.array_find_inv)

lemma filter_eligible_filter:
  "provider_store_inv E provs \<Longrightarrow>
     filter_eligible_profiles E now cfg provs ps = Inr (filter (eligible E now cfg provs) ps)"
proof (induction ps)
  case (Cons p ps)
  obtain b where "origin_enabled E provs p = Inr b" using origin_enabled_total[OF Cons.prems] by blast
  with Cons.IH[OF Cons.prems] show ?case by (simp add: eligible_def)
qed simp

lemma resilient_only_filter: "resilient_only ps = Inr (filter is_resilient ps)"
proof -
  obtain c where c: "\<And>p. profile_resilience_category p = Inr (c p)"
    using resilience_category_total by metis
  have "res_map profile_resilience_category ps = Inr (map c ps)" for ps
    by (induction ps) (simp_all add: c)
  moreover have "map fst (filter (\<lambda>pc. snd pc = RESILIENT) (zip ps (map c ps))) = filter is_resilient ps" for ps
    by (induction ps) (simp_all add: is_resilient_def c)
  ultimately show ?thesis by (simp add: resilient_only_def)
qed

lemma resolve_membership_set:
  assumes "set_order perm" and "distinct (map p_id profiles)"
  shows "set (resolve_membership perm g profiles) = {p \<in> set profiles. in_scope g p}"
    and "distinct (map p_id (resolve_membership perm g profiles))"
proof -
  define inc where "inc = filter (\<lambda>i. i \<notin> set (ng_exclude_profile_ids g)) (remdups (ng_member_profile_ids g @
    map p_id (filter (\<lambda>p. p_provider_id p \<in> set (map PStr (ng_member_provider_ids g))) profiles)))"
  define look where "look = lookup_key p_id profiles"
  have r: "resolve_membership perm g profiles = List.map_filter look (perm inc)"
    unfolding resolve_membership_def look_def inc_def Let_def
    by (simp add: by_key_lookup[OF assms(2)] map_filter_def)
  have o: "distinct (perm inc)" "set (perm inc) = set inc"
    using assms(1) by (simp_all add: set_order_def inc_def)
  have look: "look i = Some p \<longleftrightarrow> p \<in> set profiles \<and> p_id p = i" for i p
    unfolding look_def by (rule lookup_key_Some[OF assms(2)])
  have mem: "p \<in> set profiles \<Longrightarrow> p_id p \<in> set inc \<longleftrightarrow> in_scope g p" for p
    using assms(2) by (auto simp: inc_def in_scope_def image_iff distinct_map inj_on_def)
  show "set (resolve_membership perm g profiles) = {p \<in> set profiles. in_scope g p}"
  proof -
    have "set (List.map_filter look (perm inc)) = {p. \<exists>i \<in> set inc. look i = Some p}"
      using o(2) by (force simp: map_filter_def)
    also have "\<dots> = {p \<in> set profiles. in_scope g p}" using look mem by auto
    finally show ?thesis by (simp add: r)
  qed
  have id: "look i = Some p \<Longrightarrow> p_id p = i" for i p using look by blast
  have "map p_id (List.map_filter look js) = filter (\<lambda>i. look i \<noteq> None) js" for js
    by (induction js) (auto simp: id split: option.split)
  then show "distinct (map p_id (resolve_membership perm g profiles))"
    using o(1) by (simp add: r)
qed

text \<open>The candidate set of a group, whatever order the set was iterated in.\<close>

lemma resolve_candidates_set:
  assumes "set_order perm" and "profile_store_inv E profs" and "provider_store_inv E provs"
  shows "\<exists>cs. resolve_candidates E perm now cfg g profs provs = Inr cs \<and> distinct (map p_id cs) \<and>
    set cs = {p \<in> set (array_contents (profile_from_dict E) profs).
      in_scope g p \<and> eligible E now cfg provs p \<and>
      (ng_resilience_policy g = RESILIENT_ONLY \<longrightarrow> is_resilient p)}"
proof -
  define ps where "ps = array_contents (profile_from_dict E) profs"
  define ms where "ms = resolve_membership perm g ps"
  have l: "ProfileStore_list E profs = Inr ps" and d: "distinct (map p_id ps)"
    using profile_store.all_contents[OF assms(2)] profile_store.distinct_contents[OF assms(2)]
    by (simp_all add: ps_def)
  have m: "set ms = {p \<in> set ps. in_scope g p}" "distinct (map p_id ms)"
    unfolding ms_def using resolve_membership_set[OF assms(1) d] by simp_all
  define cs where "cs = filter (\<lambda>p. eligible E now cfg provs p \<and>
    (ng_resilience_policy g = RESILIENT_ONLY \<longrightarrow> is_resilient p)) ms"
  have "resolve_candidates E perm now cfg g profs provs = Inr cs"
    by (cases "ng_resilience_policy g = RESILIENT_ONLY")
      (simp_all add: resolve_candidates_def l filter_eligible_filter[OF assms(3)] resilient_only_filter
        ms_def[symmetric] cs_def conj_comms)
  moreover have "distinct (map p_id cs)" using m(2) by (simp add: cs_def distinct_map_filter)
  ultimately show ?thesis using m(1) by (auto simp: cs_def ps_def)
qed


section \<open>Ranking\<close>

definition score_of :: "int \<Rightarrow> pool_config \<Rightarrow> resilience_policy \<Rightarrow> profile \<Rightarrow> candidate_score" where
  "score_of now cfg policy p =
     (let r = (if policy = PREFERRED \<and> is_resilient p then 1 else 0) in
      \<lparr>cs_profile_id = p_id p, cs_resilience_score = r, cs_latency_score = fresh_latency_ms now cfg p,
       cs_health_score = None, cs_total = r\<rparr>)"

lemma score_of_simps [simp]:
  "cs_profile_id (score_of now cfg policy p) = p_id p"
  "cs_total (score_of now cfg policy p) = (if policy = PREFERRED \<and> is_resilient p then 1 else 0)"
  "cs_latency_score (score_of now cfg policy p) = fresh_latency_ms now cfg p"
  by (simp_all add: score_of_def Let_def)

lemma score_candidate_of: "score_candidate now cfg policy p = Inr (score_of now cfg policy p)"
proof -
  obtain c where "profile_resilience_category p = Inr c" using resilience_category_total by metis
  then show ?thesis
    by (simp add: score_candidate_def resilience_score_def score_of_def is_resilient_def Let_def)
qed

lemma score_candidates_of: "score_candidates now cfg policy ps = Inr (map (score_of now cfg policy) ps)"
  by (induction ps) (simp_all add: score_candidates_def score_candidate_of)

lemma rank_candidates_of:
  "rank_candidates now cfg policy ps = Inr (sort_key rank_key (map (score_of now cfg policy) ps))"
  by (simp add: rank_candidates_def score_candidates_of)

lemma rank_key_inj:
  "distinct (map p_id ps) \<Longrightarrow> inj_on rank_key (set (map (score_of now cfg policy) ps))"
  by (auto simp: inj_on_def rank_key_def distinct_map)

lemma rank_order_independent:
  assumes "distinct (map p_id ps)" and "mset ps = mset qs"
  shows "sort_key rank_key (map (score_of now cfg policy) ps) =
    sort_key rank_key (map (score_of now cfg policy) qs)"
proof (rule sort_key_inj_key_eq)
  show "mset (map (score_of now cfg policy) ps) = mset (sort_key rank_key (map (score_of now cfg policy) qs))"
    using assms(2) by simp
  show "inj_on rank_key (set (map (score_of now cfg policy) ps))" by (rule rank_key_inj[OF assms(1)])
  show "sorted (map rank_key (sort_key rank_key (map (score_of now cfg policy) qs)))" by simp
qed

lemma select_best_order_independent:
  assumes d: "distinct (map p_id ps)" and m: "mset ps = mset qs"
  shows "select_best now cfg g ps = select_best now cfg g qs"
proof -
  have "mset (map p_id ps) = mset (map p_id qs)" by (simp only: mset_map m)
  from mset_eq_imp_distinct_iff[OF this] d have dq: "distinct (map p_id qs)" by (rule iffD1)
  have e: "lookup_key p_id ps k = Some p \<longleftrightarrow> lookup_key p_id qs k = Some p" for k p
    using mset_eq_setD[OF m] by (simp add: lookup_key_Some[OF d] lookup_key_Some[OF dq])
  have "lookup_key p_id ps k = lookup_key p_id qs k" for k
  proof (cases "lookup_key p_id qs k")
    case None
    then have "lookup_key p_id ps k \<noteq> Some p" for p using e[of k p] by simp
    then have "lookup_key p_id ps k = None" by (cases "lookup_key p_id ps k") auto
    then show ?thesis using None by simp
  next
    case (Some p)
    then show ?thesis using e[of k p] by simp
  qed
  then show ?thesis
    by (simp only: select_best_def rank_candidates_of rank_order_independent[OF d m]
        by_key_lookup[OF d] by_key_lookup[OF dq])
qed

text \<open>The winner is the least candidate in the ranking order.\<close>

lemma select_best_winner:
  assumes d: "distinct (map p_id ps)" and ne: "ps \<noteq> []"
  shows "\<exists>w x. select_best now cfg g ps = Inr (Some w, x) \<and> w \<in> set ps \<and>
    se_result x = SELECTED \<and> se_selected_profile_id x = Some (p_id w) \<and>
    mset (se_candidates x) = mset (map (score_of now cfg (ng_resilience_policy g)) ps) \<and>
    (\<forall>p \<in> set ps. rank_key (score_of now cfg (ng_resilience_policy g) w)
       \<le> rank_key (score_of now cfg (ng_resilience_policy g) p))"
proof -
  define sc where "sc = score_of now cfg (ng_resilience_policy g)"
  define rk where "rk = sort_key rank_key (map sc ps)"
  have "rk \<noteq> []" using ne unfolding rk_def by (metis length_0_conv length_map length_sort)
  then obtain s ss where rk: "rk = s # ss" by (cases rk) auto
  then have "s \<in> set rk" by simp
  then have "s \<in> set (map sc ps)" by (simp add: rk_def)
  then obtain w where w: "w \<in> set ps" "s = sc w" by auto
  have "lookup_key p_id ps (cs_profile_id s) = Some w"
    using w by (simp add: lookup_key_Some[OF d] sc_def)
  then have sel: "select_best now cfg g ps = Inr (Some w, \<lparr>se_group_name = ng_name g, se_result = SELECTED,
      se_selected_profile_id = Some (p_id w), se_candidates = rk, se_decided_by = Some (decided_by rk)\<rparr>)"
    using rk w unfolding rk_def
    by (simp add: select_best_def rank_candidates_of sc_def[symmetric] by_key_lookup[OF d])
       (simp add: sc_def)
  have "sorted (map rank_key rk)" unfolding rk_def by simp
  then have "\<forall>t \<in> set rk. rank_key s \<le> rank_key t" unfolding rk by auto
  moreover have "set rk = sc ` set ps" by (simp add: rk_def)
  ultimately have "\<forall>p \<in> set ps. rank_key (sc w) \<le> rank_key (sc p)" using w(2) by simp
  moreover have "mset rk = mset (map sc ps)" by (simp add: rk_def)
  ultimately show ?thesis using sel w(1) unfolding sc_def by auto
qed

lemma distinct_ids_mset:
  "distinct (map p_id ps) \<Longrightarrow> distinct (map p_id qs) \<Longrightarrow> set ps = set qs \<Longrightarrow> mset ps = mset qs"
  using set_eq_iff_mset_eq_distinct[of ps qs] by (simp add: distinct_map)

section \<open>Properties\<close>

text \<open>
  C0. The candidates of a node group, exactly. On well-formed stores, whatever order Python iterates the id set
  in, \<open>resolve_candidates\<close> returns without error each stored profile that is a member by id or by provider, is
  not excluded (exclusion wins over both), is eligible (origin provider enabled for rotation, profile enabled,
  not failed within the cooldown) and, under \<open>resilient_only\<close>, uses a resilient protocol; each of them once.
\<close>

theorem candidate_set_exact:
  assumes "set_order perm" and "profile_store_inv E profs" and "provider_store_inv E provs"
  shows "\<exists>cs. resolve_candidates E perm now cfg g profs provs = Inr cs \<and> distinct (map p_id cs) \<and>
    set cs = {p \<in> set (array_contents (profile_from_dict E) profs).
      in_scope g p \<and> eligible E now cfg provs p \<and>
      (ng_resilience_policy g = RESILIENT_ONLY \<longrightarrow> is_resilient p)}"
  by (rule resolve_candidates_set[OF assms])

definition sample_pool_config :: pool_config where
  "sample_pool_config = \<lparr>rc_health_status_cooldown_seconds = 300, rc_latency_max_stale_seconds = 900\<rparr>"

definition sample_profiles :: "profile list" where
  "sample_profiles = [sample_profile ''a'' WIREGUARD, sample_profile ''b'' TROJAN, sample_profile ''c'' VLESS]"

definition sample_profile_file :: json_file where
  "sample_profile_file = save_array (map (profile_to_dict sample_env) sample_profiles)"

lemma sample_profiles_valid: "list_all (profile_valid sample_env) sample_profiles"
  by (simp add: sample_profiles_def profile_valid_def validate_openvpn_profile_def)

lemma sample_profile_file_inv:
  "profile_store_inv sample_env sample_profile_file"
  "array_contents (profile_from_dict sample_env) sample_profile_file = sample_profiles"
  using profile_codec.inv_save[OF sample_profiles_valid] profile_codec.contents_save[OF sample_profiles_valid]
  by (simp_all add: sample_profile_file_def profile_store_inv_def sample_profiles_def)

lemma set_order_id: "set_order (\<lambda>xs. xs)" and set_order_rev: "set_order rev"
  by (simp_all add: set_order_def)

lemma sample_profile_eligible:
  "eligible E now cfg provs (sample_profile i pr)"
  by (simp add: eligible_def origin_enabled_def recently_failed_def sample_profile_def)

theorem candidate_set_exact_witness:
  "\<exists>cs. resolve_candidates sample_env rev 0 sample_pool_config sample_group sample_profile_file FMissing = Inr cs \<and>
     set cs = {sample_profile ''a'' WIREGUARD, sample_profile ''b'' TROJAN}"
proof -
  have "{p \<in> set sample_profiles. in_scope sample_group p \<and> eligible sample_env 0 sample_pool_config FMissing p \<and>
      (ng_resilience_policy sample_group = RESILIENT_ONLY \<longrightarrow> is_resilient p)} =
      {sample_profile ''a'' WIREGUARD, sample_profile ''b'' TROJAN}"
    by (auto simp: sample_profiles_def in_scope_def sample_group_def sample_profile_eligible)
  then show ?thesis
    using candidate_set_exact[OF set_order_rev sample_profile_file_inv(1) provider_store_inv_missing,
        of 0 sample_pool_config sample_group]
    by (auto simp: sample_profile_file_inv(2))
qed



definition preference :: "node_group \<Rightarrow> profile \<Rightarrow> real" where
  "preference g p = (if ng_resilience_policy g = PREFERRED \<and> is_resilient p then 1 else 0)"

definition effective_latency :: "int \<Rightarrow> pool_config \<Rightarrow> profile \<Rightarrow> pyfloat" where
  "effective_latency now cfg p = (case fresh_latency_ms now cfg p of None \<Rightarrow> FPosInf | Some l \<Rightarrow> l)"

lemma rank_le_iff:
  fixes a b :: real and l m :: pyfloat and i j :: string
  shows "(- a, l, i) \<le> (- b, m, j) \<longleftrightarrow> a > b \<or> a = b \<and> (l < m \<or> l = m \<and> i \<le> j)"
  by simp (meson le_less_linear less_le not_le)



end
