(* ===== verification/Rotation_Engine.thy ===== *)
theory Rotation_Engine
  imports Effects Candidate_Selection
begin

text \<open>
  \<open>src/rotation/rotation_engine.py\<close>. The engine runs against a driver, a health check, a clock and a
  sleep function; they are the fields of \<open>rot_ops\<close>, actions on an arbitrary environment type. A driver
  call may return false or raise, as the abstract base class allows; \<open>preflight_profile\<close> is optional.
\<close>

record 'e rot_ops =
  op_preflight :: "(profile \<Rightarrow> ('e, bool) act) option"
  op_disconnect :: "('e, bool) act"
  op_connect :: "profile \<Rightarrow> ('e, bool) act"
  op_health :: "profile \<Rightarrow> ('e, string) act"
  op_clock :: "'e \<Rightarrow> real \<times> 'e"
  op_sleep :: "real \<Rightarrow> 'e \<Rightarrow> 'e"

record rot_config =
  recent_keep :: nat
  min_seconds_between_rotations :: real
  conservative_interval_multiplier :: real
  max_attempts_per_cycle :: nat
  max_fails_before_rollback :: nat
  max_degraded_seconds_before_rollback :: real
  warmup_seconds :: real

record 'e rot_state =
  rs_last_profile_id :: "string option"
  rs_recent_profile_ids :: "string list"
  rs_last_good_profile_id :: "string option"
  rs_last_rotation_at :: "real option"
  rs_cleanup_barrier_failed :: bool
  rs_env :: 'e

record rotation_result =
  rr_profile :: "profile option"
  rr_success :: bool
  rr_attempts :: nat
  rr_category :: string
  rr_rolled_back :: bool
  rr_cleanup_failed :: bool

definition on_env :: "('e, 'a) act \<Rightarrow> ('e rot_state, 'a) act" where
  "on_env m s = (case m (rs_env s) of (r, e) \<Rightarrow> (r, s\<lparr>rs_env := e\<rparr>))"

definition read_clock :: "'e rot_ops \<Rightarrow> ('e rot_state, real) act" where
  "read_clock ops = on_env (\<lambda>e. case op_clock ops e of (t, e') \<Rightarrow> (Inr t, e'))"

definition pool_size_category :: "nat \<Rightarrow> string" where
  "pool_size_category n =
     (if n = 0 then ''unavailable''
      else if n = 1 then ''single''
      else if n \<le> 3 then ''conservative''
      else ''full'')"

text \<open>An optional id counts as absent when it is \<open>None\<close> or empty.\<close>

definition set_id :: "string option \<Rightarrow> string option" where
  "set_id i = (case i of None \<Rightarrow> None | Some s \<Rightarrow> if s = [] then None else Some s)"

definition blocked_ids :: "'e rot_state \<Rightarrow> string set" where
  "blocked_ids s = set (rs_recent_profile_ids s) \<union> set_option (set_id (rs_last_profile_id s))"

definition candidates :: "'e rot_state \<Rightarrow> profile list \<Rightarrow> profile list" where
  "candidates s pool =
     (let filtered = filter (\<lambda>p. p_id p \<notin> blocked_ids s) pool in
      if filtered \<noteq> [] then filtered else pool)"

definition can_rotate_now :: "rot_config \<Rightarrow> 'e rot_ops \<Rightarrow> string \<Rightarrow> bool \<Rightarrow> ('e rot_state, bool) act" where
  "can_rotate_now cfg ops category force =
     (if force then act_return True
      else act_bind (act_get rs_last_rotation_at) (\<lambda>last.
        case last of
          None \<Rightarrow> act_return True
        | Some t0 \<Rightarrow>
            (let interval = (if category = ''conservative''
                 then min_seconds_between_rotations cfg * conservative_interval_multiplier cfg
                 else min_seconds_between_rotations cfg)
             in act_bind (read_clock ops) (\<lambda>now. act_return (now - t0 \<ge> interval)))))"

definition remember :: "rot_config \<Rightarrow> string \<Rightarrow> 'e rot_state \<Rightarrow> 'e rot_state" where
  "remember cfg pid s =
     s\<lparr>rs_last_profile_id := Some pid,
       rs_recent_profile_ids :=
         take (recent_keep cfg) (pid # filter (\<lambda>q. q \<noteq> pid) (rs_recent_profile_ids s))\<rparr>"

definition record_successful_profile :: "rot_config \<Rightarrow> string \<Rightarrow> 'e rot_state \<Rightarrow> 'e rot_state" where
  "record_successful_profile cfg pid s =
     (if pid = [] then s else (remember cfg pid s)\<lparr>rs_last_good_profile_id := Some pid\<rparr>)"

text \<open>\<open>driver.disconnect()\<close> with an exception read as failure.\<close>

definition safe_disconnect :: "'e rot_ops \<Rightarrow> ('e rot_state, bool) act" where
  "safe_disconnect ops = act_try (on_env (op_disconnect ops)) (\<lambda>_. act_return False)"

definition set_barrier_failed :: "('e rot_state, unit) act" where
  "set_barrier_failed = act_modify (\<lambda>s. s\<lparr>rs_cleanup_barrier_failed := True\<rparr>)"

definition cleanup_failed_attempt :: "'e rot_ops \<Rightarrow> ('e rot_state, bool) act" where
  "cleanup_failed_attempt ops =
     act_bind (safe_disconnect ops) (\<lambda>disconnected.
       if disconnected then act_return False
       else act_seq set_barrier_failed (act_return True))"

definition preflight_ok :: "'e rot_ops \<Rightarrow> profile \<Rightarrow> ('e rot_state, bool) act" where
  "preflight_ok ops p = (case op_preflight ops of
       None \<Rightarrow> act_return True
     | Some pf \<Rightarrow> act_try (on_env (pf p)) (\<lambda>_. act_return False))"

definition warm_up :: "rot_config \<Rightarrow> 'e rot_ops \<Rightarrow> ('e rot_state, unit) act" where
  "warm_up cfg ops =
     (if warmup_seconds cfg > 0
      then on_env (\<lambda>e. (Inr (), op_sleep ops (warmup_seconds cfg) e)) else act_return ())"

definition connect_and_check :: "rot_config \<Rightarrow> 'e rot_ops \<Rightarrow> profile \<Rightarrow> ('e rot_state, string) act" where
  "connect_and_check cfg ops p =
     act_bind (on_env (op_connect ops p)) (\<lambda>connected.
       if \<not> connected then
         act_bind (cleanup_failed_attempt ops) (\<lambda>failed.
           act_return (if failed then ''cleanup_failed'' else ''down''))
       else act_seq (warm_up cfg ops)
         (act_bind (on_env (op_health ops p)) (\<lambda>status.
            if status = ''ok'' then act_return status
            else act_bind (cleanup_failed_attempt ops) (\<lambda>failed.
              act_return (if failed then ''cleanup_failed'' else status)))))"

definition try_profile :: "rot_config \<Rightarrow> 'e rot_ops \<Rightarrow> profile \<Rightarrow> ('e rot_state, string) act" where
  "try_profile cfg ops p =
     act_bind (preflight_ok ops p) (\<lambda>pf.
       if \<not> pf then act_return ''preflight_failed''
       else act_bind (safe_disconnect ops) (\<lambda>disconnected.
         if \<not> disconnected then act_seq set_barrier_failed (act_return ''cleanup_failed'')
         else connect_and_check cfg ops p))"

definition rollback :: "rot_config \<Rightarrow> 'e rot_ops \<Rightarrow> profile list \<Rightarrow> ('e rot_state, profile option) act" where
  "rollback cfg ops pool =
     act_bind (act_get rs_last_good_profile_id) (\<lambda>good.
       case set_id good of
         None \<Rightarrow> act_return None
       | Some i \<Rightarrow>
           (case find (\<lambda>p. p_id p = i) pool of
              None \<Rightarrow> act_return None
            | Some target \<Rightarrow>
                act_bind (try_profile cfg ops target) (\<lambda>status.
                  if status = ''ok''
                  then act_seq (act_modify (remember cfg (p_id target))) (act_return (Some target))
                  else act_return None)))"

definition stamp_rotation :: "'e rot_ops \<Rightarrow> ('e rot_state, unit) act" where
  "stamp_rotation ops =
     act_bind (read_clock ops) (\<lambda>t. act_modify (\<lambda>s. s\<lparr>rs_last_rotation_at := Some t\<rparr>))"

definition mark_good :: "rot_config \<Rightarrow> profile \<Rightarrow> ('e rot_state, unit) act" where
  "mark_good cfg p =
     act_modify (\<lambda>s. (remember cfg (p_id p) s)\<lparr>rs_last_good_profile_id := Some (p_id p)\<rparr>)"

definition single_node_check :: "rot_config \<Rightarrow> 'e rot_ops \<Rightarrow> profile \<Rightarrow> ('e rot_state, rotation_result) act" where
  "single_node_check cfg ops p =
     act_bind (try_profile cfg ops p) (\<lambda>status.
       act_seq (if status = ''ok'' then mark_good cfg p else act_return ())
         (act_seq (stamp_rotation ops)
           (act_return \<lparr>rr_profile = (if status = ''ok'' then Some p else None),
              rr_success = (status = ''ok''), rr_attempts = 1, rr_category = ''single'',
              rr_rolled_back = False, rr_cleanup_failed = (status = ''cleanup_failed'')\<rparr>)))"

definition failed_result :: "nat \<Rightarrow> string \<Rightarrow> bool \<Rightarrow> rotation_result" where
  "failed_result n category cleanup =
     \<lparr>rr_profile = None, rr_success = False, rr_attempts = n, rr_category = category,
      rr_rolled_back = False, rr_cleanup_failed = cleanup\<rparr>"

definition ok_result :: "profile \<Rightarrow> nat \<Rightarrow> string \<Rightarrow> bool \<Rightarrow> rotation_result" where
  "ok_result p n category rolled =
     \<lparr>rr_profile = Some p, rr_success = True, rr_attempts = n, rr_category = category,
      rr_rolled_back = rolled, rr_cleanup_failed = False\<rparr>"

definition finish_cycle ::
  "rot_config \<Rightarrow> 'e rot_ops \<Rightarrow> profile list \<Rightarrow> string \<Rightarrow> nat \<Rightarrow> bool \<Rightarrow> ('e rot_state, rotation_result) act" where
  "finish_cycle cfg ops pool category attempts rollback_attempted =
     act_bind (if rollback_attempted then act_return None else rollback cfg ops pool) (\<lambda>target.
       act_seq (stamp_rotation ops)
         (act_bind (act_get rs_cleanup_barrier_failed) (\<lambda>failed.
            act_return (if failed then failed_result attempts category True
              else case target of
                  Some p \<Rightarrow> ok_result p attempts category True
                | None \<Rightarrow> failed_result attempts category False))))"

text \<open>The candidate loop: \<open>attempts\<close>, \<open>failures\<close> and \<open>rollback_attempted\<close> are its local variables.\<close>

fun rotate_loop ::
  "rot_config \<Rightarrow> 'e rot_ops \<Rightarrow> profile list \<Rightarrow> string \<Rightarrow> real \<Rightarrow> profile list \<Rightarrow> nat \<Rightarrow> nat \<Rightarrow> bool
     \<Rightarrow> ('e rot_state, rotation_result) act" where
  "rotate_loop cfg ops pool category start [] attempts failures rolled =
     finish_cycle cfg ops pool category attempts rolled"
| "rotate_loop cfg ops pool category start (p # ps) attempts failures rolled =
     (if attempts \<ge> max_attempts_per_cycle cfg then finish_cycle cfg ops pool category attempts rolled
      else act_bind (try_profile cfg ops p) (\<lambda>status.
        if status = ''cleanup_failed'' then
          act_seq (stamp_rotation ops) (act_return (failed_result (attempts + 1) category True))
        else if status = ''ok'' then
          act_seq (mark_good cfg p)
            (act_seq (stamp_rotation ops) (act_return (ok_result p (attempts + 1) category False)))
        else act_bind (read_clock ops) (\<lambda>now.
          if \<not> rolled \<and> (failures + 1 \<ge> max_fails_before_rollback cfg
               \<or> now - start \<ge> max_degraded_seconds_before_rollback cfg)
          then act_bind (rollback cfg ops pool) (\<lambda>target.
            act_bind (act_get rs_cleanup_barrier_failed) (\<lambda>failed.
              if failed then
                act_seq (stamp_rotation ops) (act_return (failed_result (attempts + 1) category True))
              else case target of
                  Some q \<Rightarrow>
                    act_seq (stamp_rotation ops) (act_return (ok_result q (attempts + 1) category True))
                | None \<Rightarrow>
                    rotate_loop cfg ops pool category start ps (attempts + 1) (failures + 1) True))
          else rotate_loop cfg ops pool category start ps (attempts + 1) (failures + 1) rolled)))"

definition rotate :: "rot_config \<Rightarrow> 'e rot_ops \<Rightarrow> profile list \<Rightarrow> bool \<Rightarrow> ('e rot_state, rotation_result) act" where
  "rotate cfg ops pool force =
     act_seq (act_modify (\<lambda>s. s\<lparr>rs_cleanup_barrier_failed := False\<rparr>))
       (let category = pool_size_category (length pool) in
        if category = ''unavailable'' then act_return (failed_result 0 category False)
        else if category = ''single'' then single_node_check cfg ops (hd pool)
        else act_bind (can_rotate_now cfg ops category force) (\<lambda>ok.
          if \<not> ok then act_return (failed_result 0 category False)
          else act_bind (act_get (\<lambda>s. candidates s pool)) (\<lambda>cands.
            act_bind (read_clock ops) (\<lambda>start.
              rotate_loop cfg ops pool category start cands 0 0 False))))"


section \<open>Runs of the environment\<close>

lemma run_on_env [act_runs]:
  "on_env m s = (r, t) \<longleftrightarrow> (\<exists>e. m (rs_env s) = (r, e) \<and> t = s\<lparr>rs_env := e\<rparr>)"
  by (auto simp: on_env_def split: prod.splits)

lemma run_clock [act_runs]:
  "read_clock ops s = (r, t) \<longleftrightarrow>
     (\<exists>x e. op_clock ops (rs_env s) = (x, e) \<and> r = Inr x \<and> t = s\<lparr>rs_env := e\<rparr>)"
  by (auto simp: read_clock_def run_on_env split: prod.splits)

lemma safe_disconnect_run:
  "op_disconnect ops (rs_env s) = (d, e) \<Longrightarrow> safe_disconnect ops s = (Inr (d = Inr True), s\<lparr>rs_env := e\<rparr>)"
  by (cases d) (simp_all add: safe_disconnect_def act_try_def on_env_def act_return_def)

definition cleanup_then :: "'e rot_ops \<Rightarrow> string \<Rightarrow> ('e rot_state, string) act" where
  "cleanup_then ops status =
     act_bind (cleanup_failed_attempt ops) (\<lambda>failed.
       act_return (if failed then ''cleanup_failed'' else status))"


section \<open>Candidates and history\<close>

lemma candidates_subset: "set (candidates s pool) \<subseteq> set pool"
  by (auto simp: candidates_def Let_def)

lemma candidates_nonempty: "pool \<noteq> [] \<Longrightarrow> candidates s pool \<noteq> []"
  by (simp add: candidates_def Let_def)

definition history_ok :: "rot_config \<Rightarrow> 'e rot_state \<Rightarrow> bool" where
  "history_ok cfg s \<longleftrightarrow>
     distinct (rs_recent_profile_ids s) \<and> length (rs_recent_profile_ids s) \<le> recent_keep cfg"

lemma history_ok_env [simp]:
  "history_ok cfg (s\<lparr>rs_env := e\<rparr>) = history_ok cfg s"
  "history_ok cfg (s\<lparr>rs_last_rotation_at := l\<rparr>) = history_ok cfg s"
  "history_ok cfg (s\<lparr>rs_last_good_profile_id := g\<rparr>) = history_ok cfg s"
  "history_ok cfg (s\<lparr>rs_cleanup_barrier_failed := b\<rparr>) = history_ok cfg s"
  by (simp_all add: history_ok_def)

lemma remember_simps [simp]:
  "rs_env (remember cfg pid s) = rs_env s"
  "rs_cleanup_barrier_failed (remember cfg pid s) = rs_cleanup_barrier_failed s"
  "rs_last_good_profile_id (remember cfg pid s) = rs_last_good_profile_id s"
  by (simp_all add: remember_def)

lemma remember_history: "history_ok cfg s \<Longrightarrow> history_ok cfg (remember cfg pid s)"
proof -
  assume "history_ok cfg s"
  then have "distinct (pid # filter (\<lambda>q. q \<noteq> pid) (rs_recent_profile_ids s))" by (simp add: history_ok_def)
  then show ?thesis unfolding history_ok_def remember_def by (simp del: take_Suc_Cons)
qed


section \<open>The teardown barrier\<close>

text \<open>
  What is known of the tunnel: nothing yet, torn down by a successful disconnect, a connect has been
  issued for a profile, or a disconnect has failed. \<open>bad\<close> records a connect issued in any state but
  \<open>TTorn\<close>.
\<close>

datatype tunnel = TPrior | TTorn | TUp string | TStuck

locale driver_contract =
  fixes ops :: "'e rot_ops"
    and tun :: "'e \<Rightarrow> tunnel"
    and bad :: "'e \<Rightarrow> bool"
  assumes disconnect_law: "op_disconnect ops e = (r, e') \<Longrightarrow>
        bad e' = bad e \<and> tun e' = (if r = Inr True then TTorn else TStuck)"
    and connect_law: "op_connect ops p e = (c, e') \<Longrightarrow>
        bad e' = (bad e \<or> tun e \<noteq> TTorn) \<and> tun e' = TUp (p_id p)"
    and preflight_law: "op_preflight ops = Some pf \<Longrightarrow> pf p e = (c, e') \<Longrightarrow>
        bad e' = bad e \<and> tun e' = tun e"
    and health_law: "op_health ops p e = (h, e') \<Longrightarrow> bad e' = bad e \<and> tun e' = tun e"
    and clock_law: "op_clock ops e = (t, e') \<Longrightarrow> bad e' = bad e \<and> tun e' = tun e"
    and sleep_law: "op_sleep ops d e = e' \<Longrightarrow> bad e' = bad e \<and> tun e' = tun e"
begin

text \<open>After an attempt that did not succeed the tunnel is as before, torn down, or stuck.\<close>

definition settled :: "tunnel \<Rightarrow> 'e rot_state \<Rightarrow> bool" where
  "settled t0 s \<longleftrightarrow> tun (rs_env s) = t0 \<or> tun (rs_env s) = TTorn \<or>
     (tun (rs_env s) = TStuck \<and> rs_cleanup_barrier_failed s)"

lemma cleanup_run:
  assumes "cleanup_then ops status s = (r, s')" and nb: "\<not> bad (rs_env s)"
  shows "\<not> bad (rs_env s') \<and>
    (r = Inr status \<and> tun (rs_env s') = TTorn \<and> rs_cleanup_barrier_failed s' = rs_cleanup_barrier_failed s \<or>
     r = Inr ''cleanup_failed'' \<and> tun (rs_env s') = TStuck \<and> rs_cleanup_barrier_failed s')"
proof -
  obtain d e where d: "op_disconnect ops (rs_env s) = (d, e)" by fastforce
  note e = disconnect_law[OF d]
  have "(if d = Inr True then (Inr status, s\<lparr>rs_env := e\<rparr>)
      else (Inr ''cleanup_failed'', s\<lparr>rs_env := e, rs_cleanup_barrier_failed := True\<rparr>)) = (r, s')"
    using assms(1)
    by (simp add: cleanup_then_def cleanup_failed_attempt_def act_bind_def act_seq_def
        safe_disconnect_run[OF d] set_barrier_failed_def act_modify_def act_return_def split: if_splits)
  then show ?thesis using e nb by (auto split: if_splits)
qed

lemma preflight_run:
  assumes "preflight_ok ops p s = (r, s')"
  shows "(\<exists>b. r = Inr b) \<and> bad (rs_env s') = bad (rs_env s) \<and> tun (rs_env s') = tun (rs_env s) \<and>
    rs_cleanup_barrier_failed s' = rs_cleanup_barrier_failed s"
  using assms by (auto simp: preflight_ok_def act_runs dest: preflight_law split: option.splits)

lemma warm_up_run:
  assumes "warm_up cfg ops s = (r, s')"
  shows "r = Inr () \<and> bad (rs_env s') = bad (rs_env s) \<and> tun (rs_env s') = tun (rs_env s) \<and>
    rs_cleanup_barrier_failed s' = rs_cleanup_barrier_failed s"
  using assms by (auto simp: warm_up_def act_runs sleep_law split: if_splits)

lemma connect_and_check_run:
  assumes run: "connect_and_check cfg ops p s = (r, s')" and torn: "tun (rs_env s) = TTorn"
    and nb: "\<not> bad (rs_env s)"
  shows "\<not> bad (rs_env s') \<and> (\<forall>st. r = Inr st \<longrightarrow>
    (if st = ''ok'' then tun (rs_env s') = TUp (p_id p) \<and> rs_cleanup_barrier_failed s' = rs_cleanup_barrier_failed s
     else (tun (rs_env s') = TTorn \<and> rs_cleanup_barrier_failed s' = rs_cleanup_barrier_failed s) \<or>
       (tun (rs_env s') = TStuck \<and> rs_cleanup_barrier_failed s' \<and> st = ''cleanup_failed'')))"
proof -
  obtain c e1 where c: "op_connect ops p (rs_env s) = (c, e1)" by fastforce
  let ?s1 = "s\<lparr>rs_env := e1\<rparr>"
  have e1: "\<not> bad e1" "tun e1 = TUp (p_id p)" using connect_law[OF c] torn nb by simp_all
  consider (exn) x where "c = Inl x" | (refused) "c = Inr False" | (up) "c = Inr True"
    by (cases c) auto
  then show ?thesis
  proof cases
    case exn
    then show ?thesis using run c e1 by (auto simp: connect_and_check_def act_bind_def on_env_def)
  next
    case refused
    then have "cleanup_then ops ''down'' ?s1 = (r, s')"
      using run c by (simp add: connect_and_check_def act_bind_def on_env_def cleanup_then_def)
    from cleanup_run[OF this] e1 show ?thesis by auto
  next
    case up
    obtain u1 s2 where w: "warm_up cfg ops ?s1 = (u1, s2)" by fastforce
    obtain h e3 where h: "op_health ops p (rs_env s2) = (h, e3)" by fastforce
    note s2 = warm_up_run[OF w]
    have e3: "\<not> bad e3" "tun e3 = TUp (p_id p)" using health_law[OF h] s2 e1 by simp_all
    have "(case h of Inl x \<Rightarrow> (Inl x, s2\<lparr>rs_env := e3\<rparr>)
        | Inr st \<Rightarrow> if st = ''ok'' then (Inr st, s2\<lparr>rs_env := e3\<rparr>) else cleanup_then ops st (s2\<lparr>rs_env := e3\<rparr>)) = (r, s')"
      using run w s2 c up
      by (cases h)
        (auto simp: connect_and_check_def act_bind_def act_seq_def on_env_def h act_return_def cleanup_then_def
          split: if_splits)
    then show ?thesis
      using cleanup_run[of _ "s2\<lparr>rs_env := e3\<rparr>" r s'] e3 s2 by (auto split: sum.splits if_splits)
  qed
qed

lemma try_profile_run:
  assumes run: "try_profile cfg ops p s = (r, s')" and nb: "\<not> bad (rs_env s)"
    and nf: "\<not> rs_cleanup_barrier_failed s"
  shows "\<not> bad (rs_env s') \<and> (\<forall>st. r = Inr st \<longrightarrow>
    (if st = ''ok'' then tun (rs_env s') = TUp (p_id p) \<and> \<not> rs_cleanup_barrier_failed s'
     else settled (tun (rs_env s)) s' \<and>
       (rs_cleanup_barrier_failed s' \<longrightarrow> st = ''cleanup_failed'' \<and> tun (rs_env s') = TStuck)))"
proof -
  obtain b s1 where pf: "preflight_ok ops p s = (Inr b, s1)"
    using preflight_run by (metis surj_pair)
  note s1 = preflight_run[OF pf]
  show ?thesis
  proof (cases b)
    case False
    then show ?thesis using run pf s1 nb nf by (auto simp: try_profile_def act_runs settled_def)
  next
    case True
    obtain d e2 where d: "op_disconnect ops (rs_env s1) = (d, e2)" by fastforce
    note e2 = disconnect_law[OF d]
    have run': "(if d = Inr True then connect_and_check cfg ops p (s1\<lparr>rs_env := e2\<rparr>)
        else (Inr ''cleanup_failed'', s1\<lparr>rs_env := e2, rs_cleanup_barrier_failed := True\<rparr>)) = (r, s')"
      using run True
      by (simp add: try_profile_def act_bind_def act_seq_def pf safe_disconnect_run[OF d]
          set_barrier_failed_def act_modify_def act_return_def split: if_splits)
    show ?thesis
    proof (cases "d = Inr True")
      case True
      with run' have "connect_and_check cfg ops p (s1\<lparr>rs_env := e2\<rparr>) = (r, s')" by simp
      from connect_and_check_run[OF this] show ?thesis
        using True e2 s1 nb nf by (auto simp: settled_def split: if_splits)
    next
      case False
      then show ?thesis using run' e2 s1 nb by (auto simp: settled_def)
    qed
  qed
qed

definition quiet :: "tunnel \<Rightarrow> 'e rot_state \<Rightarrow> bool" where
  "quiet t0 s \<longleftrightarrow> \<not> bad (rs_env s) \<and> \<not> rs_cleanup_barrier_failed s \<and>
     (tun (rs_env s) = t0 \<or> tun (rs_env s) = TTorn)"

definition outcome :: "profile list \<Rightarrow> tunnel \<Rightarrow> profile option \<Rightarrow> 'e rot_state \<Rightarrow> bool" where
  "outcome pool t0 target s \<longleftrightarrow> \<not> bad (rs_env s) \<and>
     (case target of
        Some p \<Rightarrow> p \<in> set pool \<and> tun (rs_env s) = TUp (p_id p) \<and> \<not> rs_cleanup_barrier_failed s
      | None \<Rightarrow> settled t0 s)"

lemma try_profile_outcome:
  assumes "try_profile cfg ops p s = (r, s')" and q: "quiet t0 s"
  shows "\<not> bad (rs_env s')"
    and "r = Inr ''ok'' \<Longrightarrow> p \<in> set pool \<Longrightarrow> outcome pool t0 (Some p) s'"
    and "r = Inr st \<Longrightarrow> st \<noteq> ''ok'' \<Longrightarrow> outcome pool t0 None s'"
    and "r = Inr st \<Longrightarrow> st \<noteq> ''ok'' \<Longrightarrow> st \<noteq> ''cleanup_failed'' \<Longrightarrow> quiet t0 s'"
  using try_profile_run[OF assms(1)] q
  by (auto simp: quiet_def outcome_def settled_def)

lemma stamp_run:
  assumes "stamp_rotation ops s = (r, s')"
  shows "r = Inr () \<and> bad (rs_env s') = bad (rs_env s) \<and> tun (rs_env s') = tun (rs_env s) \<and>
    rs_cleanup_barrier_failed s' = rs_cleanup_barrier_failed s"
  using assms by (auto simp: stamp_rotation_def act_runs dest: clock_law)

lemma outcome_stamp:
  "stamp_rotation ops s = (r, s') \<Longrightarrow> outcome pool t0 target s' = outcome pool t0 target s"
  by (frule stamp_run) (auto simp: outcome_def settled_def split: option.split)

lemma outcome_remember [simp]:
  "outcome pool t0 target (remember cfg pid s) = outcome pool t0 target s"
  "outcome pool t0 target (s\<lparr>rs_last_good_profile_id := g\<rparr>) = outcome pool t0 target s"
  by (simp_all add: outcome_def settled_def remember_def split: option.split)

lemma rollback_run:
  assumes run: "rollback cfg ops pool s = (r, s')" and q: "quiet t0 s"
  shows "\<not> bad (rs_env s')" and "r = Inr target \<Longrightarrow> outcome pool t0 target s'"
proof -
  have "\<not> bad (rs_env s') \<and> (\<forall>target. r = Inr target \<longrightarrow> outcome pool t0 target s')"
  proof (cases "set_id (rs_last_good_profile_id s)")
    case None
    then show ?thesis using run q
      by (auto simp: rollback_def act_runs outcome_def settled_def quiet_def)
  next
    case (Some i)
    show ?thesis
    proof (cases "find (\<lambda>p. p_id p = i) pool")
      case None
      then show ?thesis using run q Some
        by (auto simp: rollback_def act_runs outcome_def settled_def quiet_def)
    next
      case (Some p)
      then have p: "p \<in> set pool" by (auto dest: find_Some_in)
      obtain x s1 where t: "try_profile cfg ops p s = (x, s1)" by fastforce
      note o = try_profile_outcome[OF t q]
      have "(case x of Inl e \<Rightarrow> (Inl e, s1)
          | Inr st \<Rightarrow> if st = ''ok'' then (Inr (Some p), remember cfg (p_id p) s1) else (Inr None, s1)) = (r, s')"
        using run \<open>set_id _ = Some i\<close> Some t
        by (cases x) (auto simp: rollback_def act_bind_def act_seq_def act_get_def act_modify_def act_return_def)
      then show ?thesis using o p
        by (cases x) (auto split: if_splits)
    qed
  qed
  then show "\<not> bad (rs_env s')" and "r = Inr target \<Longrightarrow> outcome pool t0 target s'" by auto
qed

lemma rollback_none_quiet:
  "outcome pool t0 None s \<Longrightarrow> \<not> rs_cleanup_barrier_failed s \<Longrightarrow> quiet t0 s"
  by (auto simp: outcome_def quiet_def settled_def)

definition result_ok :: "profile list \<Rightarrow> tunnel \<Rightarrow> rotation_result res \<Rightarrow> 'e rot_state \<Rightarrow> bool" where
  "result_ok pool t0 r s \<longleftrightarrow> \<not> bad (rs_env s) \<and>
     (\<forall>res. r = Inr res \<longrightarrow> rr_success res = (rr_profile res \<noteq> None) \<and>
        outcome pool t0 (rr_profile res) s \<and>
        (rs_cleanup_barrier_failed s \<longrightarrow> rr_cleanup_failed res))"

lemma outcome_not_bad: "outcome pool t0 target s \<Longrightarrow> \<not> bad (rs_env s)"
  by (simp add: outcome_def)

lemma result_ok_exn: "\<not> bad (rs_env s) \<Longrightarrow> result_ok pool t0 (Inl e) s"
  by (simp add: result_ok_def)

lemma result_ok_failed:
  "outcome pool t0 None s \<Longrightarrow> (rs_cleanup_barrier_failed s \<longrightarrow> c) \<Longrightarrow>
     result_ok pool t0 (Inr (failed_result n cat c)) s"
  by (simp add: result_ok_def failed_result_def outcome_not_bad)

lemma result_ok_ok:
  "outcome pool t0 (Some p) s \<Longrightarrow> result_ok pool t0 (Inr (ok_result p n cat b)) s"
  by (simp add: result_ok_def ok_result_def outcome_def)

lemma stamped:
  assumes "act_seq (stamp_rotation ops) (act_return res) s = (r, s')"
    and "\<And>s1. stamp_rotation ops s = (Inr (), s1) \<Longrightarrow> result_ok pool t0 (Inr res) s1"
  shows "result_ok pool t0 r s'"
proof -
  obtain x s1 where st: "stamp_rotation ops s = (x, s1)" by fastforce
  with stamp_run[OF st] have "x = Inr ()" by simp
  with st assms(1) have "r = Inr res" "s' = s1" by (auto simp: act_seq_def act_bind_def act_return_def)
  with assms(2) st \<open>x = Inr ()\<close> show ?thesis by simp
qed

lemma finish_cycle_run:
  assumes run: "finish_cycle cfg ops pool cat n rolled s = (r, s')" and q: "quiet t0 s"
  shows "result_ok pool t0 r s'"
proof -
  obtain x s1 where m: "(if rolled then act_return None else rollback cfg ops pool) s = (x, s1)" by fastforce
  have o: "\<not> bad (rs_env s1)" "\<And>target. x = Inr target \<Longrightarrow> outcome pool t0 target s1"
    using m rollback_run[OF _ q] q
    by (auto simp: act_return_def outcome_def settled_def quiet_def split: if_splits)
  show ?thesis
  proof (cases x)
    case (Inl e)
    then show ?thesis using run m o(1) by (auto simp: finish_cycle_def act_bind_def result_ok_exn)
  next
    case (Inr target)
    obtain y s2 where st: "stamp_rotation ops s1 = (y, s2)" by fastforce
    have y: "y = Inr ()" using stamp_run[OF st] by simp
    have o2: "outcome pool t0 target s2" using o(2)[OF Inr] outcome_stamp[OF st] by simp
    have f: "rs_cleanup_barrier_failed s2 \<Longrightarrow> target = None"
      using o2 by (auto simp: outcome_def split: option.splits)
    have "r = Inr (if rs_cleanup_barrier_failed s2 then failed_result n cat True
        else case target of Some p \<Rightarrow> ok_result p n cat True | None \<Rightarrow> failed_result n cat False) \<and> s' = s2"
      using run m Inr st y by (auto simp: finish_cycle_def act_bind_def act_seq_def act_get_def act_return_def)
    then show ?thesis using o2 f
      by (cases target) (auto simp: result_ok_failed result_ok_ok)
  qed
qed

lemma rollback_step_run:
  assumes step: "act_bind (rollback cfg ops pool) (\<lambda>target.
        act_bind (act_get rs_cleanup_barrier_failed) (\<lambda>failed.
          if failed then act_seq (stamp_rotation ops) (act_return (failed_result n cat True))
          else case target of
              Some q \<Rightarrow> act_seq (stamp_rotation ops) (act_return (ok_result q n cat True))
            | None \<Rightarrow> cont)) s = (r, s')"
    and q: "quiet t0 s"
    and cont: "\<And>s3. quiet t0 s3 \<Longrightarrow> cont s3 = (r, s') \<Longrightarrow> result_ok pool t0 r s'"
  shows "result_ok pool t0 r s'"
proof -
  obtain y s3 where rb: "rollback cfg ops pool s = (y, s3)" by fastforce
  note o3 = rollback_run[OF rb q]
  show ?thesis
  proof (cases y)
    case (Inl e)
    then show ?thesis using step rb o3(1) by (auto simp: act_bind_def result_ok_exn)
  next
    case (Inr target)
    have ot: "outcome pool t0 target s3" using o3(2)[OF Inr] .
    consider (failed) "rs_cleanup_barrier_failed s3" "target = None"
      | (restored) q where "\<not> rs_cleanup_barrier_failed s3" "target = Some q"
      | (resume) "\<not> rs_cleanup_barrier_failed s3" "target = None"
      using ot by (cases target) (auto simp: outcome_def)
    then show ?thesis
    proof cases
      case failed
      then have "act_seq (stamp_rotation ops) (act_return (failed_result n cat True)) s3 = (r, s')"
        using step rb Inr by (simp add: act_bind_def act_get_def)
      then show ?thesis
        by (rule stamped) (use ot failed(2) in \<open>auto intro!: result_ok_failed simp: outcome_stamp\<close>)
    next
      case restored
      then have "act_seq (stamp_rotation ops) (act_return (ok_result q n cat True)) s3 = (r, s')"
        using step rb Inr by (simp add: act_bind_def act_get_def)
      then show ?thesis
        by (rule stamped) (use ot restored(2) in \<open>auto intro!: result_ok_ok simp: outcome_stamp\<close>)
    next
      case resume
      then have "cont s3 = (r, s')" using step rb Inr by (simp add: act_bind_def act_get_def)
      moreover have "quiet t0 s3" using ot resume rollback_none_quiet by blast
      ultimately show ?thesis by (rule cont[rotated])
    qed
  qed
qed

lemma rotate_loop_run:
  "rotate_loop cfg ops pool cat start cands n k rolled s = (r, s') \<Longrightarrow> quiet t0 s \<Longrightarrow>
     set cands \<subseteq> set pool \<Longrightarrow> result_ok pool t0 r s'"
proof (induction cands arbitrary: n k rolled s)
  case Nil
  then show ?case using finish_cycle_run by simp
next
  case (Cons p ps)
  show ?case
  proof (cases "max_attempts_per_cycle cfg \<le> n")
    case True
    then show ?thesis using Cons.prems finish_cycle_run by simp
  next
    case False
    obtain x s1 where t: "try_profile cfg ops p s = (x, s1)" by fastforce
    note o = try_profile_outcome[OF t Cons.prems(2)]
    have p: "p \<in> set pool" using Cons.prems(3) by simp
    consider (exn) e where "x = Inl e" | (ok) "x = Inr ''ok''" | (stuck) "x = Inr ''cleanup_failed''"
      | (next_try) st where "x = Inr st" "st \<noteq> ''ok''" "st \<noteq> ''cleanup_failed''"
      by (cases x) auto
    then show ?thesis
    proof cases
      case exn
      then show ?thesis using Cons.prems(1) False t o(1)
        by (auto simp: act_bind_def result_ok_exn)
    next
      case ok
      let ?s2 = "(remember cfg (p_id p) s1)\<lparr>rs_last_good_profile_id := Some (p_id p)\<rparr>"
      have "act_seq (stamp_rotation ops) (act_return (ok_result p (n + 1) cat False)) ?s2 = (r, s')"
        using Cons.prems(1) False t ok by (simp add: act_bind_def act_seq_def mark_good_def act_modify_def)
      then show ?thesis
        by (rule stamped) (use o(2)[OF ok p] in \<open>auto intro!: result_ok_ok simp: outcome_stamp\<close>)
    next
      case stuck
      have "act_seq (stamp_rotation ops) (act_return (failed_result (n + 1) cat True)) s1 = (r, s')"
        using Cons.prems(1) False t stuck by (simp add: act_bind_def)
      then show ?thesis
        by (rule stamped) (use o(3)[OF stuck] in \<open>auto intro!: result_ok_failed simp: outcome_stamp\<close>)
    next
      case next_try
      obtain now e2 where c: "op_clock ops (rs_env s1) = (now, e2)" by fastforce
      let ?s2 = "s1\<lparr>rs_env := e2\<rparr>"
      have rc: "read_clock ops s1 = (Inr now, ?s2)" by (simp add: run_clock c)
      have q2: "quiet t0 ?s2" using o(4)[OF next_try] clock_law[OF c] by (simp add: quiet_def)
      let ?roll = "\<not> rolled \<and> (k + 1 \<ge> max_fails_before_rollback cfg
        \<or> now - start \<ge> max_degraded_seconds_before_rollback cfg)"
      show ?thesis
      proof (cases ?roll)
        case False
        then have "rotate_loop cfg ops pool cat start ps (n + 1) (k + 1) rolled ?s2 = (r, s')"
          using Cons.prems(1) \<open>\<not> max_attempts_per_cycle cfg \<le> n\<close> t next_try
          by (simp add: act_bind_def rc split: if_splits)
        then show ?thesis by (rule Cons.IH) (use q2 Cons.prems(3) in auto)
      next
        case True
        have step: "act_bind (rollback cfg ops pool) (\<lambda>target.
            act_bind (act_get rs_cleanup_barrier_failed) (\<lambda>failed.
              if failed then
                act_seq (stamp_rotation ops) (act_return (failed_result (n + 1) cat True))
              else case target of
                  Some q \<Rightarrow> act_seq (stamp_rotation ops) (act_return (ok_result q (n + 1) cat True))
                | None \<Rightarrow> rotate_loop cfg ops pool cat start ps (n + 1) (k + 1) True)) ?s2 = (r, s')"
          using Cons.prems(1) \<open>\<not> max_attempts_per_cycle cfg \<le> n\<close> t next_try True
          by (simp add: act_bind_def[of "try_profile cfg ops p"] act_bind_def[of "read_clock ops"] rc)
        show ?thesis
          by (rule rollback_step_run[OF step q2]) (use Cons.IH Cons.prems(3) in auto)
      qed
    qed
  qed
qed

lemma single_node_check_run:
  assumes run: "single_node_check cfg ops p s = (r, s')" and q: "quiet t0 s" and p: "p \<in> set pool"
  shows "result_ok pool t0 r s'"
proof -
  obtain x s1 where t: "try_profile cfg ops p s = (x, s1)" by fastforce
  note o = try_profile_outcome[OF t q]
  show ?thesis
  proof (cases x)
    case (Inl e)
    then show ?thesis using run t o(1) by (auto simp: single_node_check_def act_bind_def result_ok_exn)
  next
    case (Inr st)
    let ?res = "\<lparr>rr_profile = (if st = ''ok'' then Some p else None), rr_success = (st = ''ok''),
      rr_attempts = 1, rr_category = ''single'', rr_rolled_back = False,
      rr_cleanup_failed = (st = ''cleanup_failed'')\<rparr>"
    let ?s2 = "if st = ''ok'' then (remember cfg (p_id p) s1)\<lparr>rs_last_good_profile_id := Some (p_id p)\<rparr> else s1"
    have "act_seq (if st = ''ok'' then mark_good cfg p else act_return ())
        (act_seq (stamp_rotation ops) (act_return ?res)) s1 = (r, s')"
      using run unfolding single_node_check_def by (simp only: act_bind_def t Inr prod.case sum.case)
    moreover have "(if st = ''ok'' then mark_good cfg p else act_return ()) s1 = (Inr (), ?s2)"
      by (simp add: mark_good_def act_modify_def act_return_def)
    ultimately have "act_seq (stamp_rotation ops) (act_return ?res) ?s2 = (r, s')"
      by (simp only: act_seq_def[of "if _ then _ else _"] act_bind_def[of "if _ then _ else _"] prod.case sum.case)
    then show ?thesis
    proof (rule stamped)
      fix s3 assume s3: "stamp_rotation ops ?s2 = (Inr (), s3)"
      have b: "rs_cleanup_barrier_failed s3 \<Longrightarrow> st = ''cleanup_failed''"
        using stamp_run[OF s3] o(2)[OF _ p] o(4)[OF Inr] Inr by (auto simp: outcome_def quiet_def split: if_splits)
      have oc: "outcome pool t0 (rr_profile ?res) ?s2" using o(2)[OF _ p] o(3)[OF Inr] Inr by simp
      show "result_ok pool t0 (Inr ?res) s3"
        using oc b outcome_stamp[OF s3, of pool t0] outcome_not_bad[of pool t0 _ s3]
        by (auto simp: result_ok_def split: if_splits)
    qed
  qed
qed

lemma can_rotate_now_run:
  assumes "can_rotate_now cfg ops cat force s = (r, s')"
  shows "(\<exists>b. r = Inr b) \<and> bad (rs_env s') = bad (rs_env s) \<and> tun (rs_env s') = tun (rs_env s) \<and>
    rs_cleanup_barrier_failed s' = rs_cleanup_barrier_failed s"
  using assms
  by (auto simp: can_rotate_now_def act_runs Let_def dest: clock_law split: if_splits option.splits)

lemma rotate_run:
  assumes run: "rotate cfg ops pool force s = (r, s')" and nb: "\<not> bad (rs_env s)"
  shows "result_ok pool (tun (rs_env s)) r s'"
proof -
  let ?t0 = "tun (rs_env s)"
  define s0 where "s0 = s\<lparr>rs_cleanup_barrier_failed := False\<rparr>"
  define cat where "cat = pool_size_category (length pool)"
  have q: "quiet ?t0 s0" using nb by (simp add: quiet_def s0_def)
  then have idle: "outcome pool ?t0 None s0" by (auto simp: quiet_def outcome_def settled_def)
  have nf: "\<not> rs_cleanup_barrier_failed s0" by (simp add: s0_def)
  consider (none) "cat = ''unavailable''" | (single) "cat = ''single''"
    | (many) "cat \<noteq> ''unavailable''" "cat \<noteq> ''single''" by blast
  then show ?thesis
  proof cases
    case none
    then show ?thesis using run idle nf
      by (auto simp: rotate_def act_seq_def act_bind_def act_modify_def act_return_def s0_def[symmetric]
          cat_def[symmetric] Let_def intro!: result_ok_failed)
  next
    case single
    then have "pool \<noteq> []" by (auto simp: cat_def pool_size_category_def)
    moreover have "single_node_check cfg ops (hd pool) s0 = (r, s')"
      using run single by (simp add: rotate_def act_seq_def act_bind_def act_modify_def s0_def cat_def Let_def)
    ultimately show ?thesis using q single_node_check_run by (metis hd_in_set)
  next
    case many
    obtain x s1 where "can_rotate_now cfg ops cat force s0 = (x, s1)" by fastforce
    then obtain b where c: "can_rotate_now cfg ops cat force s0 = (Inr b, s1)"
      "bad (rs_env s1) = bad (rs_env s0)" "tun (rs_env s1) = tun (rs_env s0)"
      "rs_cleanup_barrier_failed s1 = rs_cleanup_barrier_failed s0"
      using can_rotate_now_run by blast
    have q1: "quiet ?t0 s1" using q c by (simp add: quiet_def)
    obtain t e2 where k: "op_clock ops (rs_env s1) = (t, e2)" by fastforce
    have q2: "quiet ?t0 (s1\<lparr>rs_env := e2\<rparr>)" using q1 clock_law[OF k] by (simp add: quiet_def)
    have "(if b then rotate_loop cfg ops pool cat t (candidates s1 pool) 0 0 False (s1\<lparr>rs_env := e2\<rparr>)
        else (Inr (failed_result 0 cat False), s1)) = (r, s')"
      using run many c(1)
      by (auto simp: rotate_def act_seq_def act_bind_def act_modify_def act_get_def act_return_def
          s0_def[symmetric] cat_def[symmetric] Let_def read_clock_def on_env_def k split: if_splits)
    then show ?thesis
      using rotate_loop_run[OF _ q2 candidates_subset] q1
      by (auto simp: quiet_def outcome_def settled_def intro!: result_ok_failed split: if_splits)
  qed
qed

end

section \<open>A monitor around an arbitrary driver\<close>

text \<open>
  \<open>monitored ops\<close> calls the given operations unchanged and keeps, next to their environment, what the
  sequence of calls so far says about the tunnel.
\<close>

record 'e monitor =
  mo_env :: 'e
  mo_tunnel :: tunnel
  mo_bad :: bool

definition mo_lift :: "('e, 'a) act \<Rightarrow> ('e monitor, 'a) act" where
  "mo_lift m s = (case m (mo_env s) of (r, e) \<Rightarrow> (r, s\<lparr>mo_env := e\<rparr>))"

definition mo_disconnect :: "'e rot_ops \<Rightarrow> ('e monitor, bool) act" where
  "mo_disconnect ops s = (case op_disconnect ops (mo_env s) of (r, e) \<Rightarrow>
     (r, s\<lparr>mo_env := e, mo_tunnel := (if r = Inr True then TTorn else TStuck)\<rparr>))"

definition mo_connect :: "'e rot_ops \<Rightarrow> profile \<Rightarrow> ('e monitor, bool) act" where
  "mo_connect ops p s = (case op_connect ops p (mo_env s) of (r, e) \<Rightarrow>
     (r, s\<lparr>mo_env := e, mo_tunnel := TUp (p_id p), mo_bad := (mo_bad s \<or> mo_tunnel s \<noteq> TTorn)\<rparr>))"

definition monitored :: "'e rot_ops \<Rightarrow> 'e monitor rot_ops" where
  "monitored ops =
     \<lparr>op_preflight = map_option (\<lambda>pf p. mo_lift (pf p)) (op_preflight ops),
      op_disconnect = mo_disconnect ops,
      op_connect = mo_connect ops,
      op_health = (\<lambda>p. mo_lift (op_health ops p)),
      op_clock = (\<lambda>s. case op_clock ops (mo_env s) of (t, e) \<Rightarrow> (t, s\<lparr>mo_env := e\<rparr>)),
      op_sleep = (\<lambda>d s. s\<lparr>mo_env := op_sleep ops d (mo_env s)\<rparr>)\<rparr>"

interpretation monitor: driver_contract "monitored ops" mo_tunnel mo_bad for ops
  by unfold_locales
    (auto simp: monitored_def mo_disconnect_def mo_connect_def mo_lift_def split: prod.splits)


section \<open>Bounds and history of a cycle\<close>

definition frame :: "'e rot_state \<Rightarrow> 'e rot_state \<Rightarrow> bool" where
  "frame s s' \<longleftrightarrow> rs_recent_profile_ids s' = rs_recent_profile_ids s \<and>
     rs_last_profile_id s' = rs_last_profile_id s \<and> rs_last_good_profile_id s' = rs_last_good_profile_id s"

lemma frame_refl [simp]: "frame s s"
  by (simp add: frame_def)

lemma frame_history: "frame s s' \<Longrightarrow> history_ok cfg s' = history_ok cfg s"
  by (simp add: frame_def history_ok_def)

interpretation frame_frame: frame_rules frame
  by unfold_locales (simp_all add: frame_def)

lemma frame_on_env: "preserves frame (on_env m)"
  by (rule preservesI) (auto simp: run_on_env frame_def)

lemmas frame_intros = frame_frame.keep frame_on_env

lemma frame_barrier: "preserves frame set_barrier_failed"
  unfolding set_barrier_failed_def by (rule frame_frame.keep_modify) (simp add: frame_def)

lemma frame_try_profile: "preserves frame (try_profile cfg ops p)"
  unfolding try_profile_def connect_and_check_def cleanup_failed_attempt_def preflight_ok_def
    warm_up_def safe_disconnect_def
  by (intro frame_intros frame_barrier)

lemma frame_stamp: "preserves frame (stamp_rotation ops)"
  unfolding stamp_rotation_def read_clock_def
  by (intro frame_intros frame_frame.keep_modify) (simp add: frame_def)

definition keeps_history :: "rot_config \<Rightarrow> 'e rot_state \<Rightarrow> 'e rot_state \<Rightarrow> bool" where
  "keeps_history cfg s t \<longleftrightarrow> (history_ok cfg s \<longrightarrow> history_ok cfg t)"

interpretation frame_history: frame_rules "keeps_history cfg" for cfg
  by unfold_locales (simp_all add: keeps_history_def)

lemma frame_keeps_history: "preserves frame m \<Longrightarrow> preserves (keeps_history cfg) m"
  by (rule preservesI) (auto simp: keeps_history_def frame_history dest: preservesD)

lemmas history_intros = frame_history.keep frame_keeps_history[OF frame_try_profile]
  frame_keeps_history[OF frame_stamp] frame_keeps_history[OF frame_on_env] frame_history.keep_modify

lemma history_rollback: "preserves (keeps_history cfg) (rollback cfg ops pool)"
  unfolding rollback_def
  by (intro history_intros) (simp add: keeps_history_def remember_history)

lemma history_finish_cycle: "preserves (keeps_history cfg) (finish_cycle cfg ops pool c n rolled)"
  unfolding finish_cycle_def by (intro history_intros history_rollback)

lemma history_mark_good: "preserves (keeps_history cfg) (mark_good cfg p)"
  unfolding mark_good_def by (intro history_intros) (simp add: keeps_history_def remember_history)

lemma history_rotate_loop:
  "preserves (keeps_history cfg) (rotate_loop cfg ops pool c start cands n k rolled)"
proof (induction cands arbitrary: n k rolled)
  case Nil
  show ?case by (simp add: history_finish_cycle)
next
  case (Cons p ps)
  show ?case
    unfolding rotate_loop.simps read_clock_def
    by (intro history_intros history_finish_cycle history_mark_good history_rollback Cons.IH)
qed

lemma history_rotate: "preserves (keeps_history cfg) (rotate cfg ops pool force)"
  unfolding rotate_def Let_def single_node_check_def can_rotate_now_def read_clock_def
  by (intro history_intros history_rotate_loop history_mark_good) (simp add: keeps_history_def)

lemma attempts_results [simp]:
  "rr_attempts (failed_result n c b) = n" "rr_attempts (ok_result p n c b) = n"
  by (simp_all add: failed_result_def ok_result_def)

lemma finish_cycle_attempts:
  "finish_cycle cfg ops pool c n rolled s = (Inr res, s') \<Longrightarrow> rr_attempts res = n"
  by (auto simp: finish_cycle_def run_bind run_seq run_get run_return split: option.splits)

lemma rotate_loop_attempts:
  "rotate_loop cfg ops pool c start cands n k rolled s = (Inr res, s') \<Longrightarrow>
     n \<le> max_attempts_per_cycle cfg \<Longrightarrow>
     n \<le> rr_attempts res \<and> rr_attempts res \<le> max_attempts_per_cycle cfg \<and> rr_attempts res \<le> n + length cands"
proof (induction cands arbitrary: n k rolled s)
  case Nil
  then show ?case using finish_cycle_attempts by fastforce
next
  case (Cons p ps)
  show ?case
  proof (cases "max_attempts_per_cycle cfg \<le> n")
    case True
    then show ?thesis using Cons.prems finish_cycle_attempts[of cfg ops pool c n] by auto
  next
    case False
    have done_or_next: "rr_attempts res = n + 1 \<or>
        (\<exists>b t. rotate_loop cfg ops pool c start ps (n + 1) (k + 1) b t = (Inr res, s'))"
      using Cons.prems(1) False
      by (auto simp: run_bind run_seq run_get run_return run_if run_option split: if_splits option.splits)
    then show ?thesis using Cons.IH[of "n + 1"] False by fastforce
  qed
qed


section \<open>A cycle returns\<close>

definition driver_returns :: "'e rot_ops \<Rightarrow> bool" where
  "driver_returns ops \<longleftrightarrow> (\<forall>p. returns (op_connect ops p) \<and> returns (op_health ops p))"

lemma returns_on_env: "returns m \<Longrightarrow> returns (on_env m)"
proof (rule returnsI)
  fix s :: "'a rot_state" assume m: "returns m"
  obtain x e where "m (rs_env s) = (Inr x, e)" using returnsD[OF m] by blast
  then show "\<exists>x t. on_env m s = (Inr x, t)" by (simp add: on_env_def)
qed

lemma returns_clock: "returns (read_clock ops)"
  by (rule returnsI) (auto simp: read_clock_def on_env_def split: prod.splits)

lemma returns_stamp: "returns (stamp_rotation ops)"
  unfolding stamp_rotation_def by (intro returns_rules returns_clock)

lemma returns_try_profile:
  assumes "driver_returns ops"
  shows "returns (try_profile cfg ops p)"
proof -
  have "returns (warm_up cfg ops)" by (rule returnsI) (simp add: warm_up_def on_env_def act_return_def)
  moreover have "returns (safe_disconnect ops)" "returns set_barrier_failed" "returns (preflight_ok ops p)"
    unfolding safe_disconnect_def set_barrier_failed_def preflight_ok_def by (intro returns_rules)+
  moreover have "returns (on_env (op_connect ops p))" "returns (on_env (op_health ops p))"
    using assms by (auto simp: driver_returns_def intro: returns_on_env)
  ultimately show ?thesis
    unfolding try_profile_def connect_and_check_def cleanup_failed_attempt_def
    by (intro returns_rules) simp_all
qed

lemma returns_rollback: "driver_returns ops \<Longrightarrow> returns (rollback cfg ops pool)"
  unfolding rollback_def by (intro returns_rules returns_try_profile)

lemma returns_finish_cycle: "driver_returns ops \<Longrightarrow> returns (finish_cycle cfg ops pool cat n rolled)"
  unfolding finish_cycle_def by (intro returns_rules returns_rollback returns_stamp)

lemma returns_mark_good: "returns (mark_good cfg p)"
  unfolding mark_good_def by (intro returns_rules)

lemma returns_rotate_loop:
  "driver_returns ops \<Longrightarrow> returns (rotate_loop cfg ops pool cat start cands n k rolled)"
proof (induction cands arbitrary: n k rolled)
  case Nil
  then show ?case by (simp add: returns_finish_cycle)
next
  case (Cons p ps)
  show ?case
    unfolding rotate_loop.simps
    by (intro returns_rules returns_finish_cycle returns_try_profile returns_stamp returns_mark_good
        returns_clock returns_rollback Cons.IH Cons.prems)
qed

lemma returns_rotate: "driver_returns ops \<Longrightarrow> returns (rotate cfg ops pool force)"
  unfolding rotate_def single_node_check_def can_rotate_now_def Let_def
  by (intro returns_rules returns_rotate_loop returns_try_profile returns_mark_good returns_stamp returns_clock)


section \<open>A concrete run\<close>

text \<open>A driver whose health check accepts only profile \<open>b\<close>.\<close>

definition sample_ops :: "unit rot_ops" where
  "sample_ops =
     \<lparr>op_preflight = None, op_disconnect = act_return True, op_connect = (\<lambda>p. act_return True),
      op_health = (\<lambda>p. act_return (if p_id p = ''b'' then ''ok'' else ''down'')),
      op_clock = (\<lambda>e. (0, e)), op_sleep = (\<lambda>d e. e)\<rparr>"

definition sample_rot_config :: rot_config where
  "sample_rot_config =
     \<lparr>recent_keep = 3, min_seconds_between_rotations = 60, conservative_interval_multiplier = 2,
      max_attempts_per_cycle = 5, max_fails_before_rollback = 3,
      max_degraded_seconds_before_rollback = 45, warmup_seconds = 0\<rparr>"

definition sample_pool :: "profile list" where
  "sample_pool = [sample_profile ''a'' VLESS, sample_profile ''b'' TROJAN]"

definition sample_rot_state :: "'e \<Rightarrow> 'e rot_state" where
  "sample_rot_state e =
     \<lparr>rs_last_profile_id = None, rs_recent_profile_ids = [], rs_last_good_profile_id = None,
      rs_last_rotation_at = None, rs_cleanup_barrier_failed = False, rs_env = e\<rparr>"

definition sample_monitor :: "unit monitor" where
  "sample_monitor = \<lparr>mo_env = (), mo_tunnel = TPrior, mo_bad = False\<rparr>"

lemmas rotation_run = rotate_def act_seq_def act_bind_def act_modify_def act_get_def act_return_def
  act_try_def Let_def pool_size_category_def can_rotate_now_def candidates_def blocked_ids_def set_id_def
  read_clock_def on_env_def try_profile_def preflight_ok_def safe_disconnect_def connect_and_check_def
  warm_up_def cleanup_failed_attempt_def mark_good_def remember_def stamp_rotation_def

lemma sample_rotation:
  "rotate sample_rot_config (monitored sample_ops) sample_pool True (sample_rot_state sample_monitor) =
     (Inr (ok_result (sample_profile ''b'' TROJAN) 2 ''conservative'' False),
      \<lparr>rs_last_profile_id = Some ''b'', rs_recent_profile_ids = [''b''], rs_last_good_profile_id = Some ''b'',
       rs_last_rotation_at = Some 0, rs_cleanup_barrier_failed = False,
       rs_env = \<lparr>mo_env = (), mo_tunnel = TUp ''b'', mo_bad = False\<rparr>\<rparr>)"
  by (simp add: rotation_run sample_rot_config_def sample_ops_def sample_pool_def sample_rot_state_def
      sample_monitor_def monitored_def mo_disconnect_def mo_connect_def mo_lift_def numeral_2_eq_2)


section \<open>Properties\<close>



text \<open>
  C0. A rotation cycle always comes to an end with a result: whatever the clock, the pool, the configuration
  and the history, if the driver's \<open>connect\<close> and the health check return (preflight and disconnect may still
  raise), \<open>rotate\<close> returns and raises nothing.
\<close>

theorem rotate_returns:
  assumes "\<forall>p e. \<exists>b e'. op_connect ops p e = (Inr b, e')" and "\<forall>p e. \<exists>h e'. op_health ops p e = (Inr h, e')"
  shows "\<exists>res s'. rotate cfg ops pool force s = (Inr res, s')"
  using assms returnsD[OF returns_rotate[of ops cfg pool force], of s]
  by (auto simp: driver_returns_def returns_def)

theorem rotate_returns_witness:
  "\<exists>res s'. rotate sample_rot_config sample_ops sample_pool False (sample_rot_state ()) = (Inr res, s')"
  by (rule rotate_returns) (simp_all add: sample_ops_def act_return_def ex_bool_eq)



text \<open>
  C0. The history of recent profiles stays well formed: a cycle, however it ends (also by an exception), keeps
  it free of duplicates and no longer than \<open>recent_keep\<close>. Recording a successful profile from outside does
  the same and puts that profile first.
\<close>

theorem rotate_keeps_history:
  assumes "history_ok cfg s"
  shows "history_ok cfg (snd (rotate cfg ops pool force s)) \<and>
    history_ok cfg (record_successful_profile cfg pid s) \<and>
    (pid \<noteq> [] \<and> recent_keep cfg > 0 \<longrightarrow>
      hd (rs_recent_profile_ids (record_successful_profile cfg pid s)) = pid)"
proof -
  have "history_ok cfg (snd (rotate cfg ops pool force s))"
    using preservesD[OF history_rotate, of cfg ops pool force s] assms
    by (metis keeps_history_def prod.collapse)
  moreover have "history_ok cfg (record_successful_profile cfg pid s)"
    using remember_history[OF assms, of pid] assms by (simp add: record_successful_profile_def)
  moreover have "hd (rs_recent_profile_ids (record_successful_profile cfg pid s)) = pid"
    if "pid \<noteq> []" and "recent_keep cfg > 0"
    using that by (cases "recent_keep cfg") (simp_all add: record_successful_profile_def remember_def)
  ultimately show ?thesis by blast
qed

theorem rotate_keeps_history_witness:
  "history_ok sample_rot_config (sample_rot_state ()) \<and>
   history_ok sample_rot_config (snd (rotate sample_rot_config sample_ops sample_pool True (sample_rot_state ()))) \<and>
   hd (rs_recent_profile_ids (record_successful_profile sample_rot_config ''b'' (sample_rot_state ()))) = ''b''"
proof -
  have h: "history_ok sample_rot_config (sample_rot_state ())"
    by (simp add: history_ok_def sample_rot_state_def)
  show ?thesis
    using h rotate_keeps_history[OF h, of sample_ops sample_pool True "''b''"] by (simp add: sample_rot_config_def)
qed

text \<open>
  The candidates of a cycle are profiles of the pool. If the pool has a profile that is neither the last
  one used nor among the recent ones, exactly those profiles are tried, in pool order; otherwise the whole
  pool is.
\<close>

lemma candidates_avoid_recent:
  "candidates s pool =
     (if \<exists>p \<in> set pool. p_id p \<notin> set (rs_recent_profile_ids s) \<and>
           (rs_last_profile_id s = Some (p_id p) \<longrightarrow> p_id p = [])
      then filter (\<lambda>p. p_id p \<notin> set (rs_recent_profile_ids s) \<and>
           (rs_last_profile_id s = Some (p_id p) \<longrightarrow> p_id p = [])) pool
      else pool)"
proof -
  have "i \<notin> blocked_ids s \<longleftrightarrow> i \<notin> set (rs_recent_profile_ids s) \<and> (rs_last_profile_id s = Some i \<longrightarrow> i = [])" for i
    by (auto simp: blocked_ids_def set_id_def split: option.splits if_splits)
  then show ?thesis by (simp add: candidates_def Let_def filter_empty_conv)
qed

lemma candidates_avoid_recent_witness:
  "candidates ((sample_rot_state ())\<lparr>rs_last_profile_id := Some ''a''\<rparr>) sample_pool = [sample_profile ''b'' TROJAN]"
  unfolding candidates_avoid_recent by (simp add: sample_pool_def sample_rot_state_def)

end
