(* ===== verification/Recovery.thy ===== *)
theory Recovery
  imports Persistence
begin

text \<open>
  \<open>src/rotation/recovery.py\<close>: the retry backoff between rotation cycles. The clock value is an
  argument of the methods that read it. Doubling and halving a double are exact, so the real-valued
  model computes the program's numbers. Log and user messages are not modelled.
\<close>

definition MIN_BACKOFF_INTERVAL_SECONDS :: real where
  "MIN_BACKOFF_INTERVAL_SECONDS = 1"

definition MAX_BACKOFF_INTERVAL_SECONDS :: real where
  "MAX_BACKOFF_INTERVAL_SECONDS = 86400"

record recovery =
  rec_base_interval_seconds :: pyval
  rec_max_interval_seconds :: pyval
  rec_consecutive_failures :: nat
  rec_retry_started_at :: "real option"
  rec_retry_interval_seconds :: real

record all_failed_action =
  af_kill_switch_active :: bool
  af_notified :: bool

definition normalized_interval :: "pyval \<Rightarrow> real \<Rightarrow> real" where
  "normalized_interval v dflt =
     (let clamp = (\<lambda>x.
            if x < MIN_BACKOFF_INTERVAL_SECONDS then MIN_BACKOFF_INTERVAL_SECONDS
            else if x > MAX_BACKOFF_INTERVAL_SECONDS then MAX_BACKOFF_INTERVAL_SECONDS
            else x)
      in case v of
           PInt i \<Rightarrow> (case float_of_int i of Inr (FFin x) \<Rightarrow> clamp x | _ \<Rightarrow> dflt)
         | PFloat (FFin x) \<Rightarrow> clamp x
         | _ \<Rightarrow> dflt)"

definition interval_bounds :: "recovery \<Rightarrow> real \<times> real" where
  "interval_bounds r =
     (let base = normalized_interval (rec_base_interval_seconds r) 10;
          maximum = normalized_interval (rec_max_interval_seconds r) 300
      in (base, if maximum < base then base else maximum))"

text \<open>The doubling loop of \<open>backoff_interval\<close>.\<close>

fun backoff_loop :: "nat \<Rightarrow> real \<Rightarrow> real \<Rightarrow> real" where
  "backoff_loop 0 interval maximum = interval"
| "backoff_loop (Suc n) interval maximum =
     (if interval < maximum
      then if interval \<ge> maximum / 2 then maximum else backoff_loop n (interval * 2) maximum
      else interval)"

definition backoff_interval :: "recovery \<Rightarrow> pyval \<Rightarrow> real" where
  "backoff_interval r attempt = (case attempt of
       PInt n \<Rightarrow>
         (if n \<le> 0 then 0
          else case interval_bounds r of (base, maximum) \<Rightarrow> backoff_loop (nat (n - 1)) base maximum)
     | _ \<Rightarrow> 0)"

definition record_failure :: "real \<Rightarrow> recovery \<Rightarrow> real \<times> recovery" where
  "record_failure now r =
     (let r1 = r\<lparr>rec_consecutive_failures := rec_consecutive_failures r + 1\<rparr>;
          interval = backoff_interval r1 (PInt (int (rec_consecutive_failures r1)))
      in (interval, r1\<lparr>rec_retry_started_at := Some now, rec_retry_interval_seconds := interval\<rparr>))"

definition record_success :: "recovery \<Rightarrow> recovery" where
  "record_success r = r\<lparr>rec_consecutive_failures := 0, rec_retry_started_at := None,
     rec_retry_interval_seconds := 0\<rparr>"

definition can_retry_now :: "real \<Rightarrow> bool \<Rightarrow> recovery \<Rightarrow> bool" where
  "can_retry_now now force r =
     (if force then True
      else case rec_retry_started_at r of
          None \<Rightarrow> True
        | Some t0 \<Rightarrow> now - t0 \<ge> rec_retry_interval_seconds r)"

definition handle_all_failed :: "real \<Rightarrow> bool \<Rightarrow> recovery \<Rightarrow> all_failed_action \<times> recovery" where
  "handle_all_failed now kill_switch_active r =
     (case record_failure now r of (interval, r') \<Rightarrow>
        (\<lparr>af_kill_switch_active = kill_switch_active, af_notified = True\<rparr>, r'))"

definition handle_rotation_unavailable :: "real \<Rightarrow> bool \<Rightarrow> recovery \<Rightarrow> all_failed_action \<times> recovery" where
  "handle_rotation_unavailable now kill_switch_active r =
     (case record_failure now r of (interval, r') \<Rightarrow>
        (\<lparr>af_kill_switch_active = kill_switch_active, af_notified = True\<rparr>, r'))"


section \<open>Backoff\<close>

lemma normalized_interval_bounds:
  "1 \<le> dflt \<Longrightarrow> dflt \<le> 86400 \<Longrightarrow> 1 \<le> normalized_interval v dflt \<and> normalized_interval v dflt \<le> 86400"
  by (auto simp: normalized_interval_def Let_def MIN_BACKOFF_INTERVAL_SECONDS_def
      MAX_BACKOFF_INTERVAL_SECONDS_def split: pyval.splits sum.splits pyfloat.splits)

lemma interval_bounds_range:
  "interval_bounds r = (b, m) \<Longrightarrow> 1 \<le> b \<and> b \<le> m \<and> m \<le> 86400"
  using normalized_interval_bounds[of 10 "rec_base_interval_seconds r"]
    normalized_interval_bounds[of 300 "rec_max_interval_seconds r"]
  by (auto simp: interval_bounds_def Let_def)

lemma backoff_loop_min:
  "0 < i \<Longrightarrow> i \<le> m \<Longrightarrow> backoff_loop n i m = min (i * 2 ^ n) m"
proof (induction n arbitrary: i)
  case (Suc n)
  have g: "i * 2 \<le> i * 2 ^ Suc n" using Suc.prems(1) by simp
  consider "i = m" | "i < m" "m / 2 \<le> i" | "i < m" "i < m / 2" using Suc.prems(2) by linarith
  then show ?case
  proof cases
    case 1
    then have "m \<le> i * 2 ^ Suc n" using g Suc.prems(1) by linarith
    then show ?thesis using 1 by (simp only: min_def) simp
  next
    case 2
    then have "m \<le> i * 2 ^ Suc n" using g by linarith
    then show ?thesis using 2 by (simp add: min_def)
  next
    case 3
    then show ?thesis using Suc.IH[of "i * 2"] Suc.prems(1) by (simp add: mult.assoc)
  qed
qed simp

lemma backoff_interval_closed:
  assumes "0 < n" and b: "interval_bounds r = (b, m)"
  shows "backoff_interval r (PInt (int n)) = min (b * 2 ^ (n - 1)) m"
proof -
  have "nat (int n - 1) = n - 1" using assms(1) by linarith
  then show ?thesis
    using assms interval_bounds_range[OF b] backoff_loop_min[of b m "n - 1"]
    by (simp add: backoff_interval_def)
qed

lemma backoff_interval_mono:
  assumes "0 < n" and "n \<le> k"
  shows "backoff_interval r (PInt (int n)) \<le> backoff_interval r (PInt (int k))"
proof -
  obtain b m where b: "interval_bounds r = (b, m)" by fastforce
  have "b * 2 ^ (n - 1) \<le> b * 2 ^ (k - 1)"
    using assms interval_bounds_range[OF b] by (intro mult_left_mono power_increasing) auto
  then show ?thesis using assms b by (simp add: backoff_interval_closed min.coboundedI1 min_le_iff_disj)
qed

section \<open>Properties\<close>

text \<open>
  C0. The backoff in closed form. Whatever the configured values are (missing, non-numeric, not finite, out of
  range), the effective base and maximum satisfy \<open>1 <= base <= maximum <= 86400\<close>; the interval of attempt
  \<open>n >= 1\<close> computed by the doubling loop is \<open>min (base * 2^(n-1)) maximum\<close>, it never decreases with \<open>n\<close>, and
  attempt numbers that are not positive integers give 0.
\<close>

theorem backoff_closed_form:
  "case interval_bounds r of (b, m) \<Rightarrow>
     1 \<le> b \<and> b \<le> m \<and> m \<le> 86400 \<and>
     backoff_interval r (PInt (int (Suc n))) = min (b * 2 ^ n) m \<and>
     backoff_interval r (PInt (int (Suc n))) \<le> backoff_interval r (PInt (int (Suc n + k))) \<and>
     backoff_interval r (PInt (- int k)) = 0 \<and> backoff_interval r (PBool True) = 0"
proof -
  obtain b m where b: "interval_bounds r = (b, m)" by fastforce
  show ?thesis
    using interval_bounds_range[OF b] backoff_interval_closed[OF _ b, of "Suc n"]
      backoff_interval_mono[of "Suc n" "Suc n + k" r]
    by (simp add: b backoff_interval_def del: of_nat_Suc of_nat_add)
qed

text \<open>
  C0. After a failed cycle the next retry waits the backoff of the failures seen so far, unless it is forced:
  \<open>can_retry_now\<close> is false until that many seconds have passed since the failure and true from then on. A
  success makes the next retry immediate and the next failure start again from the base interval.
\<close>

theorem retry_waits_for_backoff:
  assumes "interval_bounds r = (b, m)"
  shows "case record_failure now r of (interval, r') \<Rightarrow>
      interval = min (b * 2 ^ rec_consecutive_failures r) m \<and>
      rec_consecutive_failures r' = rec_consecutive_failures r + 1 \<and>
      can_retry_now t False r' = (t \<ge> now + interval) \<and> can_retry_now t True r' \<and>
      can_retry_now t False (record_success r') \<and> fst (record_failure t (record_success r')) = b"
proof -
  have i: "interval_bounds (r\<lparr>rec_consecutive_failures := k\<rparr>) = (b, m)"
    "interval_bounds (r\<lparr>rec_retry_started_at := x, rec_retry_interval_seconds := y, rec_consecutive_failures := k\<rparr>) = (b, m)"
    for k x y using assms by (simp_all add: interval_bounds_def)
  have "b \<le> m" using interval_bounds_range[OF assms] by simp
  then show ?thesis
    using backoff_interval_closed[OF _ i(1), of "Suc (rec_consecutive_failures r)"]
      backoff_interval_closed[OF _ i(2), of 1]
    by (auto simp: record_failure_def record_success_def can_retry_now_def Let_def)
qed

theorem retry_waits_for_backoff_witness:
  "\<exists>r. interval_bounds r = (10, 300) \<and> rec_consecutive_failures r = 2 \<and> fst (record_failure 5 r) = 40"
proof -
  define r where "r = \<lparr>rec_base_interval_seconds = PNone, rec_max_interval_seconds = PNone,
    rec_consecutive_failures = 2, rec_retry_started_at = None, rec_retry_interval_seconds = 0\<rparr>"
  have b: "interval_bounds r = (10, 300)" by (simp add: interval_bounds_def r_def normalized_interval_def)
  have "fst (record_failure 5 r) = 40"
    using retry_waits_for_backoff[OF b, of 5 5] by (cases "record_failure 5 r") (simp add: r_def)
  then show ?thesis using b by (intro exI[of _ r]) (simp add: r_def)
qed

end
