(* ===== verification/Health.thy ===== *)
theory Health
  imports Profiles
begin

text \<open>
  \<open>src/rotation/health_targets.py\<close>, \<open>src/rotation/health_checker.py\<close> and
  \<open>src/models/connection_state.py\<close>. Running \<open>curl\<close> is the parameter \<open>curl\<close>: from the command line to its
  exit status; \<open>took\<close> is the measured duration in milliseconds. The validation of configured URLs
  (\<open>validate_targets\<close>) is in the theory of the configuration file.
\<close>

section \<open>Connection state\<close>

definition ALLOWED_STATUSES :: "string list" where
  "ALLOWED_STATUSES =
     [''connected'', ''reconnecting'', ''all_failed'', ''normal_network_temp'', ''kill_switch_active'',
      ''kill_switch_failed'', ''kill_switch_disable_failed'', ''dns_restore_failed'', ''waiting_retry'',
      ''rotation_unavailable'', ''recovery_disabled'', ''recovered'', ''standby'', ''runtime_mismatch'',
      ''unsupported_policy'', ''cleanup_failed'']"

definition FAILURE_STATUSES :: "string list" where
  "FAILURE_STATUSES =
     [''all_failed'', ''kill_switch_active'', ''kill_switch_failed'', ''kill_switch_disable_failed'',
      ''dns_restore_failed'', ''normal_network_temp'', ''rotation_unavailable'', ''recovery_disabled'',
      ''waiting_retry'', ''runtime_mismatch'', ''unsupported_policy'', ''cleanup_failed'']"

record connection_state =
  cn_active_profile_id :: string
  cn_connected_at :: "datetime option"
  cn_mode :: string
  cn_tun_active :: bool
  cn_proxy_active :: bool
  cn_kill_switch_active :: bool
  cn_kill_switch_status :: string
  cn_kill_switch_method :: string
  cn_kill_switch_consistent :: bool
  cn_runtime_mismatch_severity :: string
  cn_runtime_artifacts :: "string list"
  cn_lan_gateway_active :: bool
  cn_lan_gateway_interface :: string
  cn_lan_gateway_client_cidr :: string
  cn_lan_gateway_dns_mode :: string
  cn_lan_gateway_status :: string
  cn_status :: string
  cn_last_failure_reason :: string
  cn_last_failure_at :: "datetime option"

definition connection_default :: connection_state where
  "connection_default =
     \<lparr>cn_active_profile_id = [], cn_connected_at = None, cn_mode = ''standby'', cn_tun_active = False,
      cn_proxy_active = False, cn_kill_switch_active = False, cn_kill_switch_status = ''inactive'',
      cn_kill_switch_method = [], cn_kill_switch_consistent = True, cn_runtime_mismatch_severity = [],
      cn_runtime_artifacts = [], cn_lan_gateway_active = False, cn_lan_gateway_interface = [],
      cn_lan_gateway_client_cidr = [], cn_lan_gateway_dns_mode = [],
      cn_lan_gateway_status = ''disabled'', cn_status = ''standby'', cn_last_failure_reason = [],
      cn_last_failure_at = None\<rparr>"

text \<open>The check of \<open>__post_init__\<close>.\<close>

definition connection_init :: "connection_state \<Rightarrow> connection_state res" where
  "connection_init c =
     (if cn_status c \<in> set ALLOWED_STATUSES then Inr c else Inl ValueError)"

definition string_tuple :: "(pyval \<Rightarrow> string) \<Rightarrow> pyval \<Rightarrow> string list" where
  "string_tuple rp v = (case v of PList xs \<Rightarrow> map (py_str rp) xs | _ \<Rightarrow> [])"

definition connection_to_dict :: "py_env \<Rightarrow> connection_state \<Rightarrow> dict" where
  "connection_to_dict E c =
     [(''active_profile_id'', PStr (cn_active_profile_id c)),
      (''connected_at'', dt_to_iso E (cn_connected_at c)),
      (''mode'', PStr (cn_mode c)),
      (''tun_active'', PBool (cn_tun_active c)),
      (''proxy_active'', PBool (cn_proxy_active c)),
      (''kill_switch_active'', PBool (cn_kill_switch_active c)),
      (''kill_switch_status'', PStr (cn_kill_switch_status c)),
      (''kill_switch_method'', PStr (cn_kill_switch_method c)),
      (''kill_switch_consistent'', PBool (cn_kill_switch_consistent c)),
      (''runtime_mismatch_severity'', PStr (cn_runtime_mismatch_severity c)),
      (''runtime_artifacts'', PList (map PStr (cn_runtime_artifacts c))),
      (''lan_gateway_active'', PBool (cn_lan_gateway_active c)),
      (''lan_gateway_interface'', PStr (cn_lan_gateway_interface c)),
      (''lan_gateway_client_cidr'', PStr (cn_lan_gateway_client_cidr c)),
      (''lan_gateway_dns_mode'', PStr (cn_lan_gateway_dns_mode c)),
      (''lan_gateway_status'', PStr (cn_lan_gateway_status c)),
      (''status'', PStr (cn_status c)),
      (''last_failure_reason'', PStr (cn_last_failure_reason c)),
      (''last_failure_at'', dt_to_iso E (cn_last_failure_at c))]"

definition get_str :: "py_env \<Rightarrow> dict \<Rightarrow> string \<Rightarrow> string \<Rightarrow> string" where
  "get_str E d k dflt = py_str (pe_repr E) (dict_get d k (PStr dflt))"

definition get_bool :: "dict \<Rightarrow> string \<Rightarrow> bool \<Rightarrow> bool" where
  "get_bool d k dflt = py_truthy (dict_get d k (PBool dflt))"

definition connection_from_dict :: "py_env \<Rightarrow> dict \<Rightarrow> connection_state res" where
  "connection_from_dict E d =
     res_bind (dt_from_iso E (dict_get d ''connected_at'' PNone)) (\<lambda>con.
     res_bind (dt_from_iso E (dict_get d ''last_failure_at'' PNone)) (\<lambda>fail.
       connection_init
         \<lparr>cn_active_profile_id = get_str E d ''active_profile_id'' [],
          cn_connected_at = con,
          cn_mode = get_str E d ''mode'' ''standby'',
          cn_tun_active = get_bool d ''tun_active'' False,
          cn_proxy_active = get_bool d ''proxy_active'' False,
          cn_kill_switch_active = get_bool d ''kill_switch_active'' False,
          cn_kill_switch_status = get_str E d ''kill_switch_status'' ''inactive'',
          cn_kill_switch_method = get_str E d ''kill_switch_method'' [],
          cn_kill_switch_consistent = get_bool d ''kill_switch_consistent'' True,
          cn_runtime_mismatch_severity = get_str E d ''runtime_mismatch_severity'' [],
          cn_runtime_artifacts = string_tuple (pe_repr E) (dict_get d ''runtime_artifacts'' (PList [])),
          cn_lan_gateway_active = get_bool d ''lan_gateway_active'' False,
          cn_lan_gateway_interface = get_str E d ''lan_gateway_interface'' [],
          cn_lan_gateway_client_cidr = get_str E d ''lan_gateway_client_cidr'' [],
          cn_lan_gateway_dns_mode = get_str E d ''lan_gateway_dns_mode'' [],
          cn_lan_gateway_status = get_str E d ''lan_gateway_status'' ''disabled'',
          cn_status = get_str E d ''status'' ''standby'',
          cn_last_failure_reason = get_str E d ''last_failure_reason'' [],
          cn_last_failure_at = fail\<rparr>))"


section \<open>Health targets\<close>

record health_target_result =
  ht_target :: string
  ht_reachable :: bool
  ht_classification :: string
  ht_curl_exit_code :: "int option"
  ht_latency_ms :: "real option"

record health_probe_result =
  hp_targets :: "health_target_result list"
  hp_success_count :: nat
  hp_required_successes :: int
  hp_classification :: string
  hp_latency_ms :: "real option"

definition hp_reachable :: "health_probe_result \<Rightarrow> bool" where
  "hp_reachable r \<longleftrightarrow> int (hp_success_count r) \<ge> hp_required_successes r"

definition validate_success_quorum :: "pyval \<Rightarrow> string list \<Rightarrow> int res" where
  "validate_success_quorum v targets = (case v of
       PInt n \<Rightarrow> if n < 1 \<or> n > int (length targets) then Inl ValueError else Inr n
     | _ \<Rightarrow> Inl ValueError)"

definition target_failure_classification :: "int \<Rightarrow> string" where
  "target_failure_classification code =
     (if code \<in> set [5, 6] then ''dns_interference_suspected''
      else if code = 22 then ''third_party_service_failure''
      else if code \<in> set [7, 28, 35, 52, 55, 56, 92, 95, 97]
        then ''endpoint_censorship_or_network_interference_suspected''
      else ''target_transport_failure'')"

definition count_reachable :: "health_target_result list \<Rightarrow> nat" where
  "count_reachable rs = length (filter ht_reachable rs)"

definition overall_classification :: "health_target_result list \<Rightarrow> int \<Rightarrow> string" where
  "overall_classification rs required =
     (let successful = count_reachable rs;
          failures = remdups (map ht_classification (filter (\<lambda>r. \<not> ht_reachable r) rs))
      in if int successful \<ge> required then ''healthy''
         else if successful \<noteq> 0 then ''insufficient_target_quorum''
         else if failures = [''dns_interference_suspected''] then ''dns_interference_suspected''
         else if failures = [''third_party_service_failure''] then ''third_party_outage''
         else if failures = [''endpoint_censorship_or_network_interference_suspected'']
           then ''endpoint_censorship_or_network_interference_suspected''
         else if failures = [''probe_unavailable''] then ''probe_unavailable''
         else ''all_targets_unreachable'')"

text \<open>\<open>round(x, 3)\<close> (half to even) and \<open>statistics.median\<close>.\<close>

definition round3 :: "real \<Rightarrow> real" where
  "round3 x =
     (let y = x * 1000; f = \<lfloor>y\<rfloor>; d = y - of_int f
      in of_int (if d < 1 / 2 then f else if d > 1 / 2 then f + 1
                 else if even f then f else f + 1) / 1000)"

definition median :: "real list \<Rightarrow> real" where
  "median xs =
     (let ys = sort xs; n = length ys
      in if odd n then ys ! (n div 2) else (ys ! (n div 2 - 1) + ys ! (n div 2)) / 2)"

definition curl_command :: "bool \<Rightarrow> int \<Rightarrow> string \<Rightarrow> string list" where
  "curl_command via_proxy timeout target =
     [''curl'', ''--silent'', ''--show-error'', ''--fail'', ''--max-time'', int_str timeout,
      ''--output'', ''/dev/null'', ''--write-out'', ''%{http_code}''] @
     (if via_proxy then [''--socks5-hostname'', ''127.0.0.1:2080''] else []) @ [target]"

definition probe_target ::
  "(string list \<Rightarrow> int) \<Rightarrow> (string \<Rightarrow> real) \<Rightarrow> bool \<Rightarrow> int \<Rightarrow> string \<Rightarrow> health_target_result" where
  "probe_target curl took via_proxy timeout target =
     (let code = curl (curl_command via_proxy timeout target)
      in if code = 0
         then \<lparr>ht_target = target, ht_reachable = True, ht_classification = ''ok'',
               ht_curl_exit_code = Some 0, ht_latency_ms = Some (round3 (took target))\<rparr>
         else \<lparr>ht_target = target, ht_reachable = False,
               ht_classification = target_failure_classification code,
               ht_curl_exit_code = Some code, ht_latency_ms = None\<rparr>)"

definition probe_targets ::
  "bool \<Rightarrow> (string list \<Rightarrow> int) \<Rightarrow> (string \<Rightarrow> real) \<Rightarrow> bool \<Rightarrow> string list \<Rightarrow> int \<Rightarrow> pyval
     \<Rightarrow> health_probe_result res" where
  "probe_targets have_curl curl took via_proxy targets timeout quorum =
     res_bind (validate_success_quorum quorum targets) (\<lambda>required.
       if \<not> have_curl then
         Inr \<lparr>hp_targets = map (\<lambda>t. \<lparr>ht_target = t, ht_reachable = False,
                 ht_classification = ''probe_unavailable'', ht_curl_exit_code = None,
                 ht_latency_ms = None\<rparr>) targets,
              hp_success_count = 0, hp_required_successes = required,
              hp_classification = ''probe_unavailable'', hp_latency_ms = None\<rparr>
       else
         let rs = map (probe_target curl took via_proxy timeout) targets;
             ls = List.map_filter ht_latency_ms rs
         in Inr \<lparr>hp_targets = rs, hp_success_count = count_reachable rs,
                 hp_required_successes = required,
                 hp_classification = overall_classification rs required,
                 hp_latency_ms = (if ls \<noteq> [] then Some (round3 (median ls)) else None)\<rparr>)"


section \<open>Deep health check\<close>

record health_check_result =
  hc_status :: string
  hc_latency_ms :: "real option"
  hc_classification :: string

text \<open>
  \<open>_check_full\<close>: \<open>driver_health\<close> and \<open>state\<close> are what the driver's \<open>health_check()\<close> and \<open>status()\<close> returned,
  \<open>verify\<close> probes through the proxy or directly.
\<close>

definition check_full ::
  "string \<Rightarrow> connection_state \<Rightarrow> (bool \<Rightarrow> health_probe_result res) \<Rightarrow> health_check_result res" where
  "check_full driver_health state verify =
     (if driver_health = ''down''
      then Inr \<lparr>hc_status = ''down'', hc_latency_ms = None, hc_classification = ''tunnel_failure''\<rparr>
      else if \<not> cn_tun_active state \<and> \<not> (cn_mode state \<in> set [''sing-box''] \<and> cn_proxy_active state)
      then Inr \<lparr>hc_status = ''down'', hc_latency_ms = None, hc_classification = ''no_active_route''\<rparr>
      else res_bind (verify (\<not> cn_tun_active state)) (\<lambda>probe.
        if \<not> hp_reachable probe
        then Inr \<lparr>hc_status = ''degraded'', hc_latency_ms = None,
                  hc_classification = hp_classification probe\<rparr>
        else if driver_health = ''degraded''
        then Inr \<lparr>hc_status = ''degraded'', hc_latency_ms = hp_latency_ms probe,
                  hc_classification = ''driver_degraded''\<rparr>
        else Inr \<lparr>hc_status = ''ok'', hc_latency_ms = hp_latency_ms probe,
                  hc_classification = hp_classification probe\<rparr>))"

definition health_check_status ::
  "string \<Rightarrow> connection_state \<Rightarrow> (bool \<Rightarrow> health_probe_result res) \<Rightarrow> string res" where
  "health_check_status driver_health state verify =
     res_bind (check_full driver_health state verify) (\<lambda>r. Inr (hc_status r))"


section \<open>Facts\<close>

lemma failure_statuses_allowed: "set FAILURE_STATUSES \<subseteq> set ALLOWED_STATUSES"
  by (simp add: FAILURE_STATUSES_def ALLOWED_STATUSES_def)

lemma connection_round_trip:
  assumes "iso_law E" and "cn_status c \<in> set ALLOWED_STATUSES"
  shows "connection_from_dict E (connection_to_dict E c) = Inr c"
  using assms
  by (simp add: connection_from_dict_def connection_to_dict_def dict_get_def get_str_def get_bool_def
      string_tuple_def connection_init_def comp_def)

lemma connection_init_allowed: "connection_from_dict E d = Inr c \<Longrightarrow> cn_status c \<in> set ALLOWED_STATUSES"
  by (auto simp: connection_from_dict_def connection_init_def split: if_splits)

lemma probe_counts:
  assumes "probe_targets True curl took via targets timeout quorum = Inr r"
  shows "hp_success_count r = length (filter (\<lambda>t. curl (curl_command via timeout t) = 0) targets)"
    and "PInt (hp_required_successes r) = quorum"
    and "hp_classification r = ''healthy'' \<longleftrightarrow> hp_reachable r"
proof -
  define rs where "rs = map (probe_target curl took via timeout) targets"
  from assms obtain req where v: "validate_success_quorum quorum targets = Inr req"
    and r: "hp_success_count r = count_reachable rs" "hp_required_successes r = req"
      "hp_classification r = overall_classification rs req"
    by (auto simp: probe_targets_def Let_def rs_def)
  have "ht_reachable (probe_target curl took via timeout t) \<longleftrightarrow> curl (curl_command via timeout t) = 0" for t
    by (simp add: probe_target_def Let_def)
  then have "count_reachable rs = length (filter (\<lambda>t. curl (curl_command via timeout t) = 0) targets)"
    by (simp add: rs_def count_reachable_def filter_map comp_def)
  then show "hp_success_count r = length (filter (\<lambda>t. curl (curl_command via timeout t) = 0) targets)"
    using r(1) by simp
  show "PInt (hp_required_successes r) = quorum"
    using v r(2) by (auto simp: validate_success_quorum_def split: pyval.splits if_splits)
  show "hp_classification r = ''healthy'' \<longleftrightarrow> hp_reachable r"
    using r by (auto simp: overall_classification_def hp_reachable_def Let_def)
qed

section \<open>Properties\<close>

text \<open>
  C0. A probe counts exactly the targets for which \<open>curl\<close> exited with status 0, keeps the configured quorum, and
  calls the network healthy exactly when that many targets answered; so one reachable target never hides a
  missed quorum and no failure classification is given to a healthy probe.
\<close>

theorem probe_counts_quorum:
  assumes "probe_targets True curl took via targets timeout quorum = Inr r"
  shows "hp_success_count r = length (filter (\<lambda>t. curl (curl_command via timeout t) = 0) targets) \<and>
    PInt (hp_required_successes r) = quorum \<and>
    (hp_classification r = ''healthy'' \<longleftrightarrow> hp_required_successes r \<le> int (hp_success_count r))"
  using probe_counts[OF assms] by (simp add: hp_reachable_def)

theorem probe_counts_quorum_witness:
  "\<exists>r. probe_targets True (\<lambda>c. if last c = ''https://a'' then 0 else 6) (\<lambda>t. 20) False
       [''https://a'', ''https://b''] 5 (PInt 1) = Inr r \<and>
     hp_success_count r = 1 \<and> hp_classification r = ''healthy''"
proof -
  let ?curl = "\<lambda>c. if last c = ''https://a'' then (0::int) else 6"
  obtain r where r: "probe_targets True ?curl (\<lambda>t. 20) False [''https://a'', ''https://b''] 5 (PInt 1) = Inr r"
    by (simp add: probe_targets_def validate_success_quorum_def Let_def)
  show ?thesis using r probe_counts_quorum[OF r] by (simp add: curl_command_def)
qed

text \<open>
  C0. The deep health check reports \<open>ok\<close> only for a working route: the driver said neither down nor degraded,
  the tunnel or (for sing-box) the local proxy is active, and the probe over that same route (through the
  proxy exactly when there is no tunnel) reached its quorum. In particular nothing is probed without an
  active route.
\<close>

theorem health_ok_means_reachable:
  assumes "check_full driver_health state verify = Inr r"
  shows "(hc_status r = ''ok'' \<longleftrightarrow>
      driver_health \<notin> {''down'', ''degraded''} \<and>
      (cn_tun_active state \<or> cn_mode state = ''sing-box'' \<and> cn_proxy_active state) \<and>
      (\<exists>probe. verify (\<not> cn_tun_active state) = Inr probe \<and> hp_reachable probe)) \<and>
    hc_status r \<in> {''ok'', ''degraded'', ''down''}"
  using assms by (auto simp: check_full_def split: if_splits)

theorem health_ok_means_reachable_witness:
  "\<exists>r. check_full ''ok'' connection_default (\<lambda>via. Inl ValueError) = Inr r \<and> hc_status r \<noteq> ''ok''"
proof -
  obtain r where r: "check_full ''ok'' connection_default (\<lambda>via. Inl ValueError) = Inr r"
    by (simp add: check_full_def connection_default_def)
  show ?thesis using r health_ok_means_reachable[OF r] by (simp add: connection_default_def)
qed

text \<open>
  The connection state survives its JSON form: every state whose status is an allowed one is read back
  unchanged, and nothing that is read has another status.
\<close>

lemma connection_state_round_trip:
  assumes "iso_law E" and "connection_init c = Inr c'"
  shows "connection_from_dict E (connection_to_dict E c) = Inr c \<and> c' = c \<and>
    (\<forall>d x. connection_from_dict E d = Inr x \<longrightarrow> cn_status x \<in> set ALLOWED_STATUSES)"
  using assms connection_round_trip[OF assms(1), of c] connection_init_allowed
  by (auto simp: connection_init_def split: if_splits)

lemma connection_state_round_trip_witness:
  "connection_from_dict sample_env (connection_to_dict sample_env connection_default) = Inr connection_default"
proof -
  have "connection_init connection_default = Inr connection_default" by code_simp
  from connection_state_round_trip[OF sample_iso_law this] show ?thesis by blast
qed

end
