(* ===== verification/Firewall_Rules.thy ===== *)
theory Firewall_Rules
  imports Py_Text
begin

text \<open>
  The rule generators of \<open>src/core/kill_switch.py\<close>: the nftables commands, the batch script and the
  iptables/ip6tables commands, as lists of command words. \<open>kill_switch\<close> holds the configuration fields
  of the class; its collaborators and its \<open>method\<close> field are in theory \<open>Kill_Switch\<close>.
\<close>

section \<open>Constants and configuration\<close>

definition WATCHDOGVPN_TABLE :: string where "WATCHDOGVPN_TABLE = ''watchdogvpn''"

definition WATCHDOGVPN_CHAIN :: string where "WATCHDOGVPN_CHAIN = ''output''"

definition WATCHDOGVPN_CAPTURE_GUARD_CHAIN :: string where
  "WATCHDOGVPN_CAPTURE_GUARD_CHAIN = ''capture_postrouting''"

definition WATCHDOGVPN_IPTABLES_CHAIN :: string where
  "WATCHDOGVPN_IPTABLES_CHAIN = ''WATCHDOGVPN-OUTPUT''"

definition WATCHDOGVPN_COMMENT :: string where
  "WATCHDOGVPN_COMMENT = ''WatchdogVPN kill switch''"

definition WATCHDOGVPN_NFT_COMMENT :: string where
  "WATCHDOGVPN_NFT_COMMENT = [CHR 0x22] @ WATCHDOGVPN_COMMENT @ [CHR 0x22]"

definition SING_BOX_CAPTURE_MARK :: string where "SING_BOX_CAPTURE_MARK = ''0x2023''"

definition SING_BOX_OUTBOUND_MARK :: string where "SING_BOX_OUTBOUND_MARK = ''0x2024''"

definition SING_BOX_TUN_DNS_ENDPOINTS :: "string list" where
  "SING_BOX_TUN_DNS_ENDPOINTS = [''172.19.0.2'']"

definition DEFAULT_LAN_CIDRS :: "string list" where
  "DEFAULT_LAN_CIDRS = [''10.0.0.0/8'', ''172.16.0.0/12'', ''192.168.0.0/16'', ''169.254.0.0/16'']"

definition LOOPBACK_CIDRS :: "string list" where
  "LOOPBACK_CIDRS = [''127.0.0.0/8'', ''::1/128'']"

record kill_switch =
  ks_tunnel_interface :: string
  ks_block_ipv6 :: bool
  ks_allow_lan :: bool
  ks_allowed_endpoints :: "string list"
  ks_direct_egress_uid :: "int option"
  ks_lan_cidrs :: "string list"

definition default_kill_switch :: kill_switch where
  "default_kill_switch =
     \<lparr>ks_tunnel_interface = ''wdvpn-tun0'', ks_block_ipv6 = True, ks_allow_lan = True,
      ks_allowed_endpoints = [], ks_direct_egress_uid = None, ks_lan_cidrs = DEFAULT_LAN_CIDRS\<rparr>"


section \<open>nftables\<close>

definition nft_rule_in_chain :: "string \<Rightarrow> string list \<Rightarrow> string list" where
  "nft_rule_in_chain chain tokens =
     [''nft'', ''add'', ''rule'', ''inet'', WATCHDOGVPN_TABLE, chain] @ butlast tokens @
     [''counter'', last tokens, ''comment'', WATCHDOGVPN_NFT_COMMENT]"

definition nft_rule :: "string list \<Rightarrow> string list" where
  "nft_rule tokens = nft_rule_in_chain WATCHDOGVPN_CHAIN tokens"

definition nft_lan_rules :: "kill_switch \<Rightarrow> string list list" where
  "nft_lan_rules ks = map (\<lambda>cidr. nft_rule [''ip'', ''daddr'', cidr, ''accept'']) (ks_lan_cidrs ks)"

definition nft_loopback_destination_rules :: "string list list" where
  "nft_loopback_destination_rules =
     map (\<lambda>cidr. nft_rule [if CHR '':'' \<in> set cidr then ''ip6'' else ''ip'', ''daddr'', cidr, ''accept''])
       LOOPBACK_CIDRS"

definition nft_family :: "ip_addr \<Rightarrow> string" where
  "nft_family a = (if ip_version a = 6 then ''ip6'' else ''ip'')"

definition parsed_endpoints :: "kill_switch \<Rightarrow> ip_addr list" where
  "parsed_endpoints ks = List.map_filter ip_address (ks_allowed_endpoints ks)"

definition nft_endpoint_rules :: "kill_switch \<Rightarrow> string list list" where
  "nft_endpoint_rules ks =
     map (\<lambda>a. nft_rule [nft_family a, ''daddr'', ip_str a, ''accept'']) (parsed_endpoints ks)"

definition nft_direct_egress_rules :: "kill_switch \<Rightarrow> string list list" where
  "nft_direct_egress_rules ks = (case ks_direct_egress_uid ks of
       None \<Rightarrow> []
     | Some uid \<Rightarrow>
         [nft_rule [''meta'', ''skuid'', int_str uid, ''meta'', ''mark'', SING_BOX_OUTBOUND_MARK, ''accept'']])"

definition nft_internal_dns_rules :: "string list list" where
  "nft_internal_dns_rules =
     concat (map (\<lambda>endpoint.
       map (\<lambda>protocol. nft_rule [''ip'', ''daddr'', endpoint, protocol, ''dport'', ''53'', ''accept''])
         [''udp'', ''tcp'']) SING_BOX_TUN_DNS_ENDPOINTS)"

definition nft_dns_leak_block_rules :: "string list list" where
  "nft_dns_leak_block_rules =
     map (\<lambda>port. nft_rule [''udp'', ''dport'', port, ''reject'']) [''53'', ''853''] @
     map (\<lambda>port. nft_rule [''tcp'', ''dport'', port, ''reject'']) [''53'', ''853'']"

definition nft_capture_egress_rules :: "string list list" where
  "nft_capture_egress_rules = [nft_rule [''meta'', ''mark'', SING_BOX_CAPTURE_MARK, ''accept'']]"

definition nft_capture_guard_rules :: "kill_switch \<Rightarrow> string list list" where
  "nft_capture_guard_rules ks =
     [nft_rule_in_chain WATCHDOGVPN_CAPTURE_GUARD_CHAIN
        [''meta'', ''mark'', SING_BOX_CAPTURE_MARK, ''oifname'', ks_tunnel_interface ks, ''accept''],
      nft_rule_in_chain WATCHDOGVPN_CAPTURE_GUARD_CHAIN
        [''meta'', ''mark'', SING_BOX_CAPTURE_MARK, ''drop'']]"

definition nft_terminal_drop_rules :: "string list list" where
  "nft_terminal_drop_rules =
     map (\<lambda>protocol. nft_rule [''meta'', ''l4proto'', protocol, ''drop''])
       [''tcp'', ''udp'', ''icmp'', ''ipv6-icmp''] @ [nft_rule [''drop'']]"

definition nft_chain_command :: "string \<Rightarrow> string \<Rightarrow> string \<Rightarrow> string list" where
  "nft_chain_command chain hook policy =
     [''nft'', ''add'', ''chain'', ''inet'', WATCHDOGVPN_TABLE, chain, ''{'', ''type'', ''filter'',
      ''hook'', hook, ''priority'', ''0;'', ''policy'', policy, ''}'']"

definition nft_enable_commands :: "kill_switch \<Rightarrow> string list list" where
  "nft_enable_commands ks =
     [[''nft'', ''add'', ''table'', ''inet'', WATCHDOGVPN_TABLE],
      nft_chain_command WATCHDOGVPN_CHAIN ''output'' ''drop;'',
      nft_chain_command WATCHDOGVPN_CAPTURE_GUARD_CHAIN ''postrouting'' ''accept;''] @
     nft_capture_guard_rules ks @
     [nft_rule [''oifname'', ''lo'', ''accept'']] @
     nft_loopback_destination_rules @
     [nft_rule [''oifname'', ks_tunnel_interface ks, ''accept'']] @
     nft_direct_egress_rules ks @
     nft_endpoint_rules ks @
     nft_internal_dns_rules @
     nft_dns_leak_block_rules @
     nft_capture_egress_rules @
     [nft_rule [''ct'', ''state'', ''established,related'', ''accept'']] @
     (if ks_allow_lan ks then nft_lan_rules ks else []) @
     (if \<not> ks_block_ipv6 ks then [nft_rule [''ip6'', ''daddr'', ''::/0'', ''accept'']] else []) @
     nft_terminal_drop_rules"

definition expected_nft_rule_count :: "kill_switch \<Rightarrow> nat" where
  "expected_nft_rule_count ks =
     19 + length (filter (\<lambda>e. ip_address e \<noteq> None) (ks_allowed_endpoints ks))
     + (if ks_direct_egress_uid ks \<noteq> None then 1 else 0)
     + (if ks_allow_lan ks then length (ks_lan_cidrs ks) else 0)
     + (if \<not> ks_block_ipv6 ks then 1 else 0)"

text \<open>The characters a batch token may have without quoting: \<open>[A-Za-z0-9_./:@,+-]+\<close>.\<close>

definition plain_token :: "string \<Rightarrow> bool" where
  "plain_token t \<longleftrightarrow> t \<noteq> [] \<and> list_all (\<lambda>c. let n = py_code c in
     (65 \<le> n \<and> n \<le> 90) \<or> (97 \<le> n \<and> n \<le> 122) \<or> (48 \<le> n \<and> n \<le> 57) \<or> c \<in> set ''_./:@,+-'') t"

definition quote_token :: "string \<Rightarrow> string" where
  "quote_token t =
     [CHR 0x22] @ replace_char (CHR 0x22) [CHR 0x5C, CHR 0x22] (replace_char (CHR 0x5C) [CHR 0x5C, CHR 0x5C] t)
     @ [CHR 0x22]"

definition nft_batch_token :: "string \<Rightarrow> string" where
  "nft_batch_token t =
     (if t = ''{'' \<or> t = ''}'' \<or> py_endswith t '';'' \<or> t = WATCHDOGVPN_NFT_COMMENT then t
      else if plain_token t then t
      else quote_token t)"

definition nft_batch_line :: "string list \<Rightarrow> string" where
  "nft_batch_line command = py_join '' '' (map nft_batch_token (tl command))"

definition nft_batch_script :: "string list list \<Rightarrow> string" where
  "nft_batch_script commands = py_join [CHR 0x0A] (map nft_batch_line commands) @ [CHR 0x0A]"


section \<open>iptables\<close>

definition comment_tokens :: "string list" where
  "comment_tokens = [''-m'', ''comment'', ''--comment'', WATCHDOGVPN_COMMENT]"

text \<open>\<open>_iptables_rule_command\<close>: the comment match goes in front of the first \<open>-j\<close>.\<close>

definition iptables_rule_command :: "string \<Rightarrow> string list \<Rightarrow> string list" where
  "iptables_rule_command binary tokens =
     [binary, ''-A'', WATCHDOGVPN_IPTABLES_CHAIN] @ takeWhile (\<lambda>t. t \<noteq> ''-j'') tokens @ comment_tokens @
     dropWhile (\<lambda>t. t \<noteq> ''-j'') tokens"

definition iptables_direct_egress_rules :: "kill_switch \<Rightarrow> string \<Rightarrow> string list list" where
  "iptables_direct_egress_rules ks binary = (case ks_direct_egress_uid ks of
       None \<Rightarrow> []
     | Some uid \<Rightarrow>
         [iptables_rule_command binary
            [''-m'', ''owner'', ''--uid-owner'', int_str uid, ''-m'', ''mark'', ''--mark'',
             SING_BOX_OUTBOUND_MARK, ''-j'', ''ACCEPT'']])"

definition iptables_lan_rules :: "kill_switch \<Rightarrow> string \<Rightarrow> string list list" where
  "iptables_lan_rules ks binary =
     map (\<lambda>cidr. [binary, ''-A'', WATCHDOGVPN_IPTABLES_CHAIN, ''-d'', cidr] @ comment_tokens @ [''-j'', ''ACCEPT''])
       (ks_lan_cidrs ks)"

definition iptables_endpoint_rules :: "kill_switch \<Rightarrow> string list list" where
  "iptables_endpoint_rules ks =
     map (\<lambda>a. [''iptables'', ''-A'', WATCHDOGVPN_IPTABLES_CHAIN, ''-d'', ip_str a] @ comment_tokens @
         [''-j'', ''ACCEPT''])
       (filter (\<lambda>a. ip_version a = 4) (parsed_endpoints ks))"

definition ip6tables_endpoint_rules :: "kill_switch \<Rightarrow> string list list" where
  "ip6tables_endpoint_rules ks =
     map (\<lambda>a. [''ip6tables'', ''-A'', WATCHDOGVPN_IPTABLES_CHAIN, ''-d'', ip_str a] @ comment_tokens @
         [''-j'', ''ACCEPT''])
       (filter (\<lambda>a. ip_version a = 6) (parsed_endpoints ks))"

definition iptables_internal_dns_rules :: "string \<Rightarrow> string list list" where
  "iptables_internal_dns_rules binary =
     concat (map (\<lambda>a.
       if binary = ''iptables'' \<and> ip_version a \<noteq> 4 then []
       else if binary = ''ip6tables'' \<and> ip_version a \<noteq> 6 then []
       else map (\<lambda>protocol.
           [binary, ''-A'', WATCHDOGVPN_IPTABLES_CHAIN, ''-d'', ip_str a, ''-p'', protocol, ''--dport'', ''53''] @
           comment_tokens @ [''-j'', ''ACCEPT'']) [''udp'', ''tcp''])
       (List.map_filter ip_address SING_BOX_TUN_DNS_ENDPOINTS))"

definition iptables_dns_leak_block_rules :: "string \<Rightarrow> string list list" where
  "iptables_dns_leak_block_rules binary =
     concat (map (\<lambda>protocol. map (\<lambda>port.
         [binary, ''-A'', WATCHDOGVPN_IPTABLES_CHAIN, ''-p'', protocol, ''--dport'', port] @
         comment_tokens @ [''-j'', ''REJECT'']) [''53'', ''853'']) [''udp'', ''tcp''])"

definition established_rule :: "string \<Rightarrow> string list" where
  "established_rule binary =
     [binary, ''-A'', WATCHDOGVPN_IPTABLES_CHAIN, ''-m'', ''conntrack'', ''--ctstate'', ''ESTABLISHED,RELATED''] @
     comment_tokens @ [''-j'', ''ACCEPT'']"

definition ip6tables_enable_commands :: "kill_switch \<Rightarrow> string list list" where
  "ip6tables_enable_commands ks =
     [[''ip6tables'', ''-N'', WATCHDOGVPN_IPTABLES_CHAIN],
      [''ip6tables'', ''-A'', WATCHDOGVPN_IPTABLES_CHAIN, ''-o'', ''lo''] @ comment_tokens @ [''-j'', ''ACCEPT''],
      [''ip6tables'', ''-A'', WATCHDOGVPN_IPTABLES_CHAIN, ''-d'', ''::1/128''] @ comment_tokens @ [''-j'', ''ACCEPT''],
      [''ip6tables'', ''-A'', WATCHDOGVPN_IPTABLES_CHAIN, ''-o'', ks_tunnel_interface ks] @ comment_tokens @
        [''-j'', ''ACCEPT'']] @
     iptables_direct_egress_rules ks ''ip6tables'' @
     ip6tables_endpoint_rules ks @
     iptables_internal_dns_rules ''ip6tables'' @
     iptables_dns_leak_block_rules ''ip6tables'' @
     [established_rule ''ip6tables'',
      [''ip6tables'', ''-A'', WATCHDOGVPN_IPTABLES_CHAIN] @ comment_tokens @ [''-j'', ''REJECT''],
      [''ip6tables'', ''-I'', ''OUTPUT'', ''-j'', WATCHDOGVPN_IPTABLES_CHAIN]]"

text \<open>The command list of \<open>_enable_iptables\<close>; \<open>have6\<close> tells whether \<open>ip6tables\<close> is installed.\<close>

definition iptables_enable_commands :: "kill_switch \<Rightarrow> bool \<Rightarrow> string list list" where
  "iptables_enable_commands ks have6 =
     [[''iptables'', ''-N'', WATCHDOGVPN_IPTABLES_CHAIN],
      [''iptables'', ''-A'', WATCHDOGVPN_IPTABLES_CHAIN, ''-o'', ''lo''] @ comment_tokens @ [''-j'', ''ACCEPT''],
      [''iptables'', ''-A'', WATCHDOGVPN_IPTABLES_CHAIN, ''-d'', ''127.0.0.0/8''] @ comment_tokens @ [''-j'', ''ACCEPT''],
      [''iptables'', ''-A'', WATCHDOGVPN_IPTABLES_CHAIN, ''-o'', ks_tunnel_interface ks] @ comment_tokens @
        [''-j'', ''ACCEPT'']] @
     iptables_direct_egress_rules ks ''iptables'' @
     iptables_endpoint_rules ks @
     iptables_internal_dns_rules ''iptables'' @
     iptables_dns_leak_block_rules ''iptables'' @
     [established_rule ''iptables''] @
     (if ks_allow_lan ks then iptables_lan_rules ks ''iptables'' else []) @
     [[''iptables'', ''-A'', WATCHDOGVPN_IPTABLES_CHAIN] @ comment_tokens @ [''-j'', ''REJECT''],
      [''iptables'', ''-I'', ''OUTPUT'', ''-j'', WATCHDOGVPN_IPTABLES_CHAIN]] @
     (if ks_block_ipv6 ks \<and> have6 then ip6tables_enable_commands ks else [])"

definition expected_iptables_commands :: "kill_switch \<Rightarrow> string \<Rightarrow> string list list" where
  "expected_iptables_commands ks binary =
     [iptables_rule_command binary [''-o'', ''lo'', ''-j'', ''ACCEPT''],
      iptables_rule_command binary
        [''-d'', if binary = ''ip6tables'' then ''::1/128'' else ''127.0.0.0/8'', ''-j'', ''ACCEPT''],
      iptables_rule_command binary [''-o'', ks_tunnel_interface ks, ''-j'', ''ACCEPT'']] @
     iptables_direct_egress_rules ks binary @
     (if binary = ''ip6tables'' then ip6tables_endpoint_rules ks else iptables_endpoint_rules ks) @
     iptables_internal_dns_rules binary @
     iptables_dns_leak_block_rules binary @
     [iptables_rule_command binary
        [''-m'', ''conntrack'', ''--ctstate'', ''ESTABLISHED,RELATED'', ''-j'', ''ACCEPT'']] @
     (if binary = ''iptables'' \<and> ks_allow_lan ks then iptables_lan_rules ks binary else []) @
     [iptables_rule_command binary [''-j'', ''REJECT'']]"

definition expected_iptables_rules :: "kill_switch \<Rightarrow> string \<Rightarrow> (string \<times> string list) list" where
  "expected_iptables_rules ks binary =
     map (\<lambda>(i, command).
         (''missing_managed_rule:'' @ binary @ ''/'' @ int_str (int i), drop 3 command))
       (enumerate 0 (expected_iptables_commands ks binary))"


section \<open>Reading the generated rules\<close>

text \<open>The chain, match words and verdict of an \<open>add rule\<close> command.\<close>

definition rule_view :: "string list \<Rightarrow> (string \<times> string list \<times> string) option" where
  "rule_view command =
     (if take 5 command = [''nft'', ''add'', ''rule'', ''inet'', WATCHDOGVPN_TABLE]
      then let body = drop 6 command in
        Some (command ! 5, take (length body - 4) body, body ! (length body - 3))
      else None)"

definition chain_rules :: "string \<Rightarrow> string list list \<Rightarrow> (string list \<times> string) list" where
  "chain_rules chain commands =
     map snd (filter (\<lambda>r. fst r = chain) (List.map_filter rule_view commands))"

lemma rule_view_rule [simp]: "rule_view (nft_rule_in_chain chain tokens) = Some (chain, butlast tokens, last tokens)"
  by (simp add: rule_view_def nft_rule_in_chain_def nth_append)

lemma chain_rules_Nil [simp]: "chain_rules c [] = []"
  by (simp add: chain_rules_def map_filter_def)

lemma chain_rules_append [simp]: "chain_rules c (xs @ ys) = chain_rules c xs @ chain_rules c ys"
  by (simp add: chain_rules_def map_filter_def)

lemma chain_rules_Cons:
  "chain_rules c (x # xs) = (case rule_view x of
      Some (c', r) \<Rightarrow> if c' = c then r # chain_rules c xs else chain_rules c xs
    | None \<Rightarrow> chain_rules c xs)"
  by (auto simp: chain_rules_def map_filter_def split: option.splits)

lemma chain_rules_rule [simp]:
  "chain_rules c (nft_rule_in_chain c' tokens # xs) =
     (if c' = c then (butlast tokens, last tokens) # chain_rules c xs else chain_rules c xs)"
  by (simp add: chain_rules_Cons)

lemma chain_rules_map [simp]:
  "chain_rules c (map (\<lambda>x. nft_rule_in_chain c' (f x)) xs) =
     (if c' = c then map (\<lambda>x. (butlast (f x), last (f x))) xs else [])"
  by (cases "c' = c"; induction xs; simp)

lemma chain_rules_other [simp]:
  "chain_rules c ([''nft'', ''add'', ''table'', ''inet'', WATCHDOGVPN_TABLE] # xs) = chain_rules c xs"
  "chain_rules c (nft_chain_command a b d # xs) = chain_rules c xs"
  by (simp_all add: chain_rules_Cons rule_view_def nft_chain_command_def)

lemma chain_names [simp]:
  "WATCHDOGVPN_CAPTURE_GUARD_CHAIN \<noteq> WATCHDOGVPN_CHAIN" "WATCHDOGVPN_CHAIN \<noteq> WATCHDOGVPN_CAPTURE_GUARD_CHAIN"
  by (simp_all add: WATCHDOGVPN_CAPTURE_GUARD_CHAIN_def WATCHDOGVPN_CHAIN_def)

text \<open>What the output chain accepts before and after the DNS rejects, in words.\<close>

definition accepts_before_dns :: "kill_switch \<Rightarrow> string list list" where
  "accepts_before_dns ks =
     [[''oifname'', ''lo''], [''ip'', ''daddr'', ''127.0.0.0/8''], [''ip6'', ''daddr'', ''::1/128''],
      [''oifname'', ks_tunnel_interface ks]] @
     (case ks_direct_egress_uid ks of None \<Rightarrow> []
      | Some uid \<Rightarrow> [[''meta'', ''skuid'', int_str uid, ''meta'', ''mark'', SING_BOX_OUTBOUND_MARK]]) @
     map (\<lambda>a. [nft_family a, ''daddr'', ip_str a]) (parsed_endpoints ks) @
     [[''ip'', ''daddr'', ''172.19.0.2'', ''udp'', ''dport'', ''53''],
      [''ip'', ''daddr'', ''172.19.0.2'', ''tcp'', ''dport'', ''53'']]"

definition dns_matches :: "string list list" where
  "dns_matches = [[''udp'', ''dport'', ''53''], [''udp'', ''dport'', ''853''],
     [''tcp'', ''dport'', ''53''], [''tcp'', ''dport'', ''853'']]"

definition accepts_after_dns :: "kill_switch \<Rightarrow> string list list" where
  "accepts_after_dns ks =
     [[''meta'', ''mark'', SING_BOX_CAPTURE_MARK], [''ct'', ''state'', ''established,related'']] @
     (if ks_allow_lan ks then map (\<lambda>cidr. [''ip'', ''daddr'', cidr]) (ks_lan_cidrs ks) else []) @
     (if \<not> ks_block_ipv6 ks then [[''ip6'', ''daddr'', ''::/0'']] else [])"

definition terminal_rules :: "(string list \<times> string) list" where
  "terminal_rules =
     [([''meta'', ''l4proto'', ''tcp''], ''drop''), ([''meta'', ''l4proto'', ''udp''], ''drop''),
      ([''meta'', ''l4proto'', ''icmp''], ''drop''), ([''meta'', ''l4proto'', ''ipv6-icmp''], ''drop''),
      ([], ''drop'')]"

lemmas nft_rule_defs = nft_capture_guard_rules_def nft_loopback_destination_rules_def LOOPBACK_CIDRS_def
  nft_direct_egress_rules_def nft_endpoint_rules_def nft_internal_dns_rules_def SING_BOX_TUN_DNS_ENDPOINTS_def
  nft_dns_leak_block_rules_def nft_capture_egress_rules_def nft_lan_rules_def nft_terminal_drop_rules_def
  nft_rule_def

lemma output_chain_rules:
  "chain_rules WATCHDOGVPN_CHAIN (nft_enable_commands ks) =
     map (\<lambda>m. (m, ''accept'')) (accepts_before_dns ks) @ map (\<lambda>m. (m, ''reject'')) dns_matches @
     map (\<lambda>m. (m, ''accept'')) (accepts_after_dns ks) @ terminal_rules"
  by (cases "ks_direct_egress_uid ks")
    (simp_all add: nft_enable_commands_def nft_rule_defs accepts_before_dns_def dns_matches_def
      accepts_after_dns_def terminal_rules_def comp_def)

lemma guard_chain_rules:
  "chain_rules WATCHDOGVPN_CAPTURE_GUARD_CHAIN (nft_enable_commands ks) =
     [([''meta'', ''mark'', SING_BOX_CAPTURE_MARK, ''oifname'', ks_tunnel_interface ks], ''accept''),
      ([''meta'', ''mark'', SING_BOX_CAPTURE_MARK], ''drop'')]"
  by (cases "ks_direct_egress_uid ks") (simp_all add: nft_enable_commands_def nft_rule_defs)

lemma length_parsed_endpoints:
  "length (parsed_endpoints ks) = length (filter (\<lambda>e. ip_address e \<noteq> None) (ks_allowed_endpoints ks))"
  by (simp add: parsed_endpoints_def map_filter_def)

lemma rule_count:
  "length (chain_rules WATCHDOGVPN_CHAIN (nft_enable_commands ks)) +
   length (chain_rules WATCHDOGVPN_CAPTURE_GUARD_CHAIN (nft_enable_commands ks)) = expected_nft_rule_count ks"
  unfolding output_chain_rules guard_chain_rules expected_nft_rule_count_def
  by (cases "ks_direct_egress_uid ks")
    (simp_all add: accepts_before_dns_def dns_matches_def accepts_after_dns_def terminal_rules_def
      length_parsed_endpoints)


section \<open>Filtering semantics\<close>

text \<open>
  nftables evaluates the rules of a base chain in order; \<open>accept\<close>, \<open>drop\<close> and \<open>reject\<close> end the evaluation,
  and a packet no rule matches gets the policy. The evaluation and the matching of the words of a rule
  against a packet belong to nftables: both are parameters, \<open>first_match\<close> states that behaviour.
\<close>

definition first_match ::
  "(string \<Rightarrow> (string list \<times> string) list \<Rightarrow> 'p \<Rightarrow> string) \<Rightarrow> (string list \<Rightarrow> 'p \<Rightarrow> bool) \<Rightarrow> bool" where
  "first_match verdict matches \<longleftrightarrow>
     (\<forall>pol p. verdict pol [] p = pol) \<and>
     (\<forall>pol m v rs p. verdict pol ((m, v) # rs) p = (if matches m p then v else verdict pol rs p))"

fun eval_chain :: "(string list \<Rightarrow> 'p \<Rightarrow> bool) \<Rightarrow> string \<Rightarrow> (string list \<times> string) list \<Rightarrow> 'p \<Rightarrow> string" where
  "eval_chain matches pol [] p = pol"
| "eval_chain matches pol ((m, v) # rs) p = (if matches m p then v else eval_chain matches pol rs p)"

lemma first_match_eval: "first_match (eval_chain matches) matches"
  by (simp add: first_match_def)

lemma first_match_append:
  assumes "first_match verdict matches"
  shows "verdict pol (map (\<lambda>m. (m, v)) ms @ rs) p = (if \<exists>m \<in> set ms. matches m p then v else verdict pol rs p)"
  using assms by (induction ms) (simp_all add: first_match_def)

lemma terminal_verdict:
  "first_match verdict matches \<Longrightarrow> verdict ''drop'' terminal_rules p = ''drop''"
  by (simp add: first_match_def terminal_rules_def)

lemma output_verdict:
  assumes "first_match verdict matches"
  shows "verdict ''drop'' (chain_rules WATCHDOGVPN_CHAIN (nft_enable_commands ks)) p =
    (if \<exists>m \<in> set (accepts_before_dns ks). matches m p then ''accept''
     else if \<exists>m \<in> set dns_matches. matches m p then ''reject''
     else if \<exists>m \<in> set (accepts_after_dns ks). matches m p then ''accept''
     else ''drop'')"
  by (simp only: output_chain_rules first_match_append[OF assms] terminal_verdict[OF assms])


text \<open>The policy word of the \<open>add chain\<close> command of a chain.\<close>

definition chain_policy :: "string \<Rightarrow> string list list \<Rightarrow> string option" where
  "chain_policy chain commands =
     map_option (\<lambda>c. butlast (c ! 14))
       (find (\<lambda>c. take 6 c = [''nft'', ''add'', ''chain'', ''inet'', WATCHDOGVPN_TABLE, chain]) commands)"

lemma chain_policies:
  "chain_policy WATCHDOGVPN_CHAIN (nft_enable_commands ks) = Some ''drop''"
  "chain_policy WATCHDOGVPN_CAPTURE_GUARD_CHAIN (nft_enable_commands ks) = Some ''accept''"
  by (simp_all add: chain_policy_def nft_enable_commands_def nft_chain_command_def)


section \<open>The iptables rules the inspector expects\<close>

definition appended :: "string \<Rightarrow> string list list \<Rightarrow> string list list" where
  "appended binary commands =
     map (drop 3) (filter (\<lambda>c. take 3 c = [binary, ''-A'', WATCHDOGVPN_IPTABLES_CHAIN]) commands)"

lemma expected_rules_snd:
  "map snd (expected_iptables_rules ks binary) = map (drop 3) (expected_iptables_commands ks binary)"
proof -
  have "map (\<lambda>x. drop 3 (snd x)) (enumerate n cs) = map (drop 3) cs" for n and cs :: "string list list"
    by (induction cs arbitrary: n) simp_all
  then show ?thesis by (simp add: expected_iptables_rules_def comp_def case_prod_beta)
qed

definition append_for :: "string \<Rightarrow> string list \<Rightarrow> bool" where
  "append_for b c \<longleftrightarrow> take 3 c = [b, ''-A'', WATCHDOGVPN_IPTABLES_CHAIN]"

lemma append_for_Cons [simp]:
  "append_for b (b' # ''-A'' # WATCHDOGVPN_IPTABLES_CHAIN # ts) \<longleftrightarrow> b' = b"
  "\<not> append_for b [b', ''-N'', c]"
  "\<not> append_for b [b', ''-I'', c, d, e]"
  by (simp_all add: append_for_def)

lemma appended_append [simp]: "appended b (xs @ ys) = appended b xs @ appended b ys"
  by (simp add: appended_def)

lemma appended_Nil [simp]: "appended b [] = []"
  by (simp add: appended_def)

lemma appended_Cons [simp]:
  "appended b (c # cs) = (if append_for b c then drop 3 c # appended b cs else appended b cs)"
  by (simp add: appended_def append_for_def)

lemma appended_all: "list_all (append_for b) cs \<Longrightarrow> appended b cs = map (drop 3) cs"
  by (induction cs) simp_all

lemma appended_none: "list_all (\<lambda>c. \<not> append_for b c) cs \<Longrightarrow> appended b cs = []"
  by (induction cs) simp_all

lemma append_for_rule [simp]: "append_for b (iptables_rule_command b' ts) \<longleftrightarrow> b' = b"
  by (simp add: iptables_rule_command_def)

lemma append_for_generated:
  "list_all (append_for b) (iptables_direct_egress_rules ks b)"
  "list_all (append_for b) (iptables_internal_dns_rules b)"
  "list_all (append_for b) (iptables_dns_leak_block_rules b)"
  "list_all (append_for b) (iptables_lan_rules ks b)"
  "list_all (append_for ''iptables'') (iptables_endpoint_rules ks)"
  "list_all (append_for ''ip6tables'') (ip6tables_endpoint_rules ks)"
  "append_for b (established_rule b)"
  by (auto simp: iptables_direct_egress_rules_def iptables_internal_dns_rules_def established_rule_def
      iptables_dns_leak_block_rules_def iptables_lan_rules_def iptables_endpoint_rules_def
      ip6tables_endpoint_rules_def list_all_iff split: option.split)

lemma append_for_other: "append_for b c \<Longrightarrow> b \<noteq> b' \<Longrightarrow> \<not> append_for b' c"
  by (auto simp: append_for_def)

lemmas appended_generated = append_for_generated(1-6)[THEN appended_all]

lemma appended_other:
  "list_all (append_for b) cs \<Longrightarrow> b \<noteq> b' \<Longrightarrow> appended b' cs = []"
  by (rule appended_none) (auto simp: list_all_iff dest: append_for_other)

lemma appended_ip6_none: "appended ''iptables'' (ip6tables_enable_commands ks) = []"
proof -
  have e: "\<not> append_for ''iptables'' (established_rule ''ip6tables'')"
    by (rule append_for_other[OF append_for_generated(7)]) simp
  show ?thesis
    unfolding ip6tables_enable_commands_def
    using appended_other[OF append_for_generated(1)[of "''ip6tables''" ks], of "''iptables''"]
      appended_other[OF append_for_generated(2)[of "''ip6tables''"], of "''iptables''"]
      appended_other[OF append_for_generated(3)[of "''ip6tables''"], of "''iptables''"]
      appended_other[OF append_for_generated(6)[of ks], of "''iptables''"] e
    by simp
qed

lemma established_tail:
  "drop 3 (established_rule b) =
     drop 3 (iptables_rule_command b [''-m'', ''conntrack'', ''--ctstate'', ''ESTABLISHED,RELATED'', ''-j'', ''ACCEPT''])"
  by (simp add: established_rule_def iptables_rule_command_def)

lemma iptables_expected_tail:
  assumes "ks_tunnel_interface ks \<noteq> ''-j''"
  shows "appended ''iptables'' (iptables_enable_commands ks have6) =
    map snd (expected_iptables_rules ks ''iptables'')"
  unfolding expected_rules_snd iptables_enable_commands_def expected_iptables_commands_def
  using assms
  by (simp add: appended_generated appended_ip6_none append_for_generated(7) established_tail)
    (simp add: iptables_rule_command_def)

lemma ip6tables_expected_tail:
  assumes "ks_tunnel_interface ks \<noteq> ''-j''"
  shows "appended ''ip6tables'' (ip6tables_enable_commands ks) =
    map snd (expected_iptables_rules ks ''ip6tables'')"
  unfolding expected_rules_snd ip6tables_enable_commands_def expected_iptables_commands_def
  using assms
  by (simp add: appended_generated append_for_generated(7) established_tail)
    (simp add: iptables_rule_command_def)


section \<open>Properties\<close>

text \<open>A packet given by the matches it satisfies.\<close>

definition sample_matches :: "string list \<Rightarrow> string list list \<Rightarrow> bool" where
  "sample_matches m p \<longleftrightarrow> m = [] \<or> m \<in> set p"

text \<open>
  C2. What the generated nftables output chain lets out. With the chain's own policy, a packet is accepted only
  if it matches one of the listed exceptions; a DNS or DNS-over-TLS packet (ports 53 and 853) that is not for
  the loopback, the tunnel interface, the marked direct-egress user, an allowed endpoint or the tunnel's own
  resolver is rejected, before the established-connection, capture-mark, LAN and IPv6 exceptions are
  considered; everything else is dropped. How the words of a rule match a packet is a parameter.
\<close>

theorem output_chain_verdict:
  assumes "first_match verdict matches"
    and "chain_policy WATCHDOGVPN_CHAIN (nft_enable_commands ks) = Some pol"
  shows "verdict pol (chain_rules WATCHDOGVPN_CHAIN (nft_enable_commands ks)) p =
    (if \<exists>m \<in> set (accepts_before_dns ks). matches m p then ''accept''
     else if \<exists>m \<in> set dns_matches. matches m p then ''reject''
     else if \<exists>m \<in> set (accepts_after_dns ks). matches m p then ''accept''
     else ''drop'')"
  using output_verdict[OF assms(1)] assms(2) by (simp add: chain_policies)

theorem output_chain_verdict_witness:
  "eval_chain sample_matches ''drop'' (chain_rules WATCHDOGVPN_CHAIN (nft_enable_commands default_kill_switch))
     [[''udp'', ''dport'', ''53''], [''ct'', ''state'', ''established,related'']] = ''reject''"
  using output_chain_verdict[OF first_match_eval chain_policies(1), of sample_matches default_kill_switch
      "[[''udp'', ''dport'', ''53''], [''ct'', ''state'', ''established,related'']]"]
  by (simp add: sample_matches_def accepts_before_dns_def dns_matches_def default_kill_switch_def
      parsed_endpoints_def map_filter_def)

text \<open>
  C34. The capture guard. In the generated postrouting chain a packet with the capture mark leaves only through
  the tunnel interface; packets without the mark are not touched by the chain.
\<close>

theorem capture_guard_verdict:
  assumes "first_match verdict matches"
    and "chain_policy WATCHDOGVPN_CAPTURE_GUARD_CHAIN (nft_enable_commands ks) = Some pol"
  shows "verdict pol (chain_rules WATCHDOGVPN_CAPTURE_GUARD_CHAIN (nft_enable_commands ks)) p =
    (if matches [''meta'', ''mark'', SING_BOX_CAPTURE_MARK, ''oifname'', ks_tunnel_interface ks] p
     then ''accept''
     else if matches [''meta'', ''mark'', SING_BOX_CAPTURE_MARK] p then ''drop''
     else ''accept'')"
  using assms by (simp add: guard_chain_rules chain_policies first_match_def)

theorem capture_guard_verdict_witness:
  "eval_chain sample_matches ''accept''
     (chain_rules WATCHDOGVPN_CAPTURE_GUARD_CHAIN (nft_enable_commands default_kill_switch))
     [[''meta'', ''mark'', SING_BOX_CAPTURE_MARK]] = ''drop''"
  using capture_guard_verdict[OF first_match_eval chain_policies(2), of sample_matches default_kill_switch
      "[[''meta'', ''mark'', SING_BOX_CAPTURE_MARK]]"]
  by (simp add: sample_matches_def)

text \<open>
  The number of rules the inspector requires is the number of rules the generator emits, for every
  configuration: with any endpoints (also malformed ones, which both skip), LAN ranges, user id and flags.
\<close>

lemma generated_rule_count:
  "length (chain_rules WATCHDOGVPN_CHAIN (nft_enable_commands ks)) +
   length (chain_rules WATCHDOGVPN_CAPTURE_GUARD_CHAIN (nft_enable_commands ks)) = expected_nft_rule_count ks"
  by (rule rule_count)

text \<open>
  C0. The iptables inspector expects exactly the rules that were installed: for either family, the rules the
  enable sequence appends to the managed chain are, in order and word by word, those of
  \<open>_expected_iptables_rules\<close>, whether or not \<open>ip6tables\<close> is present.
\<close>

theorem iptables_expected_rules:
  assumes "ks_tunnel_interface ks \<noteq> ''-j''"
  shows "appended ''iptables'' (iptables_enable_commands ks have6) =
      map snd (expected_iptables_rules ks ''iptables'') \<and>
    appended ''ip6tables'' (ip6tables_enable_commands ks) =
      map snd (expected_iptables_rules ks ''ip6tables'')"
  using iptables_expected_tail[OF assms] ip6tables_expected_tail[OF assms] by blast

theorem iptables_expected_rules_witness:
  "appended ''iptables'' (iptables_enable_commands default_kill_switch True) =
      map snd (expected_iptables_rules default_kill_switch ''iptables'') \<and>
    appended ''ip6tables'' (ip6tables_enable_commands default_kill_switch) =
      map snd (expected_iptables_rules default_kill_switch ''ip6tables'')"
  by (rule iptables_expected_rules) (simp add: default_kill_switch_def)

end
