(* ===== verification/Kill_Switch.thy ===== *)
theory Kill_Switch
  imports Firewall_Rules Effects "HOL-Library.List_Lexorder" "HOL-Library.Char_ord"
begin

text \<open>
  \<open>src/core/kill_switch.py\<close>, the class itself: reading the firewall back (\<open>_inspect_nftables\<close>,
  \<open>_inspect_iptables\<close>, \<open>status\<close>) and the operations \<open>enable\<close>, \<open>apply_atomic\<close>, \<open>disable\<close>. The injected
  functions \<open>runner\<close>, \<open>nft_batch_runner\<close> and \<open>which\<close> are the fields of \<open>ks_ops\<close>, actions on an arbitrary
  host type. The regular expressions of the inspector are written out as scanners.
\<close>

section \<open>Scanners\<close>

definition strip_word :: "string \<Rightarrow> string \<Rightarrow> string option" where
  "strip_word w s = (if py_startswith s w then Some (drop (length w) s) else None)"

definition skip_ws1 :: "string \<Rightarrow> string option" where
  "skip_ws1 s = (if s \<noteq> [] \<and> py_isspace (hd s) then Some (dropWhile py_isspace s) else None)"

text \<open>\<open>chain\s+NAME\s*{\<close> at the start of a string.\<close>

definition chain_header :: "string \<Rightarrow> string \<Rightarrow> string option" where
  "chain_header name s =
     Option.bind (strip_word ''chain'' s) (\<lambda>a. Option.bind (skip_ws1 a) (\<lambda>b.
     Option.bind (strip_word name b) (\<lambda>c. strip_word ''{'' (dropWhile py_isspace c))))"

text \<open>\<open>(.*?)^\s*}\<close>: the text up to the first line whose first visible character is a brace.\<close>

fun body_until :: "bool \<Rightarrow> string \<Rightarrow> string option" where
  "body_until bol [] = None"
| "body_until bol (c # cs) =
     (if bol \<and> strip_word ''}'' (dropWhile py_isspace (c # cs)) \<noteq> None then Some []
      else map_option ((#) c) (body_until (c = CHR 0x0A) cs))"

text \<open>\<open>re.search\<close> of a chain definition; the flag tells whether the previous character is a word character.\<close>

fun search_chain :: "string \<Rightarrow> bool \<Rightarrow> string \<Rightarrow> string option" where
  "search_chain name pw [] = None"
| "search_chain name pw (c # cs) =
     (case (if pw then None else Option.bind (chain_header name (c # cs)) (body_until False)) of
        Some body \<Rightarrow> Some body
      | None \<Rightarrow> search_chain name (word_char c) cs)"

definition pair_at :: "string \<Rightarrow> string \<Rightarrow> string \<Rightarrow> bool" where
  "pair_at w1 w2 s = (case Option.bind (Option.bind (strip_word w1 s) skip_ws1) (strip_word w2) of
       None \<Rightarrow> False | Some [] \<Rightarrow> True | Some (d # ds) \<Rightarrow> \<not> word_char d)"

text \<open>\<open>re.search(r"\bW1\s+W2\b", s)\<close>.\<close>

fun search_pair :: "string \<Rightarrow> string \<Rightarrow> bool \<Rightarrow> string \<Rightarrow> bool" where
  "search_pair w1 w2 pw [] = False"
| "search_pair w1 w2 pw (c # cs) =
     ((\<not> pw \<and> pair_at w1 w2 (c # cs)) \<or> search_pair w1 w2 (word_char c) cs)"

text \<open>The digits of \<open>0x0*([0-9a-fA-F]+)\b\<close> after the prefix, and what follows.\<close>

definition hex_literal :: "string \<Rightarrow> (string \<times> string) option" where
  "hex_literal s =
     (if py_startswith s ''0x'' then
        let r = drop 2 s; run = takeWhile is_hex r; rest = dropWhile is_hex r in
        if run \<noteq> [] \<and> (rest = [] \<or> \<not> word_char (hd rest)) then Some (run, rest) else None
      else None)"

definition hex_at :: "bool \<Rightarrow> string \<Rightarrow> (string \<times> string) option" where
  "hex_at pw s = (if pw then None else hex_literal s)"

lemma hex_at_length:
  "hex_at pw (c # cs) = Some (run, rest) \<Longrightarrow> length rest < Suc (length cs)"
  using length_dropWhile_le[of is_hex "drop 2 (c # cs)"]
  by (auto simp: hex_at_def hex_literal_def Let_def split: if_splits)

function norm_hex :: "bool \<Rightarrow> string \<Rightarrow> string" where
  "norm_hex pw [] = []"
| "norm_hex pw (c # cs) =
     (case hex_at pw (c # cs) of
        Some (run, rest) \<Rightarrow> ''0x'' @ hex_digits (digits_val 16 run) @ norm_hex True rest
      | None \<Rightarrow> c # norm_hex (word_char c) cs)"
  by pat_completeness auto
termination by (relation "measure (length \<circ> snd)") (auto simp: hex_at_length)

definition managed_nft_rule_lines :: "string \<Rightarrow> string list" where
  "managed_nft_rule_lines chain =
     filter (py_in (''comment '' @ WATCHDOGVPN_COMMENT))
       (map (\<lambda>line. norm_hex False (py_join '' '' (py_split_ws (replace_char (CHR 0x22) [] line))))
         (py_splitlines chain))"

definition nft_rule_present :: "string list \<Rightarrow> string list \<Rightarrow> string \<Rightarrow> bool" where
  "nft_rule_present lines match_tokens verdict =
     list_ex (\<lambda>line. py_in (py_join '' '' match_tokens) line \<and>
       py_in ('' '' @ verdict @ '' comment '') ('' '' @ line @ '' '')) lines"


section \<open>Inspecting nftables\<close>

record command_result =
  cr_returncode :: int
  cr_stdout :: string
  cr_stderr :: string

record firewall_state =
  fw_method :: string
  fw_artifacts_present :: bool
  fw_active :: bool
  fw_consistent :: bool
  fw_mismatch_reasons :: "string list"

definition no_artifacts :: "string \<Rightarrow> firewall_state" where
  "no_artifacts m = \<lparr>fw_method = m, fw_artifacts_present = False, fw_active = False,
     fw_consistent = True, fw_mismatch_reasons = []\<rparr>"

text \<open>Insertion into the dict \<open>checks\<close>: a later entry with the same reason replaces the earlier one.\<close>

definition put_checks :: "(string \<times> bool) list \<Rightarrow> (string \<times> bool) list \<Rightarrow> (string \<times> bool) list" where
  "put_checks new d = foldl (\<lambda>d kv. dict_put d (fst kv) (snd kv)) d new"

definition nft_checks :: "kill_switch \<Rightarrow> string \<Rightarrow> string \<Rightarrow> string list \<Rightarrow> string list \<Rightarrow> (string \<times> bool) list" where
  "nft_checks ks chain guard lines guard_lines =
     put_checks
       ([(''missing_output_hook'', search_pair ''hook'' ''output'' False chain),
         (''missing_drop_policy'', search_pair ''policy'' ''drop'' False chain),
         (''missing_loopback_allow'', nft_rule_present lines [''oifname'', ''lo''] ''accept''),
         (''missing_loopback_ipv4_allow'', nft_rule_present lines [''ip'', ''daddr'', ''127.0.0.0/8''] ''accept''),
         (''missing_loopback_ipv6_allow'', nft_rule_present lines [''ip6'', ''daddr'', ''::1''] ''accept''),
         (''missing_tunnel_allow'', nft_rule_present lines [''oifname'', ks_tunnel_interface ks] ''accept''),
         (''missing_capture_output_allow'',
            nft_rule_present lines [''meta'', ''mark'', SING_BOX_CAPTURE_MARK] ''accept''),
         (''missing_capture_guard_hook'', search_pair ''hook'' ''postrouting'' False guard),
         (''missing_capture_guard_accept_policy'', search_pair ''policy'' ''accept'' False guard),
         (''missing_capture_guard_tunnel_allow'',
            nft_rule_present guard_lines
              [''meta'', ''mark'', SING_BOX_CAPTURE_MARK, ''oifname'', ks_tunnel_interface ks] ''accept''),
         (''missing_capture_guard_drop'',
            nft_rule_present guard_lines [''meta'', ''mark'', SING_BOX_CAPTURE_MARK] ''drop''),
         (''missing_established_allow'',
            nft_rule_present lines [''ct'', ''state'', ''established,related''] ''accept''),
         (''missing_terminal_drop'',
            list_ex (\<lambda>line. py_startswith line ''counter '' \<and>
              py_in '' drop comment '' ('' '' @ line @ '' '')) lines)] @
        (case ks_direct_egress_uid ks of
           None \<Rightarrow> []
         | Some uid \<Rightarrow>
             [(''missing_direct_egress_allow:'' @ int_str uid,
               nft_rule_present lines
                 [''meta'', ''skuid'', int_str uid, ''meta'', ''mark'', SING_BOX_OUTBOUND_MARK] ''accept'')]) @
        map (\<lambda>a. (''missing_endpoint_allow:'' @ ip_str a,
               nft_rule_present lines [nft_family a, ''daddr'', ip_str a] ''accept''))
          (parsed_endpoints ks) @
        concat (map (\<lambda>endpoint. map (\<lambda>protocol.
              (''missing_internal_dns_allow:'' @ endpoint @ ''/'' @ protocol,
               nft_rule_present lines [''ip'', ''daddr'', endpoint, protocol, ''dport'', ''53''] ''accept''))
            [''udp'', ''tcp'']) SING_BOX_TUN_DNS_ENDPOINTS) @
        concat (map (\<lambda>protocol. map (\<lambda>port.
              (''missing_dns_reject:'' @ protocol @ ''/'' @ port,
               nft_rule_present lines [protocol, ''dport'', port] ''reject''))
            [''53'', ''853'']) [''udp'', ''tcp'']) @
        (if ks_allow_lan ks then
           map (\<lambda>cidr. (''missing_lan_allow:'' @ cidr,
               nft_rule_present lines [''ip'', ''daddr'', cidr] ''accept'')) (ks_lan_cidrs ks)
         else []) @
        (if \<not> ks_block_ipv6 ks then
           [(''missing_ipv6_allow'', nft_rule_present lines [''ip6'', ''daddr'', ''::/0''] ''accept'')]
         else []) @
        map (\<lambda>protocol. (''missing_terminal_drop:'' @ protocol,
               nft_rule_present lines [''meta'', ''l4proto'', protocol] ''drop''))
          [''tcp'', ''udp'', ''icmp'', ''ipv6-icmp''])
       []"

definition nft_verdict_state :: "kill_switch \<Rightarrow> string \<Rightarrow> string \<Rightarrow> firewall_state" where
  "nft_verdict_state ks chain guard =
     (let active = search_pair ''hook'' ''output'' False chain \<and> search_pair ''policy'' ''drop'' False chain;
          lines = managed_nft_rule_lines chain;
          guard_lines = managed_nft_rule_lines guard;
          n = length lines + length guard_lines;
          reasons = map fst (filter (\<lambda>c. \<not> snd c) (nft_checks ks chain guard lines guard_lines)) @
            (if n \<noteq> expected_nft_rule_count ks
             then [''managed_rule_count:'' @ int_str (int n) @ ''/'' @ int_str (int (expected_nft_rule_count ks))]
             else [])
      in \<lparr>fw_method = ''nftables'', fw_artifacts_present = True, fw_active = active,
          fw_consistent = (active \<and> reasons = []), fw_mismatch_reasons = reasons\<rparr>)"

definition inspect_nft_listing :: "kill_switch \<Rightarrow> command_result \<Rightarrow> firewall_state" where
  "inspect_nft_listing ks result =
     (if cr_returncode result \<noteq> 0 then no_artifacts ''nftables''
      else
        let find_chain = (\<lambda>name. case search_chain name False (cr_stdout result) of None \<Rightarrow> [] | Some b \<Rightarrow> b)
        in nft_verdict_state ks (find_chain WATCHDOGVPN_CHAIN) (find_chain WATCHDOGVPN_CAPTURE_GUARD_CHAIN))"


section \<open>Inspecting iptables\<close>

text \<open>Replace every word that follows the word \<open>tok\<close>; the words tested are those before the replacement.\<close>

definition canon_after :: "string \<Rightarrow> (string \<Rightarrow> string) \<Rightarrow> string list \<Rightarrow> string list" where
  "canon_after tok f ts = (case ts of
       [] \<Rightarrow> []
     | t # us \<Rightarrow> t # map (\<lambda>(a, b). if a = tok then f b else b) (zip (t # us) us))"

definition canon_destination :: "string \<Rightarrow> string" where
  "canon_destination s = (case ip_address s of
       None \<Rightarrow> s
     | Some a \<Rightarrow> ip_str a @ ''/'' @ (if ip_version a = 4 then ''32'' else ''128''))"

definition canon_mark :: "string \<Rightarrow> string" where
  "canon_mark s = (case py_int_base0 (before_char (CHR ''/'') s) of
       None \<Rightarrow> s
     | Some i \<Rightarrow> ''0x'' @ hex_int i)"

definition canonicalize_iptables_tokens :: "string list \<Rightarrow> string list" where
  "canonicalize_iptables_tokens ts = canon_after ''--mark'' canon_mark (canon_after ''-d'' canon_destination ts)"

definition iptables_chain_rules :: "string \<Rightarrow> string list list" where
  "iptables_chain_rules output =
     List.map_filter (\<lambda>line. case shlex_split line of
         Inl e \<Rightarrow> None
       | Inr tokens \<Rightarrow>
           if take 2 tokens = [''-A'', WATCHDOGVPN_IPTABLES_CHAIN]
           then Some (canonicalize_iptables_tokens (drop 2 tokens)) else None)
       (py_splitlines output)"

text \<open>\<open>all(any(token == c for c in iterator) for token in expected)\<close> on one shared iterator.\<close>

fun consume_all :: "string list \<Rightarrow> string list \<Rightarrow> bool" where
  "consume_all [] actual = True"
| "consume_all (t # ts) [] = False"
| "consume_all (t # ts) (a # as) = (if t = a then consume_all ts as else consume_all (t # ts) as)"

definition iptables_rule_contains :: "string list \<Rightarrow> string list \<Rightarrow> bool" where
  "iptables_rule_contains actual expected = consume_all (canonicalize_iptables_tokens expected) actual"

definition iptables_rule_matches_expected :: "string list \<Rightarrow> string list \<Rightarrow> bool" where
  "iptables_rule_matches_expected actual expected =
     (let canonical = canonicalize_iptables_tokens expected in
      if take 2 canonical = [''-m'', ''comment''] then take (length canonical) actual = canonical
      else iptables_rule_contains actual canonical)"

definition inspect_iptables_listing ::
  "kill_switch \<Rightarrow> string \<Rightarrow> command_result \<Rightarrow> command_result \<Rightarrow> firewall_state" where
  "inspect_iptables_listing ks binary chain_result jump_result =
     (let has_chain = (cr_returncode chain_result = 0); has_jump = (cr_returncode jump_result = 0) in
      if \<not> has_chain \<and> \<not> has_jump then no_artifacts binary
      else
        let actual = iptables_chain_rules (if has_chain then cr_stdout chain_result else []);
            expected = expected_iptables_rules ks binary;
            missing = map fst (filter (\<lambda>le. \<not> list_ex (\<lambda>r. iptables_rule_matches_expected r (snd le)) actual) expected);
            terminal = comment_tokens @ [''-j'', ''REJECT''];
            has_terminal = list_ex (\<lambda>r. take (length terminal) r = terminal) actual;
            active = has_chain \<and> has_jump \<and> has_terminal;
            reasons = (if has_chain then [] else [''missing_managed_chain'']) @
              (if has_jump then [] else [''missing_output_jump'']) @
              (if has_terminal then [] else [''missing_terminal_reject'']) @ missing @
              (if length actual \<noteq> length expected
               then [''managed_rule_count:'' @ int_str (int (length actual)) @ ''/'' @ int_str (int (length expected))]
               else [])
        in \<lparr>fw_method = binary, fw_artifacts_present = True, fw_active = active,
            fw_consistent = (active \<and> reasons = []), fw_mismatch_reasons = reasons\<rparr>)"


section \<open>The host\<close>

record 'h ks_ops =
  kso_run :: "string list \<Rightarrow> ('h, command_result) act"
  kso_batch :: "string \<Rightarrow> ('h, command_result) act"
  kso_which :: "string \<Rightarrow> bool"

record 'h ks_state =
  kst_method :: "string option"
  kst_host :: 'h

definition on_host :: "('h, 'a) act \<Rightarrow> ('h ks_state, 'a) act" where
  "on_host m s = (case m (kst_host s) of (r, h) \<Rightarrow> (r, s\<lparr>kst_host := h\<rparr>))"

definition ks_run :: "'h ks_ops \<Rightarrow> string list \<Rightarrow> ('h ks_state, command_result) act" where
  "ks_run ops command = on_host (kso_run ops command)"

definition run_required :: "'h ks_ops \<Rightarrow> string list \<Rightarrow> ('h ks_state, bool) act" where
  "run_required ops command = act_bind (ks_run ops command) (\<lambda>r. act_return (cr_returncode r = 0))"

definition run_optional :: "'h ks_ops \<Rightarrow> string list \<Rightarrow> ('h ks_state, bool) act" where
  "run_optional ops command = act_bind (ks_run ops command) (\<lambda>r. act_return (cr_returncode r = 0))"

definition inspect_nftables :: "'h ks_ops \<Rightarrow> kill_switch \<Rightarrow> ('h ks_state, firewall_state) act" where
  "inspect_nftables ops ks =
     act_bind (ks_run ops [''nft'', ''list'', ''table'', ''inet'', WATCHDOGVPN_TABLE])
       (\<lambda>r. act_return (inspect_nft_listing ks r))"

definition inspect_iptables_family :: "'h ks_ops \<Rightarrow> kill_switch \<Rightarrow> string \<Rightarrow> ('h ks_state, firewall_state) act" where
  "inspect_iptables_family ops ks binary =
     act_bind (ks_run ops [binary, ''-S'', WATCHDOGVPN_IPTABLES_CHAIN]) (\<lambda>chain_result.
     act_bind (ks_run ops [binary, ''-C'', ''OUTPUT'', ''-j'', WATCHDOGVPN_IPTABLES_CHAIN]) (\<lambda>jump_result.
       act_return (inspect_iptables_listing ks binary chain_result jump_result)))"

definition inspect_iptables :: "'h ks_ops \<Rightarrow> kill_switch \<Rightarrow> ('h ks_state, firewall_state) act" where
  "inspect_iptables ops ks =
     act_bind (inspect_iptables_family ops ks ''iptables'') (\<lambda>ipv4.
     act_bind (if ks_block_ipv6 ks \<and> kso_which ops ''ip6tables''
               then inspect_iptables_family ops ks ''ip6tables'' else act_return (no_artifacts ''ip6tables'')) (\<lambda>ipv6.
       let have6 = kso_which ops ''ip6tables'';
           artifacts = fw_artifacts_present ipv4 \<or> fw_artifacts_present ipv6;
           reasons = fw_mismatch_reasons ipv4 @
             (if ks_block_ipv6 ks \<and> have6 then map (\<lambda>r. ''ipv6:'' @ r) (fw_mismatch_reasons ipv6) else []) @
             (if ks_block_ipv6 ks \<and> \<not> have6 then [''ipv6_backend_unavailable''] else []);
           active = fw_active ipv4 \<and> (\<not> ks_block_ipv6 ks \<or> \<not> have6 \<or> fw_active ipv6)
       in act_return \<lparr>fw_method = ''iptables'', fw_artifacts_present = artifacts, fw_active = active,
            fw_consistent = (artifacts \<and> active \<and> reasons = []), fw_mismatch_reasons = reasons\<rparr>))"


section \<open>Operations\<close>

record kill_switch_status =
  kss_available :: bool
  kss_artifacts_present :: bool
  kss_active :: bool
  kss_method :: "string option"
  kss_rules_applied :: bool
  kss_consistent :: bool
  kss_mismatch_reasons :: "string list"

definition detect_method :: "'h ks_ops \<Rightarrow> string option" where
  "detect_method ops =
     (if kso_which ops ''nft'' then Some ''nftables''
      else if kso_which ops ''iptables'' then Some ''iptables''
      else None)"

text \<open>\<open>self.method or self.detect_method()\<close>.\<close>

definition chosen_method :: "'h ks_ops \<Rightarrow> string option \<Rightarrow> string option" where
  "chosen_method ops m = (case m of Some (c # cs) \<Rightarrow> Some (c # cs) | _ \<Rightarrow> detect_method ops)"

definition ks_status :: "'h ks_ops \<Rightarrow> kill_switch \<Rightarrow> ('h ks_state, kill_switch_status) act" where
  "ks_status ops ks =
     act_bind (if kso_which ops ''nft'' then act_bind (inspect_nftables ops ks) (\<lambda>f. act_return [f]) else act_return []) (\<lambda>s1.
     act_bind (if kso_which ops ''iptables'' then act_bind (inspect_iptables ops ks) (\<lambda>f. act_return [f]) else act_return []) (\<lambda>s2.
     act_bind (act_get kst_method) (\<lambda>m.
       let states = s1 @ s2;
           artifacts = filter fw_artifacts_present states;
           reasons = concat (map fw_mismatch_reasons artifacts) @
             (if length artifacts > 1 then [''multiple_firewall_backends_present''] else []);
           active = list_ex fw_active artifacts;
           consistent = (length artifacts \<le> 1 \<and> list_all fw_consistent artifacts)
       in act_return
            \<lparr>kss_available = (states \<noteq> []), kss_artifacts_present = (artifacts \<noteq> []),
             kss_active = active,
             kss_method = (if length artifacts = 1 then Some (fw_method (hd artifacts))
               else if artifacts \<noteq> [] then Some (py_join ''+'' (map fw_method artifacts))
               else chosen_method ops m),
             kss_rules_applied = (artifacts \<noteq> [] \<and> active \<and> consistent),
             kss_consistent = consistent,
             kss_mismatch_reasons = sort (remdups reasons)\<rparr>)))"

definition ks_is_active :: "'h ks_ops \<Rightarrow> kill_switch \<Rightarrow> ('h ks_state, bool) act" where
  "ks_is_active ops ks = act_bind (ks_status ops ks) (\<lambda>st. act_return (kss_active st))"

definition set_method :: "string option \<Rightarrow> ('h ks_state, unit) act" where
  "set_method m = act_modify (\<lambda>s. s\<lparr>kst_method := m\<rparr>)"

definition disable_nftables :: "'h ks_ops \<Rightarrow> ('h ks_state, bool) act" where
  "disable_nftables ops = run_optional ops [''nft'', ''delete'', ''table'', ''inet'', WATCHDOGVPN_TABLE]"

definition disable_family :: "'h ks_ops \<Rightarrow> string \<Rightarrow> ('h ks_state, bool) act" where
  "disable_family ops binary =
     act_bind (run_optional ops [binary, ''-D'', ''OUTPUT'', ''-j'', WATCHDOGVPN_IPTABLES_CHAIN]) (\<lambda>a.
     act_bind (run_optional ops [binary, ''-F'', WATCHDOGVPN_IPTABLES_CHAIN]) (\<lambda>b.
     act_bind (run_optional ops [binary, ''-X'', WATCHDOGVPN_IPTABLES_CHAIN]) (\<lambda>c.
       act_return (a \<and> b \<and> c))))"

definition disable_iptables :: "'h ks_ops \<Rightarrow> ('h ks_state, bool) act" where
  "disable_iptables ops =
     act_bind (disable_family ops ''iptables'') (\<lambda>a.
     act_bind (if kso_which ops ''ip6tables'' then disable_family ops ''ip6tables'' else act_return True) (\<lambda>b.
       act_return (a \<and> b)))"

fun run_all_required :: "'h ks_ops \<Rightarrow> string list list \<Rightarrow> ('h ks_state, bool) act" where
  "run_all_required ops [] = act_return True"
| "run_all_required ops (c # cs) =
     act_bind (run_required ops c) (\<lambda>ok. if ok then run_all_required ops cs else act_return False)"

definition enable_nftables :: "'h ks_ops \<Rightarrow> kill_switch \<Rightarrow> ('h ks_state, bool) act" where
  "enable_nftables ops ks =
     act_seq (disable_nftables ops)
       (act_bind (run_all_required ops (nft_enable_commands ks)) (\<lambda>ok.
          if ok then act_return True else act_seq (disable_nftables ops) (act_return False)))"

definition enable_iptables :: "'h ks_ops \<Rightarrow> kill_switch \<Rightarrow> ('h ks_state, bool) act" where
  "enable_iptables ops ks =
     act_seq (disable_iptables ops)
       (act_bind (run_all_required ops (iptables_enable_commands ks (kso_which ops ''ip6tables''))) (\<lambda>ok.
          if ok then act_return True else act_seq (disable_iptables ops) (act_return False)))"

definition ks_enable :: "'h ks_ops \<Rightarrow> kill_switch \<Rightarrow> ('h ks_state, bool) act" where
  "ks_enable ops ks =
     act_bind (act_get kst_method) (\<lambda>m.
       case chosen_method ops m of
         None \<Rightarrow> act_return False
       | Some mth \<Rightarrow>
           act_seq (set_method (Some mth))
             (if mth = ''nftables'' then
                act_seq (if kso_which ops ''iptables'' then disable_iptables ops else act_return True)
                  (enable_nftables ops ks)
              else
                act_seq (if kso_which ops ''nft'' then disable_nftables ops else act_return True)
                  (if ks_block_ipv6 ks \<and> \<not> kso_which ops ''ip6tables''
                   then act_seq (disable_iptables ops) (act_return False)
                   else enable_iptables ops ks)))"

definition ks_apply_atomic :: "'h ks_ops \<Rightarrow> kill_switch \<Rightarrow> ('h ks_state, bool) act" where
  "ks_apply_atomic ops ks =
     act_bind (act_get kst_method) (\<lambda>m.
       if chosen_method ops m \<noteq> Some ''nftables'' then act_return False
       else act_seq (set_method (Some ''nftables''))
         (act_bind (inspect_nftables ops ks) (\<lambda>existing.
            let commands = (if fw_artifacts_present existing
                  then [[''nft'', ''delete'', ''table'', ''inet'', WATCHDOGVPN_TABLE]] else []) @
                nft_enable_commands ks
            in act_bind (on_host (kso_batch ops (nft_batch_script commands))) (\<lambda>result.
                 if cr_returncode result \<noteq> 0 then act_return False
                 else act_bind (ks_status ops ks) (\<lambda>st.
                   act_return (kss_active st \<and> kss_consistent st))))))"

definition ks_disable :: "'h ks_ops \<Rightarrow> kill_switch \<Rightarrow> ('h ks_state, bool) act" where
  "ks_disable ops ks =
     act_seq (if kso_which ops ''nft'' then disable_nftables ops else act_return True)
       (act_seq (if kso_which ops ''iptables'' then disable_iptables ops else act_return True)
         (act_bind (ks_status ops ks) (\<lambda>st.
            if \<not> kss_active st \<and> \<not> kss_artifacts_present st
            then act_seq (set_method None) (act_return True)
            else act_return False)))"


section \<open>The inspector accepts what the generator produced\<close>

text \<open>A normalised listing line of a rule; \<open>cnt\<close> are the words of its counter.\<close>

definition listed_line :: "string list \<Rightarrow> string list \<times> string \<Rightarrow> string" where
  "listed_line cnt r =
     py_join '' '' (fst r @ ''counter'' # cnt @ [snd r, ''comment'', WATCHDOGVPN_COMMENT])"

definition listed :: "(nat \<Rightarrow> string list) \<Rightarrow> (string list \<times> string) list \<Rightarrow> string list" where
  "listed cnt rs = map (\<lambda>(i, r). listed_line (cnt i) r) (enumerate 0 rs)"

lemma py_join_append:
  "xs \<noteq> [] \<Longrightarrow> ys \<noteq> [] \<Longrightarrow> py_join sep (xs @ ys) = py_join sep xs @ sep @ py_join sep ys"
proof (induction xs rule: induct_list012)
  case (2 x)
  then show ?case by (cases ys) auto
next
  case (3 x y zs)
  then show ?case by simp
qed simp

lemma py_in_infix: "py_in n (a @ n @ b)"
  unfolding py_in_iff by blast

lemma listed_verdict: "py_in ('' '' @ v @ '' comment '') ('' '' @ listed_line cnt (m, v) @ '' '')"
proof -
  have "listed_line cnt (m, v) =
      py_join '' '' (m @ ''counter'' # cnt) @ '' '' @ v @ '' comment '' @ WATCHDOGVPN_COMMENT"
    using py_join_append[of "m @ ''counter'' # cnt" "[v, ''comment'', WATCHDOGVPN_COMMENT]" "'' ''"]
    by (simp add: listed_line_def)
  then have "'' '' @ listed_line cnt (m, v) @ '' '' =
      ('' '' @ py_join '' '' (m @ ''counter'' # cnt)) @ ('' '' @ v @ '' comment '') @ (WATCHDOGVPN_COMMENT @ '' '')"
    by simp
  then show ?thesis by (simp only: py_in_infix)
qed

lemma listed_match: "m \<noteq> [] \<Longrightarrow> py_in (py_join '' '' m) (listed_line cnt (m, v))"
  using py_join_append[of m "''counter'' # cnt @ [v, ''comment'', WATCHDOGVPN_COMMENT]" "'' ''"]
    py_in_infix[of "py_join '' '' m" "[]"]
  by (simp add: listed_line_def)

lemma in_listed: "r \<in> set rs \<Longrightarrow> \<exists>c. listed_line c r \<in> set (listed cnt rs)"
proof -
  assume "r \<in> set rs"
  then obtain i where i: "i < length rs" "rs ! i = r" by (auto simp: in_set_conv_nth)
  then have "(i, r) \<in> set (enumerate 0 rs)" by (auto simp: in_set_enumerate_eq)
  then show ?thesis unfolding listed_def by force
qed

lemma length_listed [simp]: "length (listed cnt rs) = length rs"
  by (simp add: listed_def)

lemma present_listed:
  assumes "(m, v) \<in> set rs" and "m \<noteq> []"
  shows "nft_rule_present (listed cnt rs) m v"
proof -
  obtain c where "listed_line c (m, v) \<in> set (listed cnt rs)" using in_listed[OF assms(1)] by blast
  then show ?thesis
    unfolding nft_rule_present_def list_ex_iff using listed_verdict listed_match[OF assms(2)] by blast
qed

lemma present_shorter:
  assumes "nft_rule_present lines m v" and "py_join '' '' m = py_join '' '' m' @ rest"
  shows "nft_rule_present lines m' v"
proof -
  have "py_in (py_join '' '' m') line" if "py_in (py_join '' '' m) line" for line
    using that unfolding assms(2) py_in_iff by (metis append.assoc)
  then show ?thesis using assms(1) unfolding nft_rule_present_def list_ex_iff by blast
qed

lemma terminal_listed:
  assumes "([], ''drop'') \<in> set rs"
  shows "list_ex (\<lambda>line. py_startswith line ''counter '' \<and> py_in '' drop comment '' ('' '' @ line @ '' ''))
    (listed cnt rs)"
proof -
  obtain c where c: "listed_line c ([], ''drop'') \<in> set (listed cnt rs)" using in_listed[OF assms] by blast
  have "listed_line c ([], ''drop'') = ''counter '' @ py_join '' '' (c @ [''drop'', ''comment'', WATCHDOGVPN_COMMENT])"
    using py_join_append[of "[''counter'']" "c @ [''drop'', ''comment'', WATCHDOGVPN_COMMENT]" "'' ''"]
    by (simp add: listed_line_def)
  then have "py_startswith (listed_line c ([], ''drop'')) ''counter ''"
    unfolding py_startswith_def by simp
  moreover have "py_in '' drop comment '' ('' '' @ listed_line c ([], ''drop'') @ '' '')"
    using listed_verdict[of "''drop''" c "[]"] by simp
  ultimately show ?thesis using c unfolding list_ex_iff by blast
qed

lemma put_checks_all: "list_all snd new \<Longrightarrow> list_all snd d \<Longrightarrow> list_all snd (put_checks new d)"
proof (induction new arbitrary: d)
  case (Cons kv new)
  have "list_all snd (dict_put d k True)" if "list_all snd d" for d :: "(string \<times> bool) list" and k
    using that by (induction d k True rule: dict_put.induct) simp_all
  then show ?case using Cons by (cases kv) (simp add: put_checks_def)
qed (simp add: put_checks_def)

lemma nft_checks_listed:
  assumes hooks: "search_pair ''hook'' ''output'' False chain" "search_pair ''policy'' ''drop'' False chain"
      "search_pair ''hook'' ''postrouting'' False guard" "search_pair ''policy'' ''accept'' False guard"
    and lines: "lines = listed cnt (chain_rules WATCHDOGVPN_CHAIN (nft_enable_commands ks))"
    and guards: "guard_lines = listed cnt' (chain_rules WATCHDOGVPN_CAPTURE_GUARD_CHAIN (nft_enable_commands ks))"
  shows "list_all snd (nft_checks ks chain guard lines guard_lines)"
proof -
  let ?out = "chain_rules WATCHDOGVPN_CHAIN (nft_enable_commands ks)"
  have acc: "nft_rule_present lines m ''accept''"
    if "m \<in> set (accepts_before_dns ks) \<or> m \<in> set (accepts_after_dns ks)" "m \<noteq> []" for m
    unfolding lines by (rule present_listed[OF _ that(2)]) (use that(1) in \<open>auto simp: output_chain_rules\<close>)
  have rej: "nft_rule_present lines m ''reject''" if "m \<in> set dns_matches" "m \<noteq> []" for m
    unfolding lines by (rule present_listed[OF _ that(2)]) (use that(1) in \<open>auto simp: output_chain_rules\<close>)
  have drp: "nft_rule_present lines m ''drop''" if "(m, ''drop'') \<in> set terminal_rules" "m \<noteq> []" for m
    unfolding lines by (rule present_listed[OF _ that(2)]) (use that(1) in \<open>auto simp: output_chain_rules\<close>)
  have lo6: "nft_rule_present lines [''ip6'', ''daddr'', ''::1''] ''accept''"
    by (rule present_shorter[OF acc[of "[''ip6'', ''daddr'', ''::1/128'']"], where rest = "''/128''"])
      (simp_all add: accepts_before_dns_def)
  have ends: "list_ex (\<lambda>line. py_startswith line ''counter '' \<and> py_in '' drop comment '' ('' '' @ line @ '' '')) lines"
    unfolding lines by (rule terminal_listed) (simp add: output_chain_rules terminal_rules_def)
  have g: "nft_rule_present guard_lines [''meta'', ''mark'', SING_BOX_CAPTURE_MARK, ''oifname'', ks_tunnel_interface ks] ''accept''"
      "nft_rule_present guard_lines [''meta'', ''mark'', SING_BOX_CAPTURE_MARK] ''drop''"
    unfolding guards guard_chain_rules by (rule present_listed; simp)+
  note tables = accepts_before_dns_def accepts_after_dns_def dns_matches_def terminal_rules_def
    SING_BOX_TUN_DNS_ENDPOINTS_def
  show ?thesis
    unfolding nft_checks_def
    by (rule put_checks_all; cases "ks_direct_egress_uid ks")
      (use ends in \<open>auto simp: list_all_iff hooks lo6 g tables simp del: py_in.simps intro!: acc rej drp\<close>)
qed

lemma nft_verdict_listed:
  assumes hooks: "search_pair ''hook'' ''output'' False chain" "search_pair ''policy'' ''drop'' False chain"
      "search_pair ''hook'' ''postrouting'' False guard" "search_pair ''policy'' ''accept'' False guard"
    and lines: "managed_nft_rule_lines chain = listed cnt (chain_rules WATCHDOGVPN_CHAIN (nft_enable_commands ks))"
    and guards: "managed_nft_rule_lines guard =
      listed cnt' (chain_rules WATCHDOGVPN_CAPTURE_GUARD_CHAIN (nft_enable_commands ks))"
  shows "nft_verdict_state ks chain guard =
    \<lparr>fw_method = ''nftables'', fw_artifacts_present = True, fw_active = True, fw_consistent = True,
     fw_mismatch_reasons = []\<rparr>"
proof -
  have "list_all snd (nft_checks ks chain guard (managed_nft_rule_lines chain) (managed_nft_rule_lines guard))"
    by (rule nft_checks_listed[OF hooks lines guards])
  then have "filter (\<lambda>c. \<not> snd c) (nft_checks ks chain guard (managed_nft_rule_lines chain) (managed_nft_rule_lines guard)) = []"
    by (simp add: list_all_iff filter_empty_conv)
  moreover have "length (managed_nft_rule_lines chain) + length (managed_nft_rule_lines guard) = expected_nft_rule_count ks"
    using rule_count[of ks] by (simp add: lines guards)
  ultimately show ?thesis using hooks by (simp add: nft_verdict_state_def Let_def)
qed


section \<open>Which commands an operation runs\<close>

text \<open>
  A log of the commands that may change the firewall. Listing and checking commands are queries.
\<close>

datatype fw_event = FCmd "string list" bool | FBatch string bool

definition is_query :: "string list \<Rightarrow> bool" where
  "is_query c \<longleftrightarrow> length c \<ge> 2 \<and> c ! 1 \<in> set [''list'', ''-S'', ''-C'']"

definition succeeded :: "command_result res \<Rightarrow> bool" where
  "succeeded r = (case r of Inl e \<Rightarrow> False | Inr cr \<Rightarrow> cr_returncode cr = 0)"

locale firewall_host =
  fixes ops :: "'h ks_ops"
    and log :: "'h \<Rightarrow> fw_event list"
  assumes query_law: "is_query c \<Longrightarrow> kso_run ops c h = (r, h') \<Longrightarrow> log h' = log h"
    and command_law: "\<not> is_query c \<Longrightarrow> kso_run ops c h = (r, h') \<Longrightarrow> log h' = log h @ [FCmd c (succeeded r)]"
    and batch_law: "kso_batch ops b h = (r, h') \<Longrightarrow> log h' = log h @ [FBatch b (succeeded r)]"
begin

definition same_log :: "'h ks_state \<Rightarrow> 'h ks_state \<Rightarrow> bool" where
  "same_log s t \<longleftrightarrow> log (kst_host t) = log (kst_host s)"

lemma same_log_rules: "frame_rules same_log"
  by unfold_locales (simp_all add: same_log_def)

lemmas keep_log = frame_rules.keep[OF same_log_rules]

lemma query_run: "is_query c \<Longrightarrow> preserves same_log (ks_run ops c)"
  by (rule preservesI) (auto simp: ks_run_def on_host_def same_log_def dest: query_law split: prod.splits)

lemma queries [simp]:
  "is_query [''nft'', ''list'', a, b, c]" "is_query [x, ''-S'', d]" "is_query [x, ''-C'', e, f, g]"
  by (simp_all add: is_query_def)

lemma inspect_nftables_log: "preserves same_log (inspect_nftables ops ks)"
  unfolding inspect_nftables_def by (intro keep_log query_run queries)

lemma inspect_iptables_log: "preserves same_log (inspect_iptables ops ks)"
  unfolding inspect_iptables_def inspect_iptables_family_def Let_def
  by (intro keep_log query_run queries)

lemma status_log: "preserves same_log (ks_status ops ks)"
  unfolding ks_status_def Let_def by (intro keep_log inspect_nftables_log inspect_iptables_log)

lemma apply_atomic_log:
  assumes run: "ks_apply_atomic ops ks s = (r, s')"
  shows "log (kst_host s') = log (kst_host s) \<and> r \<noteq> Inr True \<or>
    (\<exists>pre ok. pre \<in> {[], [[''nft'', ''delete'', ''table'', ''inet'', WATCHDOGVPN_TABLE]]} \<and>
       log (kst_host s') = log (kst_host s) @ [FBatch (nft_batch_script (pre @ nft_enable_commands ks)) ok] \<and>
       (r = Inr True \<longrightarrow> ok))"
proof (cases "chosen_method ops (kst_method s) = Some ''nftables''")
  case False
  then show ?thesis using run by (auto simp: ks_apply_atomic_def run_bind run_get run_return)
next
  case True
  define s1 where "s1 = s\<lparr>kst_method := Some ''nftables''\<rparr>"
  obtain x s2 where i: "inspect_nftables ops ks s1 = (x, s2)" by fastforce
  have l2: "log (kst_host s2) = log (kst_host s)"
    using preservesD[OF inspect_nftables_log i] by (simp add: same_log_def s1_def)
  have start: "ks_apply_atomic ops ks s = act_bind (inspect_nftables ops ks) (\<lambda>existing.
      let commands = (if fw_artifacts_present existing
            then [[''nft'', ''delete'', ''table'', ''inet'', WATCHDOGVPN_TABLE]] else []) @ nft_enable_commands ks
      in act_bind (on_host (kso_batch ops (nft_batch_script commands))) (\<lambda>result.
           if cr_returncode result \<noteq> 0 then act_return False
           else act_bind (ks_status ops ks) (\<lambda>st. act_return (kss_active st \<and> kss_consistent st)))) s1"
    using True by (simp add: ks_apply_atomic_def act_bind_def[of "act_get kst_method"] act_get_def act_seq_def
        set_method_def act_bind_def[of "act_modify f" for f] act_modify_def s1_def)
  show ?thesis
  proof (cases x)
    case (Inl e)
    then show ?thesis using run i l2 unfolding start by (auto simp: act_bind_def)
  next
    case (Inr ex)
    define pre where "pre = (if fw_artifacts_present ex
      then [[''nft'', ''delete'', ''table'', ''inet'', WATCHDOGVPN_TABLE]] else [])"
    define script where "script = nft_batch_script (pre @ nft_enable_commands ks)"
    obtain y h3 where b: "kso_batch ops script (kst_host s2) = (y, h3)" by fastforce
    let ?s3 = "s2\<lparr>kst_host := h3\<rparr>"
    have l3: "log h3 = log (kst_host s) @ [FBatch script (succeeded y)]"
      using batch_law[OF b] l2 by simp
    have rest: "act_bind (on_host (kso_batch ops script)) (\<lambda>result.
        if cr_returncode result \<noteq> 0 then act_return False
        else act_bind (ks_status ops ks) (\<lambda>st. act_return (kss_active st \<and> kss_consistent st))) s2 = (r, s')"
      using run i Inr unfolding start
      by (simp add: act_bind_def[of "inspect_nftables ops ks"] Let_def pre_def[symmetric] script_def[symmetric])
    have "log (kst_host s') = log h3 \<and> (r = Inr True \<longrightarrow> succeeded y)"
    proof (cases "succeeded y")
      case False
      then show ?thesis using rest b
        by (cases y) (auto simp: act_bind_def on_host_def succeeded_def act_return_def)
    next
      case True
      then obtain z s4 where st: "ks_status ops ks ?s3 = (z, s4)" "log (kst_host s4) = log h3"
        using preservesD[OF status_log] by (metis same_log_def surj_pair ks_state.select_convs(2) ks_state.surjective ks_state.update_convs(2))
      have "s' = s4"
        using rest b True st(1)
        by (cases y; cases z) (auto simp: act_bind_def on_host_def succeeded_def act_return_def split: if_splits)
      then show ?thesis using st(2) True by simp
    qed
    then show ?thesis using l3 pre_def script_def by auto
  qed
qed

lemma run_required_log:
  assumes "run_required ops c s = (r, s')" and "\<not> is_query c"
  shows "log (kst_host s') = log (kst_host s) @ [FCmd c (r = Inr True)]"
proof -
  obtain x h where k: "kso_run ops c (kst_host s) = (x, h)" by fastforce
  have "s' = s\<lparr>kst_host := h\<rparr> \<and> (r = Inr True) = succeeded x"
    using assms(1) k
    by (cases x) (auto simp: run_required_def ks_run_def on_host_def act_bind_def act_return_def succeeded_def)
  then show ?thesis using command_law[OF assms(2) k] by simp
qed

lemma disable_nftables_log:
  "disable_nftables ops s = (r, s') \<Longrightarrow> log (kst_host s') = log (kst_host s) @
     [FCmd [''nft'', ''delete'', ''table'', ''inet'', WATCHDOGVPN_TABLE] (r = Inr True)]"
  unfolding disable_nftables_def run_optional_def run_required_def[symmetric]
  by (rule run_required_log) (simp_all add: is_query_def)

lemma run_all_required_log:
  "run_all_required ops cs s = (Inr b, s') \<Longrightarrow> list_all (\<lambda>c. \<not> is_query c) cs \<Longrightarrow>
     (if b then log (kst_host s') = log (kst_host s) @ map (\<lambda>c. FCmd c True) cs
      else \<exists>pre c post. cs = pre @ c # post \<and>
        log (kst_host s') = log (kst_host s) @ map (\<lambda>c. FCmd c True) pre @ [FCmd c False])"
proof (induction cs arbitrary: s)
  case Nil
  then show ?case by (simp add: act_return_def)
next
  case (Cons c cs)
  obtain x t where x: "run_required ops c s = (x, t)" by fastforce
  have l: "log (kst_host t) = log (kst_host s) @ [FCmd c (x = Inr True)]"
    using run_required_log[OF x] Cons.prems(2) by simp
  show ?case
  proof (cases "x = Inr True")
    case True
    then have "run_all_required ops cs t = (Inr b, s')" using Cons.prems(1) x by (simp add: act_bind_def)
    note ih = Cons.IH[OF this]
    show ?thesis
    proof (cases b)
      case True
      then show ?thesis using ih Cons.prems(2) l \<open>x = Inr True\<close> by simp
    next
      case False
      then obtain pre d post where "cs = pre @ d # post"
        "log (kst_host s') = log (kst_host t) @ map (\<lambda>c. FCmd c True) pre @ [FCmd d False]"
        using ih Cons.prems(2) by auto
      then have "c # cs = (c # pre) @ d # post" and
        "log (kst_host s') = log (kst_host s) @ map (\<lambda>c. FCmd c True) (c # pre) @ [FCmd d False]"
        using l \<open>x = Inr True\<close> by simp_all
      then show ?thesis using False by (simp only: if_False) blast
    qed
  next
    case False
    then have "b = False \<and> t = s'" using Cons.prems(1) x
      by (cases x) (auto simp: act_bind_def act_return_def split: if_splits)
    then show ?thesis using l False by (auto intro!: exI[of _ "[]"])
  qed
qed

lemma enable_nftables_log:
  assumes run: "enable_nftables ops ks s = (Inr b, s')"
  shows "\<exists>d. if b
    then log (kst_host s') = log (kst_host s) @
      FCmd [''nft'', ''delete'', ''table'', ''inet'', WATCHDOGVPN_TABLE] d #
      map (\<lambda>c. FCmd c True) (nft_enable_commands ks)
    else last (log (kst_host s')) = FCmd [''nft'', ''delete'', ''table'', ''inet'', WATCHDOGVPN_TABLE] d"
proof -
  have nq: "list_all (\<lambda>c. \<not> is_query c) (nft_enable_commands ks)"
    by (cases "ks_direct_egress_uid ks")
      (auto simp: list_all_iff is_query_def nft_enable_commands_def nft_rule_defs nft_rule_in_chain_def
        nft_chain_command_def)
  from run obtain x s1 y s2 where d: "disable_nftables ops s = (Inr x, s1)"
    and c: "run_all_required ops (nft_enable_commands ks) s1 = (Inr y, s2)"
    and e: "if y then b \<and> s' = s2
      else \<not> b \<and> (\<exists>z. disable_nftables ops s2 = (Inr z, s'))"
    by (auto simp: enable_nftables_def run_bind run_seq run_if run_return split: if_splits)
  show ?thesis
  proof (cases y)
    case True
    then show ?thesis using run_all_required_log[OF c nq] disable_nftables_log[OF d] e by auto
  next
    case False
    then obtain z where "\<not> b" "disable_nftables ops s2 = (Inr z, s')" using e by auto
    then show ?thesis using disable_nftables_log[of s2 "Inr z" s'] by auto
  qed
qed

end

text \<open>Any host, with the log kept next to it.\<close>

definition logged_ops :: "'h ks_ops \<Rightarrow> ('h \<times> fw_event list) ks_ops" where
  "logged_ops ops =
     \<lparr>kso_run = (\<lambda>c (h, l). case kso_run ops c h of (r, h') \<Rightarrow>
        (r, (h', if is_query c then l else l @ [FCmd c (succeeded r)]))),
      kso_batch = (\<lambda>b (h, l). case kso_batch ops b h of (r, h') \<Rightarrow> (r, (h', l @ [FBatch b (succeeded r)]))),
      kso_which = kso_which ops\<rparr>"

interpretation logged_host: firewall_host "logged_ops ops" snd for ops
  by unfold_locales (auto simp: logged_ops_def split: prod.splits)

lemma apply_atomic_verified:
  assumes "ks_apply_atomic ops ks s = (Inr True, s')"
  shows "\<exists>t st. ks_status ops ks t = (Inr st, s') \<and> kss_active st \<and> kss_consistent st"
  using assms
  by (auto simp: ks_apply_atomic_def run_bind run_seq run_get run_if run_return Let_def split: if_splits)

lemma disable_verified:
  assumes "ks_disable ops ks s = (Inr True, s')"
  shows "kst_method s' = None \<and> (\<exists>t st u. ks_status ops ks t = (Inr st, u) \<and> s' = u\<lparr>kst_method := None\<rparr> \<and>
    \<not> kss_active st \<and> \<not> kss_artifacts_present st)"
proof -
  obtain t st u where "ks_status ops ks t = (Inr st, u)" and
    "(if \<not> kss_active st \<and> \<not> kss_artifacts_present st then act_seq (set_method None) (act_return True)
      else act_return False) u = (Inr True, s')"
    using assms unfolding ks_disable_def run_seq run_bind by auto
  then show ?thesis by (auto simp: run_seq set_method_def run_modify run_return split: if_splits)
qed


section \<open>Scanning a rendered listing\<close>

definition visible_line :: "string \<Rightarrow> bool" where
  "visible_line l \<longleftrightarrow> CHR 0x0A \<notin> set l \<and>
     (case dropWhile py_isspace l of [] \<Rightarrow> False | d # ds \<Rightarrow> d \<noteq> CHR ''}'')"

lemma body_rest: "CHR 0x0A \<notin> set l \<Longrightarrow>
   body_until False (l @ CHR 0x0A # rest) = map_option ((@) (l @ [CHR 0x0A])) (body_until True rest)"
  by (induction l; cases "body_until True rest") auto

lemma strip_brace: "strip_word ''}'' s = None \<longleftrightarrow> s = [] \<or> hd s \<noteq> CHR ''}''"
  by (cases s) (auto simp: strip_word_def py_startswith_def)

lemma body_line:
  assumes "visible_line l"
  shows "body_until True (l @ CHR 0x0A # rest) = map_option ((@) (l @ [CHR 0x0A])) (body_until True rest)"
proof -
  from assms have v: "CHR 0x0A \<notin> set l" and d: "dropWhile py_isspace l \<noteq> []" "hd (dropWhile py_isspace l) \<noteq> CHR ''}''"
    by (auto simp: visible_line_def simp del: dropWhile_eq_Nil_conv split: list.splits)
  then obtain c cs where l: "l = c # cs" by (cases l) auto
  from d(1) have "dropWhile py_isspace (l @ CHR 0x0A # rest) = dropWhile py_isspace l @ CHR 0x0A # rest"
    by (induction l) auto
  then have "strip_word ''}'' (dropWhile py_isspace (l @ CHR 0x0A # rest)) = None"
    using d by (simp add: strip_brace hd_append)
  then show ?thesis using v body_rest[of cs rest] by (cases "body_until True rest") (auto simp: l)
qed

lemma body_lines:
  "list_all visible_line ls \<Longrightarrow>
     body_until True (concat (map (\<lambda>l. l @ [CHR 0x0A]) ls) @ ''}'' @ rest) =
       Some (concat (map (\<lambda>l. l @ [CHR 0x0A]) ls))"
proof (induction ls)
  case Nil
  then show ?case using strip_brace[of "CHR ''}'' # rest"] by (simp add: py_isspace_def py_whitespace_def)
next
  case (Cons l ls)
  then show ?case using body_line[of l "concat (map (\<lambda>l. l @ [CHR 0x0A]) ls) @ ''}'' @ rest"] by simp
qed

lemma search_chain_here:
  "chain_header name s = Some t \<Longrightarrow> body_until False t = Some b \<Longrightarrow> s \<noteq> [] \<Longrightarrow> search_chain name False s = Some b"
  by (cases s) simp_all

fun skips_chain :: "string \<Rightarrow> bool \<Rightarrow> string \<Rightarrow> string \<Rightarrow> bool" where
  "skips_chain name pw [] rest = (\<not> pw)"
| "skips_chain name pw (c # cs) rest =
     ((pw \<or> chain_header name (c # cs @ rest) = None) \<and> skips_chain name (word_char c) cs rest)"

lemma search_chain_skip:
  "skips_chain name pw pre rest \<Longrightarrow> search_chain name pw (pre @ rest) = search_chain name False rest"
  by (induction pre arbitrary: pw) auto

lemma splitlines_line:
  "list_all (\<lambda>c. \<not> line_break c) l \<Longrightarrow> splitlines_from cur (l @ CHR 0x0A # rest) = (rev cur @ l) # splitlines_from [] rest"
proof (induction l arbitrary: cur)
  case Nil
  then show ?case by (cases rest) (simp_all add: line_break_def)
next
  case (Cons c l)
  then have "c \<noteq> CHR 0x0D" by (auto simp: line_break_def)
  then show ?case using Cons by (cases "l @ CHR 0x0A # rest") simp_all
qed

lemma splitlines_lines:
  "list_all (list_all (\<lambda>c. \<not> line_break c)) ls \<Longrightarrow> py_splitlines (concat (map (\<lambda>l. l @ [CHR 0x0A]) ls)) = ls"
  by (induction ls) (simp_all add: py_splitlines_def splitlines_line)

definition listed_ok :: "string \<Rightarrow> bool" where
  "listed_ok l \<longleftrightarrow> list_all (\<lambda>c. \<not> line_break c) l \<and>
     norm_hex False (py_join '' '' (py_split_ws (replace_char (CHR 0x22) [] l))) = l \<and>
     py_in (''comment '' @ WATCHDOGVPN_COMMENT) l"

definition header_ok :: "string \<Rightarrow> bool" where
  "header_ok l \<longleftrightarrow> list_all (\<lambda>c. \<not> line_break c) l \<and>
     \<not> py_in (''comment '' @ WATCHDOGVPN_COMMENT) (norm_hex False (py_join '' '' (py_split_ws (replace_char (CHR 0x22) [] l))))"

lemma managed_lines:
  assumes "list_all header_ok hs" and "list_all listed_ok ls"
  shows "managed_nft_rule_lines (concat (map (\<lambda>l. l @ [CHR 0x0A]) (hs @ ls))) = ls"
proof -
  have "py_splitlines (concat (map (\<lambda>l. l @ [CHR 0x0A]) (hs @ ls))) = hs @ ls"
    using assms by (intro splitlines_lines) (auto simp: list_all_iff header_ok_def listed_ok_def)
  moreover have "filter (py_in (''comment '' @ WATCHDOGVPN_COMMENT)) (map (\<lambda>line. norm_hex False (py_join '' '' (py_split_ws (replace_char (CHR 0x22) [] line)))) hs) = []"
    using assms(1) by (auto simp: list_all_iff header_ok_def filter_empty_conv)
  moreover have "filter (py_in (''comment '' @ WATCHDOGVPN_COMMENT)) (map (\<lambda>line. norm_hex False (py_join '' '' (py_split_ws (replace_char (CHR 0x22) [] line)))) ls) = ls"
    using assms(2) by (induction ls) (simp_all add: listed_ok_def)
  ultimately show ?thesis by (simp add: managed_nft_rule_lines_def)
qed


section \<open>A concrete firewall\<close>

text \<open>
  The listing of the table generated for the default configuration without LAN access, and a host with
  \<open>nft\<close> only, whose state tells whether the table is loaded.
\<close>

definition sample_ks :: kill_switch where
  "sample_ks = default_kill_switch\<lparr>ks_allow_lan := False\<rparr>"

definition chain_text :: "string \<Rightarrow> string \<Rightarrow> string list \<Rightarrow> string" where
  "chain_text hook policy ls = concat (map (\<lambda>l. l @ [CHR 0x0A])
     (''type filter'' # (''hook '' @ hook @ '' priority 0; policy '' @ policy @ '';'') # ls))"

definition sample_lines :: "string \<Rightarrow> string list" where
  "sample_lines c = listed (\<lambda>_. [''packets'', ''0'']) (chain_rules c (nft_enable_commands sample_ks))"

definition sample_chain where "sample_chain = chain_text ''output'' ''drop'' (sample_lines WATCHDOGVPN_CHAIN)"

definition sample_guard where "sample_guard = chain_text ''postrouting'' ''accept'' (sample_lines WATCHDOGVPN_CAPTURE_GUARD_CHAIN)"

definition sample_listing where
  "sample_listing = ''table inet watchdogvpn {'' @ CHR 0x0A #
     ''chain capture_postrouting {'' @ CHR 0x0A # sample_guard @ ''}'' @ CHR 0x0A #
     ''chain output {'' @ CHR 0x0A # sample_chain @ ''}'' @ CHR 0x0A # ''}'' @ [CHR 0x0A]"

lemma chain_text_body:
  assumes "list_all visible_line ls" and "visible_line (''hook '' @ hook @ '' priority 0; policy '' @ policy @ '';'')"
  shows "body_until False (CHR 0x0A # chain_text hook policy ls @ ''}'' @ rest) = Some (CHR 0x0A # chain_text hook policy ls)"
  using body_lines[of "''type filter'' # (''hook '' @ hook @ '' priority 0; policy '' @ policy @ '';'') # ls" rest] assms
  by (simp add: chain_text_def visible_line_def py_isspace_def py_whitespace_def)

lemma sample_visible:
  "list_all visible_line (sample_lines WATCHDOGVPN_CHAIN)" 
  "list_all visible_line (sample_lines WATCHDOGVPN_CAPTURE_GUARD_CHAIN)" 
  "visible_line (''hook '' @ ''output'' @ '' priority 0; policy '' @ ''drop'' @ '';'')"
  "visible_line (''hook '' @ ''postrouting'' @ '' priority 0; policy '' @ ''accept'' @ '';'')"
  by code_simp+

lemma sample_guard_found: "search_chain WATCHDOGVPN_CAPTURE_GUARD_CHAIN False sample_listing = Some (CHR 0x0A # sample_guard)"
proof -
  have "skips_chain WATCHDOGVPN_CAPTURE_GUARD_CHAIN False (''table inet watchdogvpn {'' @ [CHR 0x0A]) (''chain capture_postrouting {'' @ x)" for x
    by code_simp
  note s = search_chain_skip[OF this]
  have h: "chain_header WATCHDOGVPN_CAPTURE_GUARD_CHAIN (''chain capture_postrouting {'' @ x) = Some x" for x
    by (simp add: strip_word_def py_startswith_def chain_header_def skip_ws1_def WATCHDOGVPN_CAPTURE_GUARD_CHAIN_def py_isspace_def py_whitespace_def)
  show ?thesis unfolding sample_listing_def
    using search_chain_here[OF h chain_text_body[OF sample_visible(2,4)]] s by (simp add: sample_guard_def)
qed

lemma sample_skip: "skips_chain WATCHDOGVPN_CHAIN False (''table inet watchdogvpn {'' @ CHR 0x0A #
     ''chain capture_postrouting {'' @ CHR 0x0A # sample_guard @ ''}'' @ [CHR 0x0A]) (''chain output {'' @ x)"
  by code_simp

lemma sample_chain_found: "search_chain WATCHDOGVPN_CHAIN False sample_listing = Some (CHR 0x0A # sample_chain)"
proof -
  have h: "chain_header WATCHDOGVPN_CHAIN (''chain output {'' @ x) = Some x" for x
    by (simp add: strip_word_def py_startswith_def chain_header_def skip_ws1_def WATCHDOGVPN_CHAIN_def py_isspace_def py_whitespace_def)
  show ?thesis unfolding sample_listing_def
    using search_chain_here[OF h chain_text_body[OF sample_visible(1,3)]] search_chain_skip[OF sample_skip] by (simp add: sample_chain_def)
qed

lemma sample_listed:
  "list_all listed_ok (sample_lines WATCHDOGVPN_CHAIN)"
  "list_all listed_ok (sample_lines WATCHDOGVPN_CAPTURE_GUARD_CHAIN)"
  "list_all header_ok [[], ''type filter'', ''hook '' @ ''output'' @ '' priority 0; policy '' @ ''drop'' @ '';'']"
  "list_all header_ok [[], ''type filter'', ''hook '' @ ''postrouting'' @ '' priority 0; policy '' @ ''accept'' @ '';'']"
  by code_simp+

lemma sample_managed:
  "managed_nft_rule_lines (CHR 0x0A # sample_chain) = sample_lines WATCHDOGVPN_CHAIN"
  "managed_nft_rule_lines (CHR 0x0A # sample_guard) = sample_lines WATCHDOGVPN_CAPTURE_GUARD_CHAIN"
  using managed_lines[OF sample_listed(3,1)] managed_lines[OF sample_listed(4,2)]
  by (simp_all add: sample_chain_def sample_guard_def chain_text_def)

lemma sample_hooks: "search_pair ''hook'' ''output'' False (CHR 0x0A # sample_chain)" "search_pair ''policy'' ''drop'' False (CHR 0x0A # sample_chain)"
      "search_pair ''hook'' ''postrouting'' False (CHR 0x0A # sample_guard)" "search_pair ''policy'' ''accept'' False (CHR 0x0A # sample_guard)"
  by code_simp+

definition sample_result :: "int \<Rightarrow> string \<Rightarrow> command_result" where
  "sample_result n text = \<lparr>cr_returncode = n, cr_stdout = text, cr_stderr = []\<rparr>"

definition sample_host :: "bool ks_ops" where
  "sample_host =
     \<lparr>kso_run = (\<lambda>c loaded.
        if is_query c then (Inr (if loaded then sample_result 0 sample_listing else sample_result 1 []), loaded)
        else if c = [''nft'', ''delete'', ''table'', ''inet'', WATCHDOGVPN_TABLE]
        then (Inr (sample_result (if loaded then 0 else 1) []), False)
        else (Inr (sample_result 0 []), loaded)),
      kso_batch = (\<lambda>b loaded. (Inr (sample_result 0 []), True)),
      kso_which = (\<lambda>x. x = ''nft'')\<rparr>"

lemma sample_inspect:
  "inspect_nft_listing sample_ks (sample_result 0 sample_listing) =
     \<lparr>fw_method = ''nftables'', fw_artifacts_present = True, fw_active = True, fw_consistent = True,
      fw_mismatch_reasons = []\<rparr>"
  using nft_verdict_listed[OF sample_hooks sample_managed[unfolded sample_lines_def]]
  by (simp add: inspect_nft_listing_def sample_result_def sample_chain_found sample_guard_found Let_def)

lemma sample_inspect_none: "inspect_nft_listing ks (sample_result 1 t) = no_artifacts ''nftables''"
  by (simp add: inspect_nft_listing_def sample_result_def)

lemma sample_which [simp]: "kso_which (logged_ops sample_host) x \<longleftrightarrow> x = ''nft''"
  by (simp add: logged_ops_def sample_host_def)

lemma sample_inspect_nftables:
  "inspect_nftables (logged_ops sample_host) sample_ks \<lparr>kst_method = m, kst_host = (loaded, l)\<rparr> =
     (Inr (if loaded then \<lparr>fw_method = ''nftables'', fw_artifacts_present = True, fw_active = True,
         fw_consistent = True, fw_mismatch_reasons = []\<rparr> else no_artifacts ''nftables''),
      \<lparr>kst_method = m, kst_host = (loaded, l)\<rparr>)"
  by (simp add: inspect_nftables_def act_defs ks_run_def on_host_def logged_ops_def sample_host_def
      is_query_def sample_inspect sample_inspect_none)

lemma sample_status:
  "ks_status (logged_ops sample_host) sample_ks \<lparr>kst_method = m, kst_host = (loaded, l)\<rparr> =
     (Inr \<lparr>kss_available = True, kss_artifacts_present = loaded, kss_active = loaded,
        kss_method = (if loaded then Some ''nftables'' else chosen_method (logged_ops sample_host) m),
        kss_rules_applied = loaded, kss_consistent = True, kss_mismatch_reasons = []\<rparr>,
      \<lparr>kst_method = m, kst_host = (loaded, l)\<rparr>)"
  by (cases loaded)
    (simp_all add: ks_status_def act_defs sample_inspect_nftables no_artifacts_def Let_def)

lemma sample_apply:
  "ks_apply_atomic (logged_ops sample_host) sample_ks \<lparr>kst_method = None, kst_host = (False, [])\<rparr> =
     (Inr True, \<lparr>kst_method = Some ''nftables'',
        kst_host = (True, [FBatch (nft_batch_script (nft_enable_commands sample_ks)) True])\<rparr>)"
proof -
  have "kso_batch (logged_ops sample_host) b (x, l) = (Inr (sample_result 0 []), (True, l @ [FBatch b True]))" for b x l
    by (simp add: logged_ops_def sample_host_def succeeded_def sample_result_def)
  then show ?thesis
    by (simp add: ks_apply_atomic_def chosen_method_def detect_method_def act_defs set_method_def
        sample_inspect_nftables no_artifacts_def on_host_def sample_status sample_result_def)
qed

lemma sample_disable:
  "ks_disable (logged_ops sample_host) sample_ks \<lparr>kst_method = Some ''nftables'', kst_host = (True, [])\<rparr> =
     (Inr True, \<lparr>kst_method = None,
        kst_host = (False, [FCmd [''nft'', ''delete'', ''table'', ''inet'', WATCHDOGVPN_TABLE] True])\<rparr>)"
proof -
  have "kso_run (logged_ops sample_host) [''nft'', ''delete'', ''table'', ''inet'', WATCHDOGVPN_TABLE] (True, l) =
      (Inr (sample_result 0 []), (False, l @ [FCmd [''nft'', ''delete'', ''table'', ''inet'', WATCHDOGVPN_TABLE] True]))" for l
    by (simp add: logged_ops_def sample_host_def succeeded_def sample_result_def is_query_def)
  then show ?thesis
    by (simp add: ks_disable_def disable_nftables_def run_optional_def ks_run_def act_defs set_method_def
        on_host_def sample_status sample_result_def)
qed


section \<open>Properties\<close>



text \<open>
  C0. \<open>apply_atomic\<close> changes the firewall by at most one nft batch. On any host, a run either issues no changing
  command and does not report success, or issues exactly one batch (the optional deletion of the old table
  followed by the generated commands); there is never an interval without rules between two commands. It
  reports success only if the batch succeeded and the status read afterwards is active and consistent.
\<close>

theorem apply_atomic_one_batch:
  assumes "ks_apply_atomic (logged_ops ops) ks s = (r, s')"
  shows "(snd (kst_host s') = snd (kst_host s) \<and> r \<noteq> Inr True \<or>
      (\<exists>pre ok. pre \<in> {[], [[''nft'', ''delete'', ''table'', ''inet'', WATCHDOGVPN_TABLE]]} \<and>
         snd (kst_host s') = snd (kst_host s) @ [FBatch (nft_batch_script (pre @ nft_enable_commands ks)) ok] \<and>
         (r = Inr True \<longrightarrow> ok))) \<and>
    (r = Inr True \<longrightarrow> (\<exists>t st. ks_status (logged_ops ops) ks t = (Inr st, s') \<and> kss_active st \<and> kss_consistent st))"
  using logged_host.apply_atomic_log[OF assms] apply_atomic_verified[of "logged_ops ops" ks s s'] assms by blast

theorem apply_atomic_one_batch_witness:
  "\<exists>s' t st. ks_apply_atomic (logged_ops sample_host) sample_ks \<lparr>kst_method = None, kst_host = (False, [])\<rparr> =
       (Inr True, s') \<and>
     (\<exists>b. snd (kst_host s') = [FBatch b True]) \<and>
     ks_status (logged_ops sample_host) sample_ks t = (Inr st, s') \<and> kss_active st \<and> kss_consistent st"
  using apply_atomic_one_batch[OF sample_apply] sample_apply by fastforce

text \<open>
  C0. Enabling with nftables is all or rolled back. On any host, if \<open>_enable_nftables\<close> returns true, every
  generated command ran in order and succeeded after the deletion of the old table. If it returns false, the
  last changing command is the deletion of the managed table, so no partial rule set is left behind unnoticed.
\<close>

theorem enable_nftables_all_or_removed:
  assumes "enable_nftables (logged_ops ops) ks s = (Inr b, s')"
  shows "\<exists>d. if b
    then snd (kst_host s') = snd (kst_host s) @
      FCmd [''nft'', ''delete'', ''table'', ''inet'', WATCHDOGVPN_TABLE] d #
      map (\<lambda>c. FCmd c True) (nft_enable_commands ks)
    else last (snd (kst_host s')) = FCmd [''nft'', ''delete'', ''table'', ''inet'', WATCHDOGVPN_TABLE] d"
  by (rule logged_host.enable_nftables_log[OF assms])

text \<open>A host on which every command fails.\<close>

definition failing_host :: "unit ks_ops" where
  "failing_host =
     \<lparr>kso_run = (\<lambda>c. act_return (sample_result 1 [])), kso_batch = (\<lambda>b. act_return (sample_result 1 [])),
      kso_which = (\<lambda>x. True)\<rparr>"

lemma failing_enable:
  "\<exists>s'. enable_nftables (logged_ops failing_host) ks \<lparr>kst_method = None, kst_host = ((), [])\<rparr> = (Inr False, s')"
  by (simp add: enable_nftables_def disable_nftables_def run_optional_def run_required_def act_defs ks_run_def on_host_def
      logged_ops_def failing_host_def sample_result_def nft_enable_commands_def)

theorem enable_nftables_all_or_removed_witness:
  "\<exists>s' d. enable_nftables (logged_ops failing_host) default_kill_switch
       \<lparr>kst_method = None, kst_host = ((), [])\<rparr> = (Inr False, s') \<and>
     last (snd (kst_host s')) = FCmd [''nft'', ''delete'', ''table'', ''inet'', WATCHDOGVPN_TABLE] d"
proof -
  obtain s' where s': "enable_nftables (logged_ops failing_host) default_kill_switch
      \<lparr>kst_method = None, kst_host = ((), [])\<rparr> = (Inr False, s')" using failing_enable by blast
  show ?thesis using s' enable_nftables_all_or_removed[OF s'] by auto
qed

text \<open>
  \<open>disable\<close> is verified. If it returns true, it forgot the method and the status it read last, from the
  firewall as it then was, showed neither an active filter nor any managed artifact of either backend.
\<close>

lemma disable_reports_clean:
  assumes "ks_disable ops ks s = (Inr True, s')"
  shows "kst_method s' = None \<and> (\<exists>t st u. ks_status ops ks t = (Inr st, u) \<and> s' = u\<lparr>kst_method := None\<rparr> \<and>
    \<not> kss_active st \<and> \<not> kss_artifacts_present st)"
  by (rule disable_verified[OF assms])

lemma disable_reports_clean_witness:
  "\<exists>s' t st u. ks_disable (logged_ops sample_host) sample_ks \<lparr>kst_method = Some ''nftables'', kst_host = (True, [])\<rparr> =
       (Inr True, s') \<and>
     ks_status (logged_ops sample_host) sample_ks t = (Inr st, u) \<and> s' = u\<lparr>kst_method := None\<rparr> \<and>
     \<not> kss_artifacts_present st"
  using disable_reports_clean[OF sample_disable] sample_disable by blast

end
