(* ===== verification/Route_Chains.thy ===== *)
theory Route_Chains
  imports Persistence
begin

text \<open>
  \<open>src/route_chains/models.py\<close>, \<open>src/route_chains/validation.py\<close> and \<open>src/route_chains/store.py\<close>: route
  chains (ordered hops over profiles and node groups), their document and its store, and the reference
  and cycle checks. Messages of findings are not modelled.
\<close>

section \<open>Models\<close>

definition ROUTE_CHAIN_SCHEMA_VERSION :: int where "ROUTE_CHAIN_SCHEMA_VERSION = 1"

definition ROUTE_CHAIN_DOCUMENT_FIELDS :: "string list" where
  "ROUTE_CHAIN_DOCUMENT_FIELDS = [''schema_version'', ''chains'']"

definition ROUTE_CHAIN_FIELDS :: "string list" where
  "ROUTE_CHAIN_FIELDS =
     [''id'', ''enabled'', ''description'', ''hops'', ''dns_strategy'', ''failure_policy'',
      ''health_policy'', ''created_at'', ''updated_at'']"

definition CHAIN_HOP_FIELDS :: "string list" where
  "CHAIN_HOP_FIELDS = [''type'', ''target'', ''required'', ''selection_policy'']"

datatype chain_hop_type = HopProfile | HopGroup

fun hop_type_value :: "chain_hop_type \<Rightarrow> string" where
  "hop_type_value HopProfile = ''profile''"
| "hop_type_value HopGroup = ''group''"

definition hop_type_of :: "string \<Rightarrow> chain_hop_type res" where
  "hop_type_of s =
     (if s = ''profile'' then Inr HopProfile
      else if s = ''group'' then Inr HopGroup
      else Inl PersistentValidationError)"

definition validate_chain_id :: "pyval \<Rightarrow> string res" where
  "validate_chain_id v = (case v of
       PStr s \<Rightarrow> if is_slug (py_strip s) then Inr (py_strip s) else Inl PersistentValidationError
     | _ \<Rightarrow> Inl PersistentValidationError)"

definition chain_target :: "string \<Rightarrow> string option res" where
  "chain_target action =
     (let s = py_strip action; rest = drop 6 s in
      if py_startswith s ''chain:'' \<and> rest \<noteq> [] \<and> CHR 0x0A \<notin> set rest
      then res_bind (validate_chain_id (PStr (py_strip rest))) (\<lambda>i. Inr (Some i))
      else Inr None)"

definition required_string :: "pyval \<Rightarrow> string res" where
  "required_string v = (case v of
       PStr s \<Rightarrow> if py_strip s = [] then Inl PersistentValidationError else Inr (py_strip s)
     | _ \<Rightarrow> Inl PersistentValidationError)"

definition optional_string :: "pyval \<Rightarrow> string option res" where
  "optional_string v = (case v of
       PNone \<Rightarrow> Inr None
     | PStr s \<Rightarrow> Inr (if py_strip s = [] then None else Some (py_strip s))
     | _ \<Rightarrow> Inl PersistentValidationError)"

record chain_hop =
  hop_type :: chain_hop_type
  hop_target :: string
  hop_required :: bool
  hop_selection_policy :: "string option"

definition ChainHop_init :: "string \<Rightarrow> pyval \<Rightarrow> pyval \<Rightarrow> string option \<Rightarrow> chain_hop res" where
  "ChainHop_init ty target required policy =
     res_bind (hop_type_of ty) (\<lambda>t.
     res_bind (required_string target) (\<lambda>tg.
     res_bind (case t of
         HopGroup \<Rightarrow>
           res_bind (validate_chain_id (PStr tg)) (\<lambda>tg'.
           res_bind (res_guard (policy = None \<or> policy = Some ''group_policy'') PersistentValidationError) (\<lambda>_.
             Inr tg'))
       | HopProfile \<Rightarrow>
           res_bind (res_guard (policy = None) PersistentValidationError) (\<lambda>_. Inr tg)) (\<lambda>tg'.
     res_bind (strict_bool required) (\<lambda>req.
     res_bind (res_guard req PersistentValidationError) (\<lambda>_.
       Inr \<lparr>hop_type = t, hop_target = tg', hop_required = req, hop_selection_policy = policy\<rparr>)))))"

definition opt_field :: "string \<Rightarrow> string option \<Rightarrow> dict" where
  "opt_field k v = (case v of None \<Rightarrow> [] | Some s \<Rightarrow> [(k, PStr s)])"

definition ChainHop_to_dict :: "chain_hop \<Rightarrow> dict" where
  "ChainHop_to_dict h =
     [(''type'', PStr (hop_type_value (hop_type h))),
      (''target'', PStr (hop_target h)),
      (''required'', PBool (hop_required h))] @
     opt_field ''selection_policy'' (hop_selection_policy h)"

text \<open>\<open>k in data\<close>, with the error the models raise for a missing field.\<close>

definition required_field :: "dict \<Rightarrow> string \<Rightarrow> pyval res" where
  "required_field d k = (case map_of d k of None \<Rightarrow> Inl PersistentValidationError | Some v \<Rightarrow> Inr v)"

definition ChainHop_from_dict :: "(pyval \<Rightarrow> string) \<Rightarrow> pyval \<Rightarrow> chain_hop res" where
  "ChainHop_from_dict rp v = (case v of
       PDict data \<Rightarrow>
         res_bind (reject_unknown_keys data CHAIN_HOP_FIELDS) (\<lambda>_.
         res_bind (required_field data ''type'') (\<lambda>ty.
         res_bind (required_field data ''target'') (\<lambda>target.
         res_bind (strict_bool (dict_get data ''required'' (PBool True))) (\<lambda>req.
         res_bind (optional_string (dict_get data ''selection_policy'' PNone)) (\<lambda>policy.
           ChainHop_init (py_str rp ty) target (PBool req) policy)))))
     | _ \<Rightarrow> Inl PersistentValidationError)"

datatype chain_dns_strategy = DnsChain
datatype chain_failure_policy = FailClosed
datatype chain_health_policy = AllRequired

record route_chain =
  ch_id :: string
  ch_hops :: "chain_hop list"
  ch_enabled :: bool
  ch_description :: "string option"
  ch_dns_strategy :: chain_dns_strategy
  ch_failure_policy :: chain_failure_policy
  ch_health_policy :: chain_health_policy
  ch_created_at :: "string option"
  ch_updated_at :: "string option"

definition RouteChain_init ::
  "(pyval \<Rightarrow> string) \<Rightarrow> pyval \<Rightarrow> pyval \<Rightarrow> pyval \<Rightarrow> pyval \<Rightarrow> string \<Rightarrow> string \<Rightarrow> string \<Rightarrow> pyval \<Rightarrow> pyval \<Rightarrow> route_chain res"
  where
  "RouteChain_init rp cid hops enabled descr dns failure health created updated =
     res_bind (validate_chain_id cid) (\<lambda>i.
     res_bind (strict_bool enabled) (\<lambda>en.
     res_bind (optional_string descr) (\<lambda>de.
     res_bind (res_guard (dns = ''chain'') PersistentValidationError) (\<lambda>_.
     res_bind (res_guard (failure = ''fail_closed'') PersistentValidationError) (\<lambda>_.
     res_bind (res_guard (health = ''all_required'') PersistentValidationError) (\<lambda>_.
     res_bind (case hops of PList (h # hs) \<Rightarrow> res_map (ChainHop_from_dict rp) (h # hs)
               | _ \<Rightarrow> Inl PersistentValidationError) (\<lambda>hs.
     res_bind (optional_string created) (\<lambda>cr.
     res_bind (optional_string updated) (\<lambda>up.
       Inr \<lparr>ch_id = i, ch_hops = hs, ch_enabled = en, ch_description = de, ch_dns_strategy = DnsChain,
            ch_failure_policy = FailClosed, ch_health_policy = AllRequired, ch_created_at = cr,
            ch_updated_at = up\<rparr>)))))))))"

definition RouteChain_to_dict :: "route_chain \<Rightarrow> dict" where
  "RouteChain_to_dict c =
     [(''id'', PStr (ch_id c)),
      (''enabled'', PBool (ch_enabled c)),
      (''hops'', PList (map (PDict \<circ> ChainHop_to_dict) (ch_hops c))),
      (''dns_strategy'', PStr ''chain''),
      (''failure_policy'', PStr ''fail_closed''),
      (''health_policy'', PStr ''all_required'')] @
     opt_field ''description'' (ch_description c) @
     opt_field ''created_at'' (ch_created_at c) @
     opt_field ''updated_at'' (ch_updated_at c)"

definition RouteChain_from_dict :: "(pyval \<Rightarrow> string) \<Rightarrow> pyval \<Rightarrow> route_chain res" where
  "RouteChain_from_dict rp v = (case v of
       PDict data \<Rightarrow>
         res_bind (reject_unknown_keys data ROUTE_CHAIN_FIELDS) (\<lambda>_.
         res_bind (required_field data ''id'') (\<lambda>i.
         res_bind (required_field data ''hops'') (\<lambda>hops.
         res_bind (strict_bool (dict_get data ''enabled'' (PBool False))) (\<lambda>en.
           RouteChain_init rp i hops (PBool en)
             (dict_get data ''description'' PNone)
             (py_str rp (dict_get data ''dns_strategy'' (PStr ''chain'')))
             (py_str rp (dict_get data ''failure_policy'' (PStr ''fail_closed'')))
             (py_str rp (dict_get data ''health_policy'' (PStr ''all_required'')))
             (dict_get data ''created_at'' PNone)
             (dict_get data ''updated_at'' PNone)))))
     | _ \<Rightarrow> Inl PersistentValidationError)"

definition document_check :: "route_chain list \<Rightarrow> route_chain list res" where
  "document_check cs =
     (if distinct (map ch_id cs) then Inr cs else Inl PersistentValidationError)"

definition document_to_dict :: "route_chain list \<Rightarrow> dict" where
  "document_to_dict cs =
     [(''schema_version'', PInt ROUTE_CHAIN_SCHEMA_VERSION),
      (''chains'', PList (map (PDict \<circ> RouteChain_to_dict) cs))]"

definition document_from_dict :: "(pyval \<Rightarrow> string) \<Rightarrow> dict \<Rightarrow> route_chain list res" where
  "document_from_dict rp data =
     res_bind (reject_unknown_keys data ROUTE_CHAIN_DOCUMENT_FIELDS) (\<lambda>_.
     res_bind (strict_int (dict_get data ''schema_version'' (PInt ROUTE_CHAIN_SCHEMA_VERSION))) (\<lambda>v.
     res_bind (res_guard (v = ROUTE_CHAIN_SCHEMA_VERSION) PersistentValidationError) (\<lambda>_.
     res_bind (case dict_get data ''chains'' (PList []) of
         PList xs \<Rightarrow> res_map (RouteChain_from_dict rp) xs
       | _ \<Rightarrow> Inl PersistentValidationError)
       document_check)))"

definition redact_chain_document :: "route_chain list \<Rightarrow> dict" where
  "redact_chain_document cs =
     [(''schema_version'', PInt ROUTE_CHAIN_SCHEMA_VERSION),
      (''chain_count'', PInt (int (length cs))),
      (''chains'', PList (map (\<lambda>c. PDict
         [(''id'', PStr (ch_id c)),
          (''enabled'', PBool (ch_enabled c)),
          (''hop_count'', PInt (int (length (ch_hops c)))),
          (''hop_types'', PList (map (PStr \<circ> hop_type_value \<circ> hop_type) (ch_hops c))),
          (''dns_strategy'', PStr ''chain''),
          (''failure_policy'', PStr ''fail_closed''),
          (''health_policy'', PStr ''all_required''),
          (''description'', case ch_description c of
               None \<Rightarrow> PNone | Some s \<Rightarrow> if s = [] then PNone else PStr ''<redacted>''),
          (''created_at_present'', PBool (ch_created_at c \<noteq> None)),
          (''updated_at_present'', PBool (ch_updated_at c \<noteq> None))]) cs))]"


section \<open>Validation\<close>

record chain_finding =
  cf_code :: string
  cf_chain_id :: string
  cf_hop_index :: "nat option"
  cf_target_type :: "string option"
  cf_target :: "string option"

definition hop_finding :: "string \<Rightarrow> route_chain \<Rightarrow> nat \<Rightarrow> chain_hop \<Rightarrow> chain_finding" where
  "hop_finding code c i h =
     \<lparr>cf_code = code, cf_chain_id = ch_id c, cf_hop_index = Some i,
      cf_target_type = Some (hop_type_value (hop_type h)), cf_target = Some (hop_target h)\<rparr>"

definition validate_chain_references ::
  "route_chain list \<Rightarrow> string list \<Rightarrow> string list \<Rightarrow> chain_finding list" where
  "validate_chain_references cs profile_ids group_names =
     concat (map (\<lambda>c. concat (map (\<lambda>(i, h). case hop_type h of
         HopProfile \<Rightarrow>
           if hop_target h \<notin> set profile_ids then [hop_finding ''missing_profile'' c i h] else []
       | HopGroup \<Rightarrow>
           if hop_target h \<notin> set group_names then [hop_finding ''missing_group'' c i h] else [])
       (enumerate 1 (ch_hops c)))) cs)"

definition action_finding :: "string \<Rightarrow> string \<Rightarrow> chain_finding" where
  "action_finding code target =
     \<lparr>cf_code = code, cf_chain_id = target, cf_hop_index = None, cf_target_type = Some ''chain'',
      cf_target = Some target\<rparr>"

definition validate_chain_action_reference :: "string \<Rightarrow> route_chain list \<Rightarrow> chain_finding option res" where
  "validate_chain_action_reference action cs =
     res_bind (chain_target action) (\<lambda>t. case t of
         None \<Rightarrow> Inr None
       | Some target \<Rightarrow>
           (case map_of (rev (map (\<lambda>c. (ch_id c, c)) cs)) target of
              None \<Rightarrow> Inr (Some (action_finding ''missing_chain'' target))
            | Some c \<Rightarrow>
                if \<not> ch_enabled c then Inr (Some (action_finding ''disabled_chain'' target)) else Inr None))"

definition validate_chain_runtime_dependencies ::
  "route_chain list \<Rightarrow> (string \<Rightarrow> string option) \<Rightarrow> (string \<Rightarrow> string option) \<Rightarrow> chain_finding list" where
  "validate_chain_runtime_dependencies cs route_actions selected =
     concat (map (\<lambda>c. concat (map (\<lambda>(i, h). case hop_type h of
         HopProfile \<Rightarrow>
           if route_actions (hop_target h) = Some (''chain:'' @ ch_id c)
           then [hop_finding ''self_cycle_profile_route_action'' c i h] else []
       | HopGroup \<Rightarrow>
           (case selected (hop_target h) of
              Some p \<Rightarrow>
                if route_actions p = Some (''chain:'' @ ch_id c)
                then [hop_finding ''self_cycle_group_selected_profile'' c i h] else []
            | None \<Rightarrow> []))
       (enumerate 1 (ch_hops c)))) cs)"

definition raise_for_findings :: "chain_finding list \<Rightarrow> unit res" where
  "raise_for_findings fs = (if fs \<noteq> [] then Inl PersistentValidationError else Inr ())"


section \<open>Store\<close>

definition RouteChainStore_load :: "(pyval \<Rightarrow> string) \<Rightarrow> json_file \<Rightarrow> route_chain list res" where
  "RouteChainStore_load rp f =
     res_bind (load_json f (PDict (document_to_dict []))) (\<lambda>v.
     res_bind (require_mapping v) (document_from_dict rp))"

definition RouteChainStore_save :: "(pyval \<Rightarrow> string) \<Rightarrow> json_file \<Rightarrow> route_chain list \<Rightarrow> json_file res" where
  "RouteChainStore_save rp f cs =
     res_bind (document_from_dict rp (document_to_dict cs)) (\<lambda>validated.
       Inr (dump_json (PDict (document_to_dict validated))))"

definition RouteChainStore_list :: "(pyval \<Rightarrow> string) \<Rightarrow> json_file \<Rightarrow> route_chain list res" where
  "RouteChainStore_list rp f = RouteChainStore_load rp f"

definition RouteChainStore_get :: "(pyval \<Rightarrow> string) \<Rightarrow> json_file \<Rightarrow> string \<Rightarrow> route_chain option res" where
  "RouteChainStore_get rp f i =
     res_bind (RouteChainStore_list rp f) (\<lambda>cs. Inr (find (\<lambda>c. ch_id c = i) cs))"

definition RouteChainStore_add :: "(pyval \<Rightarrow> string) \<Rightarrow> json_file \<Rightarrow> route_chain \<Rightarrow> json_file res" where
  "RouteChainStore_add rp f chain =
     res_bind (RouteChain_from_dict rp (PDict (RouteChain_to_dict chain))) (\<lambda>validated.
     res_bind (RouteChainStore_load rp f) (\<lambda>cs.
     res_bind (document_check (filter (\<lambda>c. ch_id c \<noteq> ch_id validated) cs @ [validated])) (\<lambda>cs'.
       Inr (dump_json (PDict (document_to_dict cs'))))))"

definition RouteChainStore_remove :: "(pyval \<Rightarrow> string) \<Rightarrow> json_file \<Rightarrow> string \<Rightarrow> json_file res" where
  "RouteChainStore_remove rp f i =
     res_bind (RouteChainStore_load rp f) (\<lambda>cs.
     res_bind (document_check (filter (\<lambda>c. ch_id c \<noteq> i) cs)) (\<lambda>cs'.
       Inr (dump_json (PDict (document_to_dict cs')))))"


section \<open>Well-formed chains\<close>

definition stripped :: "string \<Rightarrow> bool" where
  "stripped s \<longleftrightarrow> s \<noteq> [] \<and> py_strip s = s"

definition opt_stripped :: "string option \<Rightarrow> bool" where
  "opt_stripped v = (case v of None \<Rightarrow> True | Some s \<Rightarrow> stripped s)"

definition hop_valid :: "chain_hop \<Rightarrow> bool" where
  "hop_valid h \<longleftrightarrow> hop_required h \<and> stripped (hop_target h) \<and>
     (case hop_type h of
        HopGroup \<Rightarrow> is_slug (hop_target h) \<and>
          (hop_selection_policy h = None \<or> hop_selection_policy h = Some ''group_policy'')
      | HopProfile \<Rightarrow> hop_selection_policy h = None)"

definition chain_valid :: "route_chain \<Rightarrow> bool" where
  "chain_valid c \<longleftrightarrow> is_slug (ch_id c) \<and> ch_hops c \<noteq> [] \<and> list_all hop_valid (ch_hops c) \<and>
     opt_stripped (ch_description c) \<and> opt_stripped (ch_created_at c) \<and> opt_stripped (ch_updated_at c)"

lemma single_policies [simp]: "DnsChain = d" "FailClosed = x" "AllRequired = y"
  by (cases d, simp) (cases x, simp, cases y, simp)

lemma hop_type_of_value [simp]: "hop_type_of (hop_type_value t) = Inr t"
  by (cases t) (simp_all add: hop_type_of_def)

lemma validate_chain_id_ok: "validate_chain_id v = Inr i \<Longrightarrow> is_slug i"
  by (auto simp: validate_chain_id_def split: pyval.splits if_splits)

lemma validate_chain_id_id [simp]: "is_slug s \<Longrightarrow> validate_chain_id (PStr s) = Inr s"
  by (simp add: validate_chain_id_def)

lemma required_string_ok: "required_string v = Inr s \<Longrightarrow> stripped s"
  by (auto simp: required_string_def stripped_def split: pyval.splits if_splits)

lemma required_string_id [simp]: "stripped s \<Longrightarrow> required_string (PStr s) = Inr s"
  by (simp add: required_string_def stripped_def)

lemma optional_string_ok: "optional_string v = Inr s \<Longrightarrow> opt_stripped s"
  by (auto simp: optional_string_def opt_stripped_def stripped_def split: pyval.splits if_splits)

lemma slug_stripped: "is_slug s \<Longrightarrow> stripped s"
  by (cases s) (auto simp: stripped_def)

lemma opt_field_get [simp]:
  "opt_stripped v \<Longrightarrow> optional_string (case map_of (opt_field k v) k of None \<Rightarrow> PNone | Some w \<Rightarrow> w) = Inr v"
  by (cases v) (auto simp: opt_field_def optional_string_def opt_stripped_def stripped_def)

lemma opt_field_other [simp]: "k \<noteq> k' \<Longrightarrow> map_of (opt_field k v) k' = None"
  by (cases v) (auto simp: opt_field_def)

lemma set_opt_field: "fst ` set (opt_field k v) \<subseteq> {k}"
  by (cases v) (auto simp: opt_field_def)

lemma ChainHop_init_valid:
  assumes "ChainHop_init ty target required policy = Inr h"
  shows "hop_valid h"
proof -
  obtain t where t: "hop_type_of ty = Inr t"
    using assms by (auto simp: ChainHop_init_def)
  show ?thesis
    using assms t
    by (cases t) (auto simp: ChainHop_init_def hop_valid_def slug_stripped
        dest!: required_string_ok validate_chain_id_ok)
qed

lemma ChainHop_from_dict_valid: "ChainHop_from_dict rp v = Inr h \<Longrightarrow> hop_valid h"
  by (auto simp: ChainHop_from_dict_def dest: ChainHop_init_valid split: pyval.splits)

lemma ChainHop_round_trip:
  assumes "hop_valid h"
  shows "ChainHop_from_dict rp (PDict (ChainHop_to_dict h)) = Inr h"
proof -
  have keys: "reject_unknown_keys (ChainHop_to_dict h) CHAIN_HOP_FIELDS = Inr ()"
    using set_opt_field[of "''selection_policy''" "hop_selection_policy h"]
    by (auto simp: ChainHop_to_dict_def CHAIN_HOP_FIELDS_def)
  have pol: "opt_stripped (hop_selection_policy h)"
    using assms by (auto simp: hop_valid_def opt_stripped_def stripped_def py_strip_def py_lstrip_def
        py_rstrip_def py_isspace_def py_whitespace_def split: chain_hop_type.splits)
  show ?thesis
    unfolding ChainHop_from_dict_def pyval.case keys
    using assms pol
    by (cases "hop_type h")
      (auto simp: ChainHop_to_dict_def required_field_def dict_get_def ChainHop_init_def hop_valid_def map_add_def
        hop_type_of_def)
qed

lemma RouteChain_init_valid:
  "RouteChain_init rp i hops en de dns fa he cr up = Inr c \<Longrightarrow> chain_valid c"
proof -
  assume "RouteChain_init rp i hops en de dns fa he cr up = Inr c"
  then obtain h hs where "hops = PList (h # hs)" "res_map (ChainHop_from_dict rp) (h # hs) = Inr (ch_hops c)"
      "is_slug (ch_id c)" "opt_stripped (ch_description c)" "opt_stripped (ch_created_at c)"
      "opt_stripped (ch_updated_at c)"
    by (auto simp: RouteChain_init_def dest!: validate_chain_id_ok optional_string_ok
        split: pyval.splits list.splits)
  moreover from this have "ch_hops c \<noteq> []" "list_all hop_valid (ch_hops c)"
    by (auto simp: res_map_Inr_iff list_all2_conv_all_nth list_all_length dest: ChainHop_from_dict_valid
        simp del: res_map.simps dest!: res_map_length)
  ultimately show ?thesis by (simp add: chain_valid_def)
qed

lemma RouteChain_from_dict_valid: "RouteChain_from_dict rp v = Inr c \<Longrightarrow> chain_valid c"
  by (auto simp: RouteChain_from_dict_def dest: RouteChain_init_valid split: pyval.splits)

lemma RouteChain_round_trip:
  assumes "chain_valid c"
  shows "RouteChain_from_dict rp (PDict (RouteChain_to_dict c)) = Inr c"
proof -
  have keys: "reject_unknown_keys (RouteChain_to_dict c) ROUTE_CHAIN_FIELDS = Inr ()"
    using set_opt_field[of "''description''" "ch_description c"]
      set_opt_field[of "''created_at''" "ch_created_at c"]
      set_opt_field[of "''updated_at''" "ch_updated_at c"]
    by (auto simp: RouteChain_to_dict_def ROUTE_CHAIN_FIELDS_def)
  have hops: "res_map (ChainHop_from_dict rp) (map (PDict \<circ> ChainHop_to_dict) (ch_hops c)) = Inr (ch_hops c)"
    using assms by (intro res_map_id) (auto simp: chain_valid_def list_all_iff ChainHop_round_trip)
  obtain h hs where hs: "map (PDict \<circ> ChainHop_to_dict) (ch_hops c) = h # hs"
    using assms by (cases "ch_hops c") (auto simp: chain_valid_def)
  have get: "map_of (RouteChain_to_dict c) ''description'' = map_of (opt_field ''description'' (ch_description c)) ''description''"
    "map_of (RouteChain_to_dict c) ''created_at'' = map_of (opt_field ''created_at'' (ch_created_at c)) ''created_at''"
    "map_of (RouteChain_to_dict c) ''updated_at'' = map_of (opt_field ''updated_at'' (ch_updated_at c)) ''updated_at''"
    by (simp_all add: RouteChain_to_dict_def map_add_def split: option.split)
  have fields: "map_of (RouteChain_to_dict c) ''id'' = Some (PStr (ch_id c))"
    "map_of (RouteChain_to_dict c) ''hops'' = Some (PList (h # hs))"
    "map_of (RouteChain_to_dict c) ''enabled'' = Some (PBool (ch_enabled c))"
    "map_of (RouteChain_to_dict c) ''dns_strategy'' = Some (PStr ''chain'')"
    "map_of (RouteChain_to_dict c) ''failure_policy'' = Some (PStr ''fail_closed'')"
    "map_of (RouteChain_to_dict c) ''health_policy'' = Some (PStr ''all_required'')"
    by (simp_all add: RouteChain_to_dict_def map_add_def hs[symmetric])
  show ?thesis
    unfolding RouteChain_from_dict_def pyval.case keys
    using assms hops[unfolded hs]
    by (auto simp: fields required_field_def dict_get_def get RouteChain_init_def chain_valid_def
        intro!: route_chain.equality simp del: res_map.simps)
qed

lemma document_from_dict_ok:
  "document_from_dict rp d = Inr cs \<Longrightarrow> list_all chain_valid cs \<and> distinct (map ch_id cs)"
  by (auto simp: document_from_dict_def document_check_def list_all_iff res_map_set
      dest!: res_map_set RouteChain_from_dict_valid split: pyval.splits if_splits)

lemma document_round_trip:
  assumes "list_all chain_valid cs" and "distinct (map ch_id cs)"
  shows "document_from_dict rp (document_to_dict cs) = Inr cs"
proof -
  have "res_map (RouteChain_from_dict rp) (map (PDict \<circ> RouteChain_to_dict) cs) = Inr cs"
    using assms(1) by (intro res_map_id) (auto simp: list_all_iff RouteChain_round_trip)
  moreover have "reject_unknown_keys (document_to_dict cs) ROUTE_CHAIN_DOCUMENT_FIELDS = Inr ()"
    by (simp add: document_to_dict_def ROUTE_CHAIN_DOCUMENT_FIELDS_def)
  moreover have "dict_get (document_to_dict cs) ''schema_version'' d = PInt ROUTE_CHAIN_SCHEMA_VERSION"
    "dict_get (document_to_dict cs) ''chains'' d = PList (map (PDict \<circ> RouteChain_to_dict) cs)" for d
    by (simp_all add: document_to_dict_def dict_get_def)
  ultimately show ?thesis
    using assms(2) by (simp add: document_from_dict_def document_check_def del: reject_unknown_keys_Inr)
qed

definition chain_contents :: "(pyval \<Rightarrow> string) \<Rightarrow> json_file \<Rightarrow> route_chain list" where
  "chain_contents rp f = (case RouteChainStore_load rp f of Inl e \<Rightarrow> [] | Inr cs \<Rightarrow> cs)"

definition chain_store_inv :: "(pyval \<Rightarrow> string) \<Rightarrow> json_file \<Rightarrow> bool" where
  "chain_store_inv rp f \<longleftrightarrow> is_ok (RouteChainStore_load rp f)"

lemma chain_load:
  assumes "chain_store_inv rp f"
  shows "RouteChainStore_load rp f = Inr (chain_contents rp f) \<and> list_all chain_valid (chain_contents rp f) \<and>
    distinct (map ch_id (chain_contents rp f))"
proof -
  obtain cs where cs: "RouteChainStore_load rp f = Inr cs"
    using assms by (cases "RouteChainStore_load rp f") (auto simp: chain_store_inv_def)
  then have "list_all chain_valid cs \<and> distinct (map ch_id cs)"
    by (auto simp: RouteChainStore_load_def dest: document_from_dict_ok)
  with cs show ?thesis by (simp add: chain_contents_def)
qed

lemma chain_load_dump:
  assumes "list_all chain_valid cs" and "distinct (map ch_id cs)"
  shows "RouteChainStore_load rp (dump_json (PDict (document_to_dict cs))) = Inr cs"
  by (simp add: RouteChainStore_load_def dump_json_def load_json_def require_mapping_def
      document_round_trip[OF assms])

lemma chain_add_run:
  assumes "chain_store_inv rp f" and "chain_valid c"
  shows "\<exists>f'. RouteChainStore_add rp f c = Inr f' \<and> chain_store_inv rp f' \<and>
    chain_contents rp f' = filter (\<lambda>d. ch_id d \<noteq> ch_id c) (chain_contents rp f) @ [c]"
proof -
  note l = chain_load[OF assms(1)]
  define cs where "cs = filter (\<lambda>d. ch_id d \<noteq> ch_id c) (chain_contents rp f) @ [c]"
  have w: "list_all chain_valid cs" "distinct (map ch_id cs)"
    using l assms(2) unfolding cs_def by (auto simp: list_all_iff distinct_map_filter)
  have "RouteChainStore_add rp f c = Inr (dump_json (PDict (document_to_dict cs)))"
    using l w(2) by (simp add: RouteChainStore_add_def RouteChain_round_trip[OF assms(2)] document_check_def cs_def)
  then show ?thesis
    by (simp add: chain_store_inv_def chain_contents_def chain_load_dump[OF w] cs_def[symmetric])
      (simp add: cs_def chain_contents_def)
qed

lemma chain_remove_run:
  assumes "chain_store_inv rp f"
  shows "\<exists>f'. RouteChainStore_remove rp f i = Inr f' \<and> chain_store_inv rp f' \<and>
    chain_contents rp f' = filter (\<lambda>d. ch_id d \<noteq> i) (chain_contents rp f)"
proof -
  note l = chain_load[OF assms(1)]
  define cs where "cs = filter (\<lambda>d. ch_id d \<noteq> i) (chain_contents rp f)"
  have w: "list_all chain_valid cs" "distinct (map ch_id cs)"
    using l unfolding cs_def by (auto simp: list_all_iff distinct_map_filter)
  have "RouteChainStore_remove rp f i = Inr (dump_json (PDict (document_to_dict cs)))"
    using l w(2) by (simp add: RouteChainStore_remove_def document_check_def cs_def)
  then show ?thesis
    by (simp add: chain_store_inv_def chain_contents_def chain_load_dump[OF w] cs_def[symmetric])
      (simp add: cs_def chain_contents_def)
qed

interpretation chain_store: keyed_store "RouteChainStore_list rp" "RouteChainStore_get rp"
  "RouteChainStore_add rp" "RouteChainStore_remove rp" ch_id chain_valid "\<lambda>f c. True" "chain_store_inv rp"
  "chain_contents rp"
  for rp
proof
  fix f assume i: "chain_store_inv rp f"
  note l = chain_load[OF i]
  show "distinct (map ch_id (chain_contents rp f))" using l by simp
  show "RouteChainStore_list rp f = Inr (chain_contents rp f)" using l by (simp add: RouteChainStore_list_def)
  show "RouteChainStore_get rp f k = Inr (lookup_key ch_id (chain_contents rp f) k)" for k
    using l by (simp add: RouteChainStore_get_def RouteChainStore_list_def lookup_key_def)
  show "is_ok (RouteChainStore_add rp f c)" if "chain_valid c" for c
    using chain_add_run[OF i that] by auto
  show "chain_store_inv rp f' \<and> chain_contents rp f' = filter (\<lambda>d. ch_id d \<noteq> ch_id c) (chain_contents rp f) @ [c]"
    if "chain_valid c" and "RouteChainStore_add rp f c = Inr f'" for c f'
    using chain_add_run[OF i that(1)] that(2) by auto
  show "is_ok (RouteChainStore_remove rp f k)" for k
    using chain_remove_run[OF i, of k] by auto
  show "chain_store_inv rp f' \<and> chain_contents rp f' = filter (\<lambda>d. ch_id d \<noteq> k) (chain_contents rp f)"
    if "RouteChainStore_remove rp f k = Inr f'" for k f'
    using chain_remove_run[OF i, of k] that by auto
qed

lemma chain_store_inv_missing: "chain_store_inv rp FMissing"
  using document_round_trip[of "[]" rp]
  by (simp add: chain_store_inv_def RouteChainStore_load_def load_json_def require_mapping_def)


section \<open>What the checks find\<close>

lemma enumerate_all: "(\<forall>x \<in> set (enumerate n xs). P (snd x)) \<longleftrightarrow> (\<forall>y \<in> set xs. P y)"
  by (induction xs arbitrary: n) auto

lemma concat_map_Nil: "concat (map f xs) = [] \<longleftrightarrow> (\<forall>x \<in> set xs. f x = [])"
  by auto

lemma references_clean:
  "validate_chain_references cs ps gs = [] \<longleftrightarrow>
     (\<forall>c \<in> set cs. \<forall>h \<in> set (ch_hops c).
        hop_target h \<in> (case hop_type h of HopProfile \<Rightarrow> set ps | HopGroup \<Rightarrow> set gs))"
proof -
  have hop: "(case x of (i, h) \<Rightarrow> case hop_type h of
         HopProfile \<Rightarrow> if hop_target h \<notin> set ps then [hop_finding ''missing_profile'' c i h] else []
       | HopGroup \<Rightarrow> if hop_target h \<notin> set gs then [hop_finding ''missing_group'' c i h] else []) = [] \<longleftrightarrow>
       hop_target (snd x) \<in> (case hop_type (snd x) of HopProfile \<Rightarrow> set ps | HopGroup \<Rightarrow> set gs)" for c x
    by (cases x) (simp split: chain_hop_type.split)
  show ?thesis
    unfolding validate_chain_references_def concat_map_Nil hop
    by (rule ball_cong[OF refl]) (rule enumerate_all)
qed

lemma runtime_dependencies_clean:
  "validate_chain_runtime_dependencies cs acts sel = [] \<longleftrightarrow>
     (\<forall>c \<in> set cs. \<forall>h \<in> set (ch_hops c).
        \<forall>p. (case hop_type h of HopProfile \<Rightarrow> Some (hop_target h) | HopGroup \<Rightarrow> sel (hop_target h)) = Some p \<longrightarrow>
          acts p \<noteq> Some (''chain:'' @ ch_id c))"
proof -
  have hop: "(case x of (i, h) \<Rightarrow> case hop_type h of
         HopProfile \<Rightarrow>
           if acts (hop_target h) = Some (''chain:'' @ ch_id c)
           then [hop_finding ''self_cycle_profile_route_action'' c i h] else []
       | HopGroup \<Rightarrow> (case sel (hop_target h) of
             Some p \<Rightarrow> if acts p = Some (''chain:'' @ ch_id c)
               then [hop_finding ''self_cycle_group_selected_profile'' c i h] else []
           | None \<Rightarrow> [])) = [] \<longleftrightarrow>
       (\<forall>p. (case hop_type (snd x) of HopProfile \<Rightarrow> Some (hop_target (snd x)) | HopGroup \<Rightarrow> sel (hop_target (snd x))) = Some p \<longrightarrow>
          acts p \<noteq> Some (''chain:'' @ ch_id c))" for c x
    by (cases x) (simp split: chain_hop_type.split option.split)
  show ?thesis
    unfolding validate_chain_runtime_dependencies_def concat_map_Nil hop
    by (rule ball_cong[OF refl]) (rule enumerate_all)
qed

section \<open>Properties\<close>

definition sample_chain_route :: route_chain where
  "sample_chain_route =
     \<lparr>ch_id = ''work'',
      ch_hops = [\<lparr>hop_type = HopGroup, hop_target = ''home'', hop_required = True, hop_selection_policy = None\<rparr>,
        \<lparr>hop_type = HopProfile, hop_target = ''a'', hop_required = True, hop_selection_policy = None\<rparr>],
      ch_enabled = True, ch_description = None, ch_dns_strategy = DnsChain, ch_failure_policy = FailClosed,
      ch_health_policy = AllRequired, ch_created_at = None, ch_updated_at = None\<rparr>"

lemma sample_chain_route_valid: "chain_valid sample_chain_route"
  by code_simp

text \<open>
  C0. The route-chain store is a keyed map of well-formed chains. After any sequence of successful adds and
  removals of well-formed chains, starting from a file the store can load, \<open>get\<close> answers what the same updates
  on a finite map answer; all chains of the file are well formed (slug ids, at least one hop, every hop
  required, a group policy only on group hops) and have distinct ids.
\<close>

theorem chain_store_refines_map:
  assumes "chain_store_inv rp f" and "\<forall>c. Put c \<in> set ops \<longrightarrow> chain_valid c"
    and "run_store (RouteChainStore_add rp) (RouteChainStore_remove rp) ops f = Inr f'"
  shows "RouteChainStore_get rp f' k =
      Inr (fold (store_spec ch_id) ops (lookup_key ch_id (chain_contents rp f)) k) \<and>
    (\<exists>cs. RouteChainStore_list rp f' = Inr cs \<and> list_all chain_valid cs \<and> distinct (map ch_id cs))"
proof -
  have "chain_store_inv rp f'" using chain_store.run_refines[OF assms] by blast
  from chain_load[OF this] show ?thesis
    using chain_store.run_lookup[OF assms] by (simp add: RouteChainStore_list_def)
qed

theorem chain_store_refines_map_witness:
  "\<exists>f'. run_store (RouteChainStore_add (\<lambda>v. [])) (RouteChainStore_remove (\<lambda>v. [])) [Put sample_chain_route] FMissing =
       Inr f' \<and> RouteChainStore_get (\<lambda>v. []) f' ''work'' = Inr (Some sample_chain_route)"
proof -
  obtain f' where a: "RouteChainStore_add (\<lambda>v. []) FMissing sample_chain_route = Inr f'"
    using chain_add_run[OF chain_store_inv_missing sample_chain_route_valid] by blast
  then have r: "run_store (RouteChainStore_add (\<lambda>v. [])) (RouteChainStore_remove (\<lambda>v. []))
      [Put sample_chain_route] FMissing = Inr f'" by simp
  show ?thesis
    using r chain_store_refines_map[OF chain_store_inv_missing _ r, of "''work''"] sample_chain_route_valid
    by (simp add: sample_chain_route_def)
qed

text \<open>
  C35. The checks of chain documents are exact. There is no reference finding exactly when every hop of every
  chain names an existing profile or group of its kind, and no dependency finding exactly when no hop leads,
  directly or through the profile its group has selected, to a profile routed by the same chain. Raising on
  findings then lets exactly such documents pass.
\<close>

theorem chain_checks_exact:
  "(raise_for_findings (validate_chain_references cs ps gs) = Inr () \<longleftrightarrow>
     (\<forall>c \<in> set cs. \<forall>h \<in> set (ch_hops c).
        hop_target h \<in> (case hop_type h of HopProfile \<Rightarrow> set ps | HopGroup \<Rightarrow> set gs))) \<and>
   (raise_for_findings (validate_chain_runtime_dependencies cs acts sel) = Inr () \<longleftrightarrow>
     (\<forall>c \<in> set cs. \<forall>h \<in> set (ch_hops c).
        \<forall>p. (case hop_type h of HopProfile \<Rightarrow> Some (hop_target h) | HopGroup \<Rightarrow> sel (hop_target h)) = Some p \<longrightarrow>
          acts p \<noteq> Some (''chain:'' @ ch_id c)))"
  using references_clean[of cs ps gs] runtime_dependencies_clean[of cs acts sel]
  by (simp add: raise_for_findings_def)

theorem chain_checks_exact_witness:
  "raise_for_findings (validate_chain_references [sample_chain_route] [''a''] [''home'']) = Inr () \<and>
   raise_for_findings (validate_chain_runtime_dependencies [sample_chain_route]
     [''b'' \<mapsto> ''chain:work''] [''home'' \<mapsto> ''b'']) \<noteq> Inr ()"
  using chain_checks_exact[of "[sample_chain_route]" "[''a'']" "[''home'']" "[''b'' \<mapsto> ''chain:work'']" "[''home'' \<mapsto> ''b'']"]
  by (simp add: sample_chain_route_def)

end
