(* ===== verification/Routing_Rules.thy ===== *)
theory Routing_Rules
  imports Node_Groups Route_Chains Py_Text "HOL-Library.Product_Lexorder" "HOL-Library.List_Lexorder"
  "HOL-Library.Char_ord"
begin

text \<open>
  \<open>src/rules/models.py\<close> and \<open>src/rules/rule_engine.py\<close>: routing rules, their validation and codec, and
  the evaluation of a connection against the rule groups in tier order.

  \<open>re.search\<close> on the pattern of a \<open>domain_regex\<close> condition is the parameter \<open>rs\<close>; it gives \<open>None\<close> for a
  pattern that does not compile. Strings compare by code points.
\<close>

section \<open>Models\<close>

definition RULE_FIELDS :: "string list" where
  "RULE_FIELDS = [''id'', ''action'', ''conditions'', ''enabled'']"

definition RULE_GROUP_FIELDS :: "string list" where
  "RULE_GROUP_FIELDS = [''name'', ''enabled'', ''rules'', ''priority'']"

definition ALLOWED_RULE_CONDITIONS :: "string list" where
  "ALLOWED_RULE_CONDITIONS =
     [''domain'', ''domain_suffix'', ''domain_keyword'', ''domain_regex'', ''ip_cidr'', ''port'',
      ''port_range'', ''protocol'', ''network'', ''ruleset_remote'', ''ruleset_builtin'',
      ''process_name'', ''process_path'']"

definition SIMPLE_RULE_ACTIONS :: "string list" where
  "SIMPLE_RULE_ACTIONS = [''direct'', ''current_profile'', ''auto_select'', ''block'']"

definition DEFAULT_RULE_GROUPS :: "string list" where
  "DEFAULT_RULE_GROUPS =
     [''recommended'', ''direct'', ''proxy'', ''block'', ''custom'', ''app'', ''imported'']"

type_synonym conditions = "(string \<times> string list) list"

record rule =
  r_id :: string
  r_action :: string
  r_conditions :: conditions
  r_enabled :: bool

definition validate_rule_action :: "(pyval \<Rightarrow> string) \<Rightarrow> pyval \<Rightarrow> string res" where
  "validate_rule_action rp v =
     (let action = py_strip (py_str rp v) in
      if action \<in> set SIMPLE_RULE_ACTIONS then Inr action
      else if group_target action \<noteq> None then Inr action
      else res_bind (chain_target action) (\<lambda>t.
        if t \<noteq> None then Inr action else Inl ValueError))"

definition validate_condition :: "(pyval \<Rightarrow> string) \<Rightarrow> string \<times> pyval \<Rightarrow> (string \<times> string list) res" where
  "validate_condition rp = (\<lambda>(k, v).
     if k \<notin> set ALLOWED_RULE_CONDITIONS then Inl ValueError
     else case v of
         PList (x # xs) \<Rightarrow>
           (let entries = map (py_strip \<circ> py_str rp) (x # xs) in
            if [] \<in> set entries then Inl ValueError else Inr (k, entries))
       | _ \<Rightarrow> Inl ValueError)"

definition validate_rule_conditions :: "(pyval \<Rightarrow> string) \<Rightarrow> pyval \<Rightarrow> conditions res" where
  "validate_rule_conditions rp v = (case v of
       PDict d \<Rightarrow>
         res_bind (res_map (validate_condition rp) d) (\<lambda>validated.
           if validated = [] then Inl ValueError else Inr validated)
     | _ \<Rightarrow> Inl ValueError)"

definition validate_group_name :: "(pyval \<Rightarrow> string) \<Rightarrow> pyval \<Rightarrow> string res" where
  "validate_group_name rp v =
     (let name = py_strip (py_str rp v) in if is_slug name then Inr name else Inl ValueError)"

definition Rule_init :: "(pyval \<Rightarrow> string) \<Rightarrow> pyval \<Rightarrow> pyval \<Rightarrow> pyval \<Rightarrow> bool \<Rightarrow> rule res" where
  "Rule_init rp i action conds enabled =
     (let rid = py_strip (py_str rp i) in
      if rid = [] then Inl ValueError
      else res_bind (validate_rule_action rp action) (\<lambda>a.
        res_bind (validate_rule_conditions rp conds) (\<lambda>cs.
          Inr \<lparr>r_id = rid, r_action = a, r_conditions = cs, r_enabled = enabled\<rparr>)))"

definition conditions_value :: "conditions \<Rightarrow> pyval" where
  "conditions_value cs = PDict (map (\<lambda>(k, vs). (k, PList (map PStr vs))) cs)"

definition Rule_to_dict :: "rule \<Rightarrow> dict" where
  "Rule_to_dict r =
     [(''id'', PStr (r_id r)),
      (''action'', PStr (r_action r)),
      (''conditions'', conditions_value (r_conditions r)),
      (''enabled'', PBool (r_enabled r))]"

definition Rule_from_dict :: "(pyval \<Rightarrow> string) \<Rightarrow> pyval \<Rightarrow> rule res" where
  "Rule_from_dict rp v =
     res_bind (object_fields v RULE_FIELDS) (\<lambda>data.
     res_bind (dict_item data ''id'') (\<lambda>i.
     res_bind (dict_item data ''action'') (\<lambda>a.
     res_bind (strict_bool (dict_get data ''enabled'' (PBool True))) (\<lambda>en.
       Rule_init rp (PStr (py_str rp i)) (PStr (py_str rp a)) (dict_get data ''conditions'' (PDict [])) en))))"

record rule_group =
  rg_name :: string
  rg_enabled :: bool
  rg_rules :: "rule list"
  rg_priority :: int

text \<open>The constructor takes rules as objects (\<open>Inl\<close>) or as raw entries (\<open>Inr\<close>).\<close>

definition RuleGroup_init ::
  "(pyval \<Rightarrow> string) \<Rightarrow> pyval \<Rightarrow> bool \<Rightarrow> (rule + pyval) list \<Rightarrow> int \<Rightarrow> rule_group res" where
  "RuleGroup_init rp name enabled rules priority =
     res_bind (validate_group_name rp name) (\<lambda>n.
     res_bind (res_map (\<lambda>e. case e of Inl r \<Rightarrow> Inr r | Inr v \<Rightarrow> Rule_from_dict rp v) rules) (\<lambda>rs.
       if length (map r_id rs) \<noteq> length (remdups (map r_id rs)) then Inl ValueError
       else Inr \<lparr>rg_name = n, rg_enabled = enabled, rg_rules = rs, rg_priority = priority\<rparr>))"

definition RuleGroup_to_dict :: "rule_group \<Rightarrow> dict" where
  "RuleGroup_to_dict g =
     [(''name'', PStr (rg_name g)),
      (''enabled'', PBool (rg_enabled g)),
      (''rules'', PList (map (PDict \<circ> Rule_to_dict) (rg_rules g))),
      (''priority'', PInt (rg_priority g))]"

definition RuleGroup_from_dict :: "(pyval \<Rightarrow> string) \<Rightarrow> dict \<Rightarrow> rule_group res" where
  "RuleGroup_from_dict rp data =
     res_bind (reject_unknown_keys data RULE_GROUP_FIELDS) (\<lambda>_.
     res_bind (case dict_get data ''rules'' (PList []) of PList xs \<Rightarrow> Inr xs | _ \<Rightarrow> Inl ValueError) (\<lambda>raw.
     res_bind (dict_item data ''name'') (\<lambda>name.
     res_bind (strict_bool (dict_get data ''enabled'' (PBool True))) (\<lambda>en.
     res_bind (res_map (Rule_from_dict rp) raw) (\<lambda>rs.
     res_bind (strict_int (dict_get data ''priority'' (PInt 100))) (\<lambda>p.
       RuleGroup_init rp (PStr (py_str rp name)) en (map Inl rs) p))))))"


section \<open>Matching\<close>

definition PRIORITY_TIER_ORDER :: "string list" where
  "PRIORITY_TIER_ORDER = [''block'', ''custom'', ''app'', ''imported'', ''recommended'']"

definition UNEVALUABLE_CONDITIONS :: "string list" where
  "UNEVALUABLE_CONDITIONS = [''ruleset_remote'', ''ruleset_builtin'']"

record traffic_info =
  ti_domain :: "string option"
  ti_ip :: "string option"
  ti_port :: "int option"
  ti_protocol :: "string option"
  ti_network :: "string option"
  ti_process_name :: "string option"
  ti_process_path :: "string option"

definition normal_domain :: "string \<Rightarrow> string" where
  "normal_domain s = py_rstrip_chars [CHR ''.''] (py_lower (py_strip s))"

definition TrafficInfo_init :: "traffic_info \<Rightarrow> traffic_info" where
  "TrafficInfo_init t =
     t\<lparr>ti_domain := (case ti_domain t of
         None \<Rightarrow> None
       | Some d \<Rightarrow> (let n = normal_domain d in if n = [] then None else Some n))\<rparr>"

record rule_match =
  rm_action :: string
  rm_group_name :: "string option"
  rm_rule_id :: "string option"

definition match_domain :: "string \<Rightarrow> string \<Rightarrow> bool" where
  "match_domain value domain \<longleftrightarrow> domain = normal_domain value"

definition match_domain_suffix :: "string \<Rightarrow> string \<Rightarrow> bool" where
  "match_domain_suffix value domain =
     (let s = normal_domain value;
          suffix = (if py_startswith s ''.'' then drop 1 s else s)
      in suffix \<noteq> [] \<and> (domain = suffix \<or> py_endswith domain (''.'' @ suffix)))"

definition match_domain_keyword :: "string \<Rightarrow> string \<Rightarrow> bool" where
  "match_domain_keyword value domain = py_in (py_lower (py_strip value)) domain"

definition match_domain_regex :: "(string \<Rightarrow> string \<Rightarrow> bool option) \<Rightarrow> string \<Rightarrow> string \<Rightarrow> bool" where
  "match_domain_regex rs value domain = (case rs value domain of None \<Rightarrow> False | Some b \<Rightarrow> b)"

definition match_ip_cidr :: "string \<Rightarrow> string \<Rightarrow> bool" where
  "match_ip_cidr value ip = (case (ip_address ip, ip_network value) of
       (Some a, Some w) \<Rightarrow> ip_in_net a w
     | _ \<Rightarrow> False)"

definition match_port :: "string \<Rightarrow> int \<Rightarrow> bool" where
  "match_port value port = (case py_int value of None \<Rightarrow> False | Some n \<Rightarrow> n = port)"

definition match_port_range :: "string \<Rightarrow> int \<Rightarrow> bool" where
  "match_port_range value port =
     (let left = before_char (CHR '':'') value in
      case after_char (CHR '':'') value of
        None \<Rightarrow> match_port value port
      | Some right \<Rightarrow>
          (case (if left = [] then Some 0 else py_int left, if right = [] then Some 65535 else py_int right) of
             (Some lower, Some upper) \<Rightarrow> lower \<le> port \<and> port \<le> upper
           | _ \<Rightarrow> False))"

definition match_exact_ci :: "string \<Rightarrow> string \<Rightarrow> bool" where
  "match_exact_ci value candidate \<longleftrightarrow> py_lower (py_strip value) = py_lower (py_strip candidate)"

definition match_exact :: "string \<Rightarrow> string \<Rightarrow> bool" where
  "match_exact value candidate \<longleftrightarrow> py_strip value = candidate"

text \<open>
  The table \<open>_MATCHERS\<close>. An entry reads its field from the traffic and, when the field is present,
  gives the test applied to each value of the condition.
\<close>

type_synonym matcher = "traffic_info \<Rightarrow> (string \<Rightarrow> bool) option"

definition field_test :: "(traffic_info \<Rightarrow> 'f option) \<Rightarrow> (string \<Rightarrow> 'f \<Rightarrow> bool) \<Rightarrow> matcher" where
  "field_test getter test t = (case getter t of None \<Rightarrow> None | Some x \<Rightarrow> Some (\<lambda>v. test v x))"

definition MATCHERS :: "(string \<Rightarrow> string \<Rightarrow> bool option) \<Rightarrow> (string \<times> matcher) list" where
  "MATCHERS rs =
     [(''domain'', field_test ti_domain match_domain),
      (''domain_suffix'', field_test ti_domain match_domain_suffix),
      (''domain_keyword'', field_test ti_domain match_domain_keyword),
      (''domain_regex'', field_test ti_domain (match_domain_regex rs)),
      (''ip_cidr'', field_test ti_ip match_ip_cidr),
      (''port'', field_test ti_port match_port),
      (''port_range'', field_test ti_port match_port_range),
      (''protocol'', field_test ti_protocol match_exact_ci),
      (''network'', field_test ti_network match_exact_ci),
      (''process_name'', field_test ti_process_name match_exact),
      (''process_path'', field_test ti_process_path match_exact)]"

definition condition_matches ::
  "(string \<Rightarrow> string \<Rightarrow> bool option) \<Rightarrow> string \<Rightarrow> string list \<Rightarrow> traffic_info \<Rightarrow> bool res" where
  "condition_matches rs k values t =
     (if k \<in> set UNEVALUABLE_CONDITIONS then Inr False
      else case map_of (MATCHERS rs) k of
          None \<Rightarrow> Inl ValueError
        | Some m \<Rightarrow> (case m t of None \<Rightarrow> Inr False | Some test \<Rightarrow> Inr (list_ex test values)))"

fun all_conditions :: "(string \<Rightarrow> string \<Rightarrow> bool option) \<Rightarrow> conditions \<Rightarrow> traffic_info \<Rightarrow> bool res" where
  "all_conditions rs [] t = Inr True"
| "all_conditions rs ((k, vs) # cs) t =
     res_bind (condition_matches rs k vs t) (\<lambda>b. if b then all_conditions rs cs t else Inr False)"

definition rule_matches :: "(string \<Rightarrow> string \<Rightarrow> bool option) \<Rightarrow> rule \<Rightarrow> traffic_info \<Rightarrow> bool res" where
  "rule_matches rs r t =
     (if r_conditions r = [] then Inr False else all_conditions rs (r_conditions r) t)"


section \<open>Evaluation\<close>

type_synonym tiers = "(string \<times> rule_group list) list"

definition tier_append :: "tiers \<Rightarrow> string \<Rightarrow> rule_group \<Rightarrow> tiers" where
  "tier_append ts n g = map (\<lambda>(m, gs). if m = n then (m, gs @ [g]) else (m, gs)) ts"

definition tier_sort :: "tiers \<Rightarrow> tiers" where
  "tier_sort ts =
     map (\<lambda>(m, gs). if m = ''imported'' then (m, sort_key (\<lambda>g. (rg_priority g, rg_name g)) gs) else (m, gs)) ts"

definition tier_add :: "tiers \<Rightarrow> rule_group \<Rightarrow> tiers" where
  "tier_add ts g =
     (if rg_name g = ''imported'' \<or> py_startswith (rg_name g) ''imported-'' then tier_append ts ''imported'' g
      else if rg_name g \<in> set (map fst ts) then tier_append ts (rg_name g) g
      else ts)"

definition group_by_tier :: "rule_group list \<Rightarrow> tiers" where
  "group_by_tier gs = tier_sort (foldl tier_add (map (\<lambda>n. (n, [])) PRIORITY_TIER_ORDER) gs)"

definition RuleEngine_init :: "string \<Rightarrow> string res" where
  "RuleEngine_init final_policy =
     (if final_policy \<in> set SIMPLE_RULE_ACTIONS then Inr final_policy else Inl ValueError)"

fun first_rule ::
  "(string \<Rightarrow> string \<Rightarrow> bool option) \<Rightarrow> traffic_info \<Rightarrow> rule list \<Rightarrow> rule option res" where
  "first_rule rs t [] = Inr None"
| "first_rule rs t (r # rest) =
     (if \<not> r_enabled r then first_rule rs t rest
      else res_bind (rule_matches rs r t) (\<lambda>b. if b then Inr (Some r) else first_rule rs t rest))"

fun first_group ::
  "(string \<Rightarrow> string \<Rightarrow> bool option) \<Rightarrow> traffic_info \<Rightarrow> rule_group list \<Rightarrow> rule_match option res" where
  "first_group rs t [] = Inr None"
| "first_group rs t (g # rest) =
     (if \<not> rg_enabled g then first_group rs t rest
      else res_bind (first_rule rs t (rg_rules g)) (\<lambda>m. case m of
          Some r \<Rightarrow> Inr (Some \<lparr>rm_action = r_action r, rm_group_name = Some (rg_name g), rm_rule_id = Some (r_id r)\<rparr>)
        | None \<Rightarrow> first_group rs t rest))"

fun first_tier ::
  "(string \<Rightarrow> string \<Rightarrow> bool option) \<Rightarrow> traffic_info \<Rightarrow> tiers \<Rightarrow> string list \<Rightarrow> rule_match option res" where
  "first_tier rs t ts [] = Inr None"
| "first_tier rs t ts (n # rest) =
     (case map_of ts n of
        None \<Rightarrow> Inl KeyError
      | Some gs \<Rightarrow> res_bind (first_group rs t gs) (\<lambda>m. case m of
            Some x \<Rightarrow> Inr (Some x)
          | None \<Rightarrow> first_tier rs t ts rest))"

definition evaluate ::
  "(string \<Rightarrow> string \<Rightarrow> bool option) \<Rightarrow> string \<Rightarrow> traffic_info \<Rightarrow> rule_group list \<Rightarrow> rule_match res" where
  "evaluate rs final_policy t groups =
     res_bind (first_tier rs t (group_by_tier groups) PRIORITY_TIER_ORDER) (\<lambda>m. case m of
         Some x \<Rightarrow> Inr x
       | None \<Rightarrow> Inr \<lparr>rm_action = final_policy, rm_group_name = None, rm_rule_id = None\<rparr>)"


section \<open>Well-formed rules\<close>

definition action_valid :: "string \<Rightarrow> bool" where
  "action_valid a \<longleftrightarrow> py_strip a = a \<and>
     (a \<in> set SIMPLE_RULE_ACTIONS \<or> group_target a \<noteq> None \<or>
      (case chain_target a of Inr (Some c) \<Rightarrow> True | _ \<Rightarrow> False))"

definition condition_valid :: "string \<times> string list \<Rightarrow> bool" where
  "condition_valid = (\<lambda>(k, vs). k \<in> set ALLOWED_RULE_CONDITIONS \<and> vs \<noteq> [] \<and> list_all stripped vs)"

definition rule_valid :: "rule \<Rightarrow> bool" where
  "rule_valid r \<longleftrightarrow> stripped (r_id r) \<and> action_valid (r_action r) \<and> r_conditions r \<noteq> [] \<and>
     list_all condition_valid (r_conditions r)"

definition group_valid :: "rule_group \<Rightarrow> bool" where
  "group_valid g \<longleftrightarrow> is_slug (rg_name g) \<and> list_all rule_valid (rg_rules g) \<and> distinct (map r_id (rg_rules g))"

lemma validate_rule_action_valid: "validate_rule_action rp v = Inr a \<Longrightarrow> action_valid a"
  by (auto simp: validate_rule_action_def action_valid_def Let_def split: if_splits option.splits)

lemma validate_rule_action_id: "action_valid a \<Longrightarrow> validate_rule_action rp (PStr a) = Inr a"
  by (auto simp: validate_rule_action_def action_valid_def split: sum.splits option.splits)

lemma validate_condition_valid: "validate_condition rp e = Inr c \<Longrightarrow> condition_valid c"
  by (cases e)
    (auto simp: validate_condition_def condition_valid_def stripped_def list_all_iff Let_def
      split: if_splits pyval.splits list.splits)

lemma validate_condition_id:
  assumes "condition_valid (k, vs)"
  shows "validate_condition rp (k, PList (map PStr vs)) = Inr (k, vs)"
proof -
  obtain v ws where vs: "vs = v # ws" using assms by (cases vs) (auto simp: condition_valid_def)
  have strip: "map (py_strip \<circ> py_str rp) (map PStr vs) = vs" and ne: "[] \<notin> set vs"
    using assms by (auto simp: condition_valid_def list_all_iff stripped_def intro: map_idI)
  have "validate_condition rp (k, PList (map PStr vs)) =
      (let entries = map (py_strip \<circ> py_str rp) (map PStr vs) in
       if [] \<in> set entries then Inl ValueError else Inr (k, entries))"
    using assms by (simp add: vs validate_condition_def condition_valid_def image_image)
  then show ?thesis unfolding strip using ne by simp
qed

lemma validate_rule_conditions_valid:
  assumes "validate_rule_conditions rp v = Inr cs"
  shows "cs \<noteq> [] \<and> list_all condition_valid cs"
proof -
  obtain d where d: "res_map (validate_condition rp) d = Inr cs" "cs \<noteq> []"
    using assms by (auto simp: validate_rule_conditions_def split: pyval.splits if_splits)
  have "condition_valid c" if "c \<in> set cs" for c
    using res_map_set[OF d(1) that] by (auto dest: validate_condition_valid)
  then show ?thesis using d(2) by (simp add: list_all_iff)
qed

lemma validate_rule_conditions_id:
  assumes "cs \<noteq> []" and "list_all condition_valid cs"
  shows "validate_rule_conditions rp (conditions_value cs) = Inr cs"
proof -
  have "res_map (validate_condition rp) (map (\<lambda>(k, vs). (k, PList (map PStr vs))) cs) = Inr cs"
  proof (rule res_map_id)
    fix c assume c: "c \<in> set cs"
    then have "condition_valid c" using assms(2) by (simp add: list_all_iff)
    then show "validate_condition rp (case c of (k, vs) \<Rightarrow> (k, PList (map PStr vs))) = Inr c"
      by (cases c) (simp add: validate_condition_id)
  qed
  then show ?thesis using assms(1) by (simp add: validate_rule_conditions_def conditions_value_def)
qed

lemma Rule_init_valid: "Rule_init rp i a c en = Inr r \<Longrightarrow> rule_valid r"
  by (auto simp: Rule_init_def rule_valid_def stripped_def Let_def split: if_splits
      dest!: validate_rule_action_valid validate_rule_conditions_valid)

lemma Rule_init_id:
  "rule_valid r \<Longrightarrow>
     Rule_init rp (PStr (r_id r)) (PStr (r_action r)) (conditions_value (r_conditions r)) en = Inr (r\<lparr>r_enabled := en\<rparr>)"
  by (simp add: Rule_init_def rule_valid_def stripped_def validate_rule_action_id validate_rule_conditions_id)

lemma Rule_from_dict_valid: "Rule_from_dict rp v = Inr r \<Longrightarrow> rule_valid r"
  by (auto simp: Rule_from_dict_def dest: Rule_init_valid)

lemma Rule_round_trip: "rule_valid r \<Longrightarrow> Rule_from_dict rp (PDict (Rule_to_dict r)) = Inr r"
proof -
  assume r: "rule_valid r"
  have "object_fields (PDict (Rule_to_dict r)) RULE_FIELDS = Inr (Rule_to_dict r)"
    by (simp add: object_fields_Inr Rule_to_dict_def RULE_FIELDS_def)
  then show ?thesis
    by (simp add: Rule_from_dict_def) (simp add: Rule_to_dict_def dict_item_def dict_get_def Rule_init_id[OF r])
qed

lemma RuleGroup_init_valid:
  assumes "RuleGroup_init rp name en rules p = Inr g" and "\<forall>r. Inl r \<in> set rules \<longrightarrow> rule_valid r"
  shows "group_valid g"
proof -
  define conv where "conv e = (case e of Inl r \<Rightarrow> Inr r | Inr v \<Rightarrow> Rule_from_dict rp v)" for e
  from assms(1) have name: "is_slug (rg_name g)" and rs: "res_map conv rules = Inr (rg_rules g)"
    and len: "length (rg_rules g) = length (remdups (map r_id (rg_rules g)))"
    by (auto simp: RuleGroup_init_def validate_group_name_def Let_def conv_def[abs_def] split: if_splits)
  have "rule_valid r" if r: "r \<in> set (rg_rules g)" for r
  proof -
    obtain e where e: "e \<in> set rules" "conv e = Inr r" using res_map_set[OF rs r] by blast
    show ?thesis
    proof (cases e)
      case (Inl x)
      then show ?thesis using e assms(2) by (simp add: conv_def)
    next
      case (Inr v)
      then show ?thesis using e(2) Rule_from_dict_valid[of rp v r] by (simp add: conv_def)
    qed
  qed
  moreover have "distinct (map r_id (rg_rules g))"
    using len by (metis length_map length_remdups_eq remdups_id_iff_distinct)
  ultimately show ?thesis using name by (simp add: group_valid_def list_all_iff)
qed

lemma RuleGroup_init_id:
  "group_valid g \<Longrightarrow>
     RuleGroup_init rp (PStr (rg_name g)) (rg_enabled g) (map Inl (rg_rules g)) (rg_priority g) = Inr g"
proof -
  assume "group_valid g"
  moreover have "res_map (\<lambda>e. case e of Inl r \<Rightarrow> Inr r | Inr v \<Rightarrow> Rule_from_dict rp v) (map Inl (rg_rules g)) =
      Inr (rg_rules g)"
    by (rule res_map_id) simp
  ultimately show ?thesis
    by (simp add: RuleGroup_init_def validate_group_name_def group_valid_def distinct_remdups_id)
qed

lemma RuleGroup_from_dict_valid:
  assumes "RuleGroup_from_dict rp d = Inr g"
  shows "group_valid g"
proof -
  from assms obtain raw rs n en p where "res_map (Rule_from_dict rp) raw = Inr rs"
    "RuleGroup_init rp n en (map Inl rs) p = Inr g"
    by (auto simp: RuleGroup_from_dict_def)
  then show ?thesis
    by (intro RuleGroup_init_valid) (auto dest!: res_map_set Rule_from_dict_valid)
qed

lemma RuleGroup_round_trip:
  assumes "group_valid g"
  shows "RuleGroup_from_dict rp (RuleGroup_to_dict g) = Inr g"
proof -
  have "res_map (Rule_from_dict rp) (map (PDict \<circ> Rule_to_dict) (rg_rules g)) = Inr (rg_rules g)"
    using assms by (intro res_map_id) (auto simp: group_valid_def list_all_iff Rule_round_trip)
  moreover have "reject_unknown_keys (RuleGroup_to_dict g) RULE_GROUP_FIELDS = Inr ()"
    by (simp add: RuleGroup_to_dict_def RULE_GROUP_FIELDS_def)
  ultimately show ?thesis
    by (simp add: RuleGroup_from_dict_def del: reject_unknown_keys_Inr)
      (simp add: RuleGroup_to_dict_def dict_get_def dict_item_def RuleGroup_init_id[OF assms])
qed


section \<open>What a rule matches\<close>

text \<open>
  The declarative reading of a rule: every condition holds, and a condition holds when its field is
  present and one of its values accepts it. The two kinds of condition without a matcher never hold.
\<close>

definition condition_holds ::
  "(string \<Rightarrow> string \<Rightarrow> bool option) \<Rightarrow> traffic_info \<Rightarrow> string \<times> string list \<Rightarrow> bool" where
  "condition_holds rs t = (\<lambda>(k, vs). case map_of (MATCHERS rs) k of
       None \<Rightarrow> False
     | Some m \<Rightarrow> (case m t of None \<Rightarrow> False | Some test \<Rightarrow> \<exists>v \<in> set vs. test v))"

definition rule_holds :: "(string \<Rightarrow> string \<Rightarrow> bool option) \<Rightarrow> traffic_info \<Rightarrow> rule \<Rightarrow> bool" where
  "rule_holds rs t r \<longleftrightarrow> (\<forall>c \<in> set (r_conditions r). condition_holds rs t c)"

text \<open>The assertion at the end of the matcher table: every allowed condition is covered.\<close>

lemma matchers_complete:
  "set ALLOWED_RULE_CONDITIONS = set (map fst (MATCHERS rs)) \<union> set UNEVALUABLE_CONDITIONS"
  by (auto simp: ALLOWED_RULE_CONDITIONS_def MATCHERS_def UNEVALUABLE_CONDITIONS_def)

lemma unevaluable_no_matcher: "k \<in> set UNEVALUABLE_CONDITIONS \<Longrightarrow> map_of (MATCHERS rs) k = None"
proof -
  have "map_of (MATCHERS rs) ''ruleset_remote'' = None" "map_of (MATCHERS rs) ''ruleset_builtin'' = None"
    by (simp_all add: MATCHERS_def)
  moreover assume "k \<in> set UNEVALUABLE_CONDITIONS"
  then have "k = ''ruleset_remote'' \<or> k = ''ruleset_builtin''"
    unfolding UNEVALUABLE_CONDITIONS_def list.set insert_iff empty_iff by blast
  ultimately show ?thesis by (elim disjE) (simp_all only:)
qed

lemma condition_matches_holds:
  assumes "condition_valid (k, vs)"
  shows "condition_matches rs k vs t = Inr (condition_holds rs t (k, vs))"
proof (cases "k \<in> set UNEVALUABLE_CONDITIONS")
  case True
  then show ?thesis by (simp add: condition_matches_def condition_holds_def unevaluable_no_matcher)
next
  case False
  then have "k \<in> set (map fst (MATCHERS rs))"
    using assms matchers_complete[of rs] by (auto simp: condition_valid_def)
  then obtain m where "map_of (MATCHERS rs) k = Some m"
    by (metis list.set_map map_of_eq_None_iff option.exhaust)
  with False show ?thesis
    by (simp add: condition_matches_def condition_holds_def list_ex_iff split: option.split)
qed

lemma all_conditions_holds:
  "list_all condition_valid cs \<Longrightarrow> all_conditions rs cs t = Inr (\<forall>c \<in> set cs. condition_holds rs t c)"
proof (induction cs)
  case (Cons c cs)
  obtain k vs where c: "c = (k, vs)" by (cases c)
  show ?case using Cons by (simp add: c condition_matches_holds)
qed simp

lemma rule_matches_holds: "rule_valid r \<Longrightarrow> rule_matches rs r t = Inr (rule_holds rs t r)"
  by (simp add: rule_valid_def rule_matches_def rule_holds_def all_conditions_holds)

text \<open>The first enabled rule that holds, by its position.\<close>

definition rule_fires :: "(string \<Rightarrow> string \<Rightarrow> bool option) \<Rightarrow> traffic_info \<Rightarrow> rule \<Rightarrow> bool" where
  "rule_fires rs t r \<longleftrightarrow> r_enabled r \<and> rule_holds rs t r"

lemma first_rule_find:
  "list_all rule_valid rl \<Longrightarrow> first_rule rs t rl = Inr (find (rule_fires rs t) rl)"
  by (induction rl) (auto simp: rule_fires_def rule_matches_holds)

definition group_fires :: "(string \<Rightarrow> string \<Rightarrow> bool option) \<Rightarrow> traffic_info \<Rightarrow> rule_group \<Rightarrow> bool" where
  "group_fires rs t g \<longleftrightarrow> rg_enabled g \<and> (\<exists>r \<in> set (rg_rules g). rule_fires rs t r)"

definition group_match :: "(string \<Rightarrow> string \<Rightarrow> bool option) \<Rightarrow> traffic_info \<Rightarrow> rule_group \<Rightarrow> rule_match" where
  "group_match rs t g = (let r = the (find (rule_fires rs t) (rg_rules g)) in
     \<lparr>rm_action = r_action r, rm_group_name = Some (rg_name g), rm_rule_id = Some (r_id r)\<rparr>)"

lemma first_group_find:
  "list_all group_valid gs \<Longrightarrow>
     first_group rs t gs = Inr (map_option (group_match rs t) (find (group_fires rs t) gs))"
proof (induction gs)
  case (Cons g gs)
  have "first_rule rs t (rg_rules g) = Inr (find (rule_fires rs t) (rg_rules g))"
    using Cons.prems by (simp add: first_rule_find group_valid_def)
  then show ?case
    using Cons by (cases "find (rule_fires rs t) (rg_rules g)")
      (auto simp: group_fires_def group_match_def find_None_iff dest!: find_Some_in)
qed simp


section \<open>The order of evaluation\<close>

definition tier_name :: "rule_group \<Rightarrow> string option" where
  "tier_name g =
     (if rg_name g = ''imported'' \<or> py_startswith (rg_name g) ''imported-'' then Some ''imported''
      else if rg_name g \<in> set PRIORITY_TIER_ORDER then Some (rg_name g)
      else None)"

definition tier_index :: "string \<Rightarrow> nat" where
  "tier_index n = length (takeWhile (\<lambda>m. m \<noteq> n) PRIORITY_TIER_ORDER)"

definition group_rank :: "rule_group \<Rightarrow> nat \<times> int \<times> string" where
  "group_rank g = (let n = the (tier_name g) in
     (tier_index n, if n = ''imported'' then rg_priority g else 0, rg_name g))"

definition tier_groups :: "rule_group list \<Rightarrow> string \<Rightarrow> rule_group list" where
  "tier_groups gs n =
     (let xs = filter (\<lambda>g. tier_name g = Some n) gs in
      if n = ''imported'' then sort_key (\<lambda>g. (rg_priority g, rg_name g)) xs else xs)"

definition ordered_groups :: "rule_group list \<Rightarrow> rule_group list" where
  "ordered_groups gs = concat (map (tier_groups gs) PRIORITY_TIER_ORDER)"

lemma imported_tier: "''imported'' \<in> set PRIORITY_TIER_ORDER"
  by (simp add: PRIORITY_TIER_ORDER_def)

lemma tier_add_map:
  "tier_add (map (\<lambda>n. (n, f n)) PRIORITY_TIER_ORDER) g =
     map (\<lambda>n. (n, f n @ filter (\<lambda>h. tier_name h = Some n) [g])) PRIORITY_TIER_ORDER"
proof -
  have ap: "tier_append (map (\<lambda>n. (n, f n)) ns) m g = map (\<lambda>n. (n, if n = m then f n @ [g] else f n)) ns" for ns m
    by (auto simp: tier_append_def)
  have keys: "map fst (map (\<lambda>n. (n, f n)) PRIORITY_TIER_ORDER) = PRIORITY_TIER_ORDER"
    by (simp add: comp_def)
  show ?thesis
    unfolding tier_add_def keys ap tier_name_def by (auto intro: map_cong)
qed

lemma foldl_tier_add:
  "foldl tier_add (map (\<lambda>n. (n, f n)) PRIORITY_TIER_ORDER) gs =
     map (\<lambda>n. (n, f n @ filter (\<lambda>g. tier_name g = Some n) gs)) PRIORITY_TIER_ORDER"
proof (induction gs arbitrary: f)
  case (Cons g gs)
  have "foldl tier_add (map (\<lambda>n. (n, f n)) PRIORITY_TIER_ORDER) (g # gs) =
      foldl tier_add (map (\<lambda>n. (n, f n @ filter (\<lambda>h. tier_name h = Some n) [g])) PRIORITY_TIER_ORDER) gs"
    by (simp only: foldl_Cons tier_add_map)
  also have "\<dots> = map (\<lambda>n. (n, (f n @ filter (\<lambda>h. tier_name h = Some n) [g]) @ filter (\<lambda>g. tier_name g = Some n) gs))
      PRIORITY_TIER_ORDER"
    by (rule Cons.IH)
  finally show ?case by simp
qed simp

lemma group_by_tier_groups: "group_by_tier gs = map (\<lambda>n. (n, tier_groups gs n)) PRIORITY_TIER_ORDER"
  using foldl_tier_add[of "\<lambda>n. []" gs]
  by (auto simp: group_by_tier_def tier_sort_def tier_groups_def intro: map_cong)

lemma map_of_tabulate: "n \<in> set ns \<Longrightarrow> map_of (map (\<lambda>n. (n, f n)) ns) n = Some (f n)"
  by (induction ns) auto

lemma set_tier_groups: "set (tier_groups gs n) = {g \<in> set gs. tier_name g = Some n}"
  by (simp add: tier_groups_def Let_def)

lemma tier_name_in_order: "tier_name g = Some n \<Longrightarrow> n \<in> set PRIORITY_TIER_ORDER"
  using imported_tier by (auto simp: tier_name_def split: if_splits)

lemma set_ordered_groups: "set (ordered_groups gs) = {g \<in> set gs. tier_name g \<noteq> None}"
  using tier_name_in_order by (auto simp: ordered_groups_def set_tier_groups)

lemma first_tier_find:
  assumes "list_all group_valid gs" and "set ns \<subseteq> set PRIORITY_TIER_ORDER"
  shows "first_tier rs t (group_by_tier gs) ns =
    Inr (map_option (group_match rs t) (find (group_fires rs t) (concat (map (tier_groups gs) ns))))"
  using assms(2)
proof (induction ns)
  case (Cons n ns)
  have "map_of (group_by_tier gs) n = Some (tier_groups gs n)"
    using Cons.prems unfolding group_by_tier_groups by (intro map_of_tabulate) simp
  moreover have "list_all group_valid (tier_groups gs n)"
    using assms(1) by (auto simp: list_all_iff set_tier_groups)
  ultimately show ?case
    using Cons by (simp add: first_group_find find_append split: option.split)
qed simp

lemma evaluate_find:
  assumes "list_all group_valid gs"
  shows "evaluate rs pol t gs = Inr (case find (group_fires rs t) (ordered_groups gs) of
       Some g \<Rightarrow> group_match rs t g
     | None \<Rightarrow> \<lparr>rm_action = pol, rm_group_name = None, rm_rule_id = None\<rparr>)"
  using first_tier_find[OF assms, of PRIORITY_TIER_ORDER rs t]
  by (simp add: evaluate_def ordered_groups_def split: option.split)

lemma find_first:
  "sorted (map f xs) \<Longrightarrow> find P xs = Some x \<Longrightarrow> y \<in> set xs \<Longrightarrow> P y \<Longrightarrow> f x \<le> f y"
  by (induction xs) (auto split: if_splits)

lemma sorted_constant: "(\<And>x. x \<in> set xs \<Longrightarrow> f x = c) \<Longrightarrow> sorted (map f xs)"
  by (induction xs) auto

lemma sorted_pair: "sorted ks \<Longrightarrow> sorted (map (\<lambda>k. (c :: 'a :: linorder, k)) ks)"
  by (induction ks) (auto simp: less_eq_prod_def)

lemma sorted_tier: "sorted (map group_rank (tier_groups gs n))"
proof (cases "n = ''imported''")
  case True
  have "map group_rank (tier_groups gs n) =
      map (\<lambda>k. (tier_index n, k)) (map (\<lambda>g. (rg_priority g, rg_name g)) (tier_groups gs n))"
    by (auto simp: set_tier_groups group_rank_def True)
  moreover have "sorted (map (\<lambda>g. (rg_priority g, rg_name g)) (tier_groups gs n))"
    by (simp add: tier_groups_def True)
  ultimately show ?thesis by (simp only: sorted_pair)
next
  case False
  show ?thesis
  proof (rule sorted_constant)
    fix g assume "g \<in> set (tier_groups gs n)"
    then have "tier_name g = Some n" by (simp add: set_tier_groups)
    then show "group_rank g = (tier_index n, 0, n)"
      using False by (auto simp: group_rank_def tier_name_def split: if_splits)
  qed
qed

lemma sorted_ordered: "sorted (map group_rank (ordered_groups gs))"
proof -
  have fst_rank: "fst (group_rank g) = tier_index n" if "g \<in> set (tier_groups gs n)" for g n
    using that by (simp add: set_tier_groups group_rank_def)
  have "group_rank g \<le> group_rank h"
    if "g \<in> set (tier_groups gs n)" "h \<in> set (tier_groups gs m)" "tier_index n < tier_index m" for g h n m
    using fst_rank[OF that(1)] fst_rank[OF that(2)] that(3) by (simp add: less_eq_prod_def)
  then show ?thesis
    by (simp add: ordered_groups_def PRIORITY_TIER_ORDER_def sorted_append sorted_tier tier_index_def ball_Un)
qed



section \<open>Properties\<close>

text \<open>A rule fires: its group is enabled and belongs to a tier, the rule is enabled and holds.\<close>

definition rule_hit ::
  "(string \<Rightarrow> string \<Rightarrow> bool option) \<Rightarrow> traffic_info \<Rightarrow> rule_group list \<Rightarrow> rule_group \<Rightarrow> nat \<Rightarrow> bool" where
  "rule_hit rs t gs g i \<longleftrightarrow> g \<in> set gs \<and> rg_enabled g \<and> tier_name g \<noteq> None \<and> i < length (rg_rules g) \<and>
     rule_fires rs t (rg_rules g ! i)"

definition hit_match :: "rule_group \<Rightarrow> nat \<Rightarrow> rule_match" where
  "hit_match g i =
     \<lparr>rm_action = r_action (rg_rules g ! i), rm_group_name = Some (rg_name g),
      rm_rule_id = Some (r_id (rg_rules g ! i))\<rparr>"

lemma group_fires_hit:
  "group_fires rs t g \<and> g \<in> set (ordered_groups gs) \<longleftrightarrow> (\<exists>i. rule_hit rs t gs g i)"
proof -
  have "(\<exists>r \<in> set (rg_rules g). rule_fires rs t r) \<longleftrightarrow> (\<exists>i < length (rg_rules g). rule_fires rs t (rg_rules g ! i))"
    by (metis in_set_conv_nth)
  then show ?thesis by (auto simp: group_fires_def set_ordered_groups rule_hit_def)
qed

lemma group_match_hit:
  assumes "group_fires rs t g" and "g \<in> set (ordered_groups gs)"
  shows "\<exists>i. rule_hit rs t gs g i \<and> group_match rs t g = hit_match g i \<and>
    (\<forall>j. rule_hit rs t gs g j \<longrightarrow> i \<le> j)"
proof -
  have "find (rule_fires rs t) (rg_rules g) \<noteq> None"
    using assms(1) by (auto simp: find_None_iff group_fires_def)
  then obtain r where r: "find (rule_fires rs t) (rg_rules g) = Some r" by blast
  then obtain i where i: "i < length (rg_rules g)" "rule_fires rs t (rg_rules g ! i)" "r = rg_rules g ! i"
    "\<forall>j<i. \<not> rule_fires rs t (rg_rules g ! j)"
    by (auto simp: find_Some_iff)
  have "rule_hit rs t gs g i" using assms i by (simp add: rule_hit_def group_fires_def set_ordered_groups)
  moreover have "group_match rs t g = hit_match g i" by (simp add: group_match_def hit_match_def r i(3) Let_def)
  moreover have "i \<le> j" if "rule_hit rs t gs g j" for j
    using i(4) that by (meson linorder_not_le rule_hit_def)
  ultimately show ?thesis by blast
qed



definition sample_rule :: "string \<Rightarrow> string \<Rightarrow> string \<Rightarrow> string \<Rightarrow> rule" where
  "sample_rule i a k v = \<lparr>r_id = i, r_action = a, r_conditions = [(k, [v])], r_enabled = True\<rparr>"

definition sample_rule_groups :: "rule_group list" where
  "sample_rule_groups =
     [\<lparr>rg_name = ''imported-a'', rg_enabled = True,
       rg_rules = [sample_rule ''r1'' ''auto_select'' ''domain'' ''www.example.org''], rg_priority = 100\<rparr>,
      \<lparr>rg_name = ''imported-b'', rg_enabled = True,
       rg_rules = [sample_rule ''r2'' ''direct'' ''domain_suffix'' ''.example.org''], rg_priority = 5\<rparr>,
      \<lparr>rg_name = ''direct'', rg_enabled = True,
       rg_rules = [sample_rule ''r3'' ''block'' ''port_range'' ''1:1023''], rg_priority = 1\<rparr>]"

definition sample_traffic :: traffic_info where
  "sample_traffic = TrafficInfo_init
     \<lparr>ti_domain = Some ''WWW.example.org.'', ti_ip = None, ti_port = Some 443, ti_protocol = None,
      ti_network = None, ti_process_name = None, ti_process_path = None\<rparr>"


end
