(* ===== verification/Routing_State.thy ===== *)
theory Routing_State
  imports Route_Chains
begin

text \<open>
  \<open>src/config/state_manager.py\<close>: the persistent switch state of the daemon (\<open>state.toml\<close>), its validation,
  the routing fields and the compatibility field \<open>active_mode\<close> that mirrors them. As with the JSON stores
  the file is seen at the level of its parsed table.
\<close>

section \<open>Tables\<close>

definition DEFAULT_STATE :: dict where
  "DEFAULT_STATE =
     [(''app_autostart_enabled'', PBool False),
      (''vpn_autoconnect_enabled'', PBool False),
      (''vpn_desired_state'', PStr ''off''),
      (''active_profile_id'', PStr ''''),
      (''routing_state_version'', PStr ''1''),
      (''routing_policy'', PStr ''rule''),
      (''capture_modes'', PStr ''local_proxy,tun''),
      (''default_route_action'', PStr ''current''),
      (''active_mode'', PStr ''rules''),
      (''language_mode'', PStr ''system''),
      (''selected_language'', PStr ''en''),
      (''last_failure_reason'', PStr ''''),
      (''last_failure_at'', PStr '''')]"

definition ALLOWED_VPN_DESIRED_STATES :: "string list" where
  "ALLOWED_VPN_DESIRED_STATES = [''on'', ''off'']"

definition ALLOWED_ACTIVE_MODES :: "string list" where
  "ALLOWED_ACTIVE_MODES = [''rules'', ''global'', ''direct'', ''tun'', ''proxy'']"

definition SUPPORTED_ROUTING_STATE_VERSION :: string where
  "SUPPORTED_ROUTING_STATE_VERSION = ''1''"

definition ALLOWED_ROUTING_POLICIES :: "string list" where
  "ALLOWED_ROUTING_POLICIES = [''rule'', ''global'']"

definition ALLOWED_CAPTURE_MODES :: "string list" where
  "ALLOWED_CAPTURE_MODES = [''local_proxy'', ''tun'', ''system_proxy'']"

definition CAPTURE_MODE_ORDER :: "string list" where
  "CAPTURE_MODE_ORDER = [''local_proxy'', ''tun'', ''system_proxy'']"

definition CONNECTABLE_CAPTURE_MODE_SETS :: "string list list" where
  "CONNECTABLE_CAPTURE_MODE_SETS = [[''local_proxy''], [''local_proxy'', ''tun'']]"

definition REPRESENTABLE_CAPTURE_MODE_SETS :: "string list list" where
  "REPRESENTABLE_CAPTURE_MODE_SETS =
     CONNECTABLE_CAPTURE_MODE_SETS @
     [[''local_proxy'', ''system_proxy''], [''local_proxy'', ''tun'', ''system_proxy'']]"

definition ALLOWED_DEFAULT_ROUTE_ACTIONS :: "string list" where
  "ALLOWED_DEFAULT_ROUTE_ACTIONS = [''current'', ''direct'', ''block'']"

definition ALLOWED_LANGUAGE_MODES :: "string list" where
  "ALLOWED_LANGUAGE_MODES = [''system'', ''manual'']"

definition STATE_BOOL_FIELDS :: "string list" where
  "STATE_BOOL_FIELDS = [''app_autostart_enabled'', ''vpn_autoconnect_enabled'']"

definition STATE_STRING_FIELDS :: "string list" where
  "STATE_STRING_FIELDS =
     [''vpn_desired_state'', ''active_profile_id'', ''routing_state_version'', ''routing_policy'',
      ''capture_modes'', ''default_route_action'', ''active_mode'', ''language_mode'',
      ''selected_language'', ''last_failure_reason'', ''last_failure_at'']"

definition ROUTING_STATE_FIELDS :: "string list" where
  "ROUTING_STATE_FIELDS =
     [''routing_state_version'', ''routing_policy'', ''capture_modes'', ''default_route_action'']"

definition legacy_row :: "string \<Rightarrow> string \<Rightarrow> string \<Rightarrow> dict" where
  "legacy_row policy capture action =
     [(''routing_state_version'', PStr SUPPORTED_ROUTING_STATE_VERSION), (''routing_policy'', PStr policy),
      (''capture_modes'', PStr capture), (''default_route_action'', PStr action)]"

definition LEGACY_MODE_TO_ROUTING_STATE :: "(string \<times> dict) list" where
  "LEGACY_MODE_TO_ROUTING_STATE =
     [(''rules'', legacy_row ''rule'' ''local_proxy,tun'' ''current''),
      (''global'', legacy_row ''global'' ''local_proxy,tun'' ''current''),
      (''direct'', legacy_row ''global'' ''local_proxy'' ''direct''),
      (''tun'', legacy_row ''global'' ''local_proxy,tun'' ''current''),
      (''proxy'', legacy_row ''global'' ''local_proxy'' ''current'')]"


section \<open>Routing fields\<close>

text \<open>The text of a field; every string field of a validated state holds a string.\<close>

definition state_text :: "dict \<Rightarrow> string \<Rightarrow> string" where
  "state_text d k = (case map_of d k of Some (PStr s) \<Rightarrow> s | _ \<Rightarrow> [])"

definition dict_update :: "dict \<Rightarrow> dict \<Rightarrow> dict" where
  "dict_update d e = foldl (\<lambda>a (k, v). dict_put a k v) d e"

definition routing_state_from_legacy_mode :: "string \<Rightarrow> dict res" where
  "routing_state_from_legacy_mode mode = (case map_of LEGACY_MODE_TO_ROUTING_STATE mode of
       None \<Rightarrow> Inl PersistentValidationError | Some row \<Rightarrow> Inr row)"

definition parse_capture_modes :: "string \<Rightarrow> string list res" where
  "parse_capture_modes value =
     (let raw = filter (\<lambda>s. s \<noteq> []) (map py_strip (py_split_char (CHR '','') value)) in
      if raw = [] then Inl PersistentValidationError
      else if \<not> distinct raw then Inl PersistentValidationError
      else if \<not> set raw \<subseteq> set ALLOWED_CAPTURE_MODES then Inl PersistentValidationError
      else
        (let modes = filter (\<lambda>m. m \<in> set raw) CAPTURE_MODE_ORDER in
         if ''system_proxy'' \<in> set modes \<and> ''local_proxy'' \<notin> set modes then Inl PersistentValidationError
         else if modes \<notin> set REPRESENTABLE_CAPTURE_MODE_SETS then Inl PersistentValidationError
         else Inr modes))"

definition capture_modes_connectable :: "string list \<Rightarrow> bool" where
  "capture_modes_connectable modes \<longleftrightarrow> modes \<in> set CONNECTABLE_CAPTURE_MODE_SETS"

definition validate_routing_fields :: "dict \<Rightarrow> dict res" where
  "validate_routing_fields st =
     (if state_text st ''routing_state_version'' \<noteq> SUPPORTED_ROUTING_STATE_VERSION
      then Inl PersistentValidationError
      else if state_text st ''routing_policy'' \<notin> set ALLOWED_ROUTING_POLICIES then Inl PersistentValidationError
      else res_bind
        (if state_text st ''default_route_action'' \<in> set ALLOWED_DEFAULT_ROUTE_ACTIONS then Inr True
         else res_bind (chain_target (state_text st ''default_route_action'')) (\<lambda>t. Inr (t \<noteq> None))) (\<lambda>ok.
          if \<not> ok then Inl PersistentValidationError
          else res_bind (parse_capture_modes (state_text st ''capture_modes'')) (\<lambda>modes.
            Inr (dict_put st ''capture_modes'' (PStr (py_join '','' modes))))))"

definition rollback_active_mode_for_routing_state :: "dict \<Rightarrow> string res" where
  "rollback_active_mode_for_routing_state st =
     (let policy = state_text st ''routing_policy''; action = state_text st ''default_route_action'' in
      res_bind (parse_capture_modes (state_text st ''capture_modes'')) (\<lambda>modes.
        if policy = ''rule'' \<and> action = ''current'' \<and> ''tun'' \<notin> set modes then Inr ''rules''
        else if policy = ''global'' \<and> modes = [''local_proxy''] \<and> action = ''current'' then Inr ''global''
        else if policy = ''global'' \<and> modes = [''local_proxy''] \<and> action = ''direct'' then Inr ''direct''
        else if policy = ''global'' \<and> ''tun'' \<in> set modes \<and> action = ''current'' then Inr ''tun''
        else Inl PersistentValidationError))"

text \<open>The three fields in which a state agrees with a row of the legacy table.\<close>

definition same_routing :: "dict \<Rightarrow> dict \<Rightarrow> bool" where
  "same_routing row st \<longleftrightarrow>
     map_of row ''routing_policy'' = map_of st ''routing_policy'' \<and>
     map_of row ''capture_modes'' = map_of st ''capture_modes'' \<and>
     map_of row ''default_route_action'' = map_of st ''default_route_action''"

definition compatibility_active_mode_for_routing_state :: "dict \<Rightarrow> string \<Rightarrow> string" where
  "compatibility_active_mode_for_routing_state st fallback =
     (case map_of LEGACY_MODE_TO_ROUTING_STATE fallback of
        Some row \<Rightarrow>
          if same_routing row st then fallback
          else (case rollback_active_mode_for_routing_state st of Inr m \<Rightarrow> m | Inl e \<Rightarrow> fallback)
      | None \<Rightarrow> (case rollback_active_mode_for_routing_state st of Inr m \<Rightarrow> m | Inl e \<Rightarrow> ''global''))"


section \<open>Validation and the state file\<close>

fun validate_entries :: "dict \<Rightarrow> dict \<Rightarrow> dict res" where
  "validate_entries acc [] = Inr acc"
| "validate_entries acc ((k, v) # rest) =
     (if k \<in> set STATE_BOOL_FIELDS then
        res_bind (strict_bool v) (\<lambda>b. validate_entries (dict_put acc k (PBool b)) rest)
      else if k \<in> set STATE_STRING_FIELDS then
        (case v of PStr s \<Rightarrow> validate_entries (dict_put acc k (PStr s)) rest
         | _ \<Rightarrow> Inl PersistentValidationError)
      else Inl PersistentValidationError)"

definition validate_modes :: "bool \<Rightarrow> dict \<Rightarrow> dict res" where
  "validate_modes has_routing st =
     (if \<not> has_routing then
        res_bind (routing_state_from_legacy_mode (state_text st ''active_mode'')) (\<lambda>row.
          Inr (dict_update st row))
      else
        res_bind (validate_routing_fields st) (\<lambda>st'.
          Inr (dict_put st' ''active_mode''
            (PStr (compatibility_active_mode_for_routing_state st' (state_text st' ''active_mode''))))))"

definition validate_state :: "dict \<Rightarrow> dict res" where
  "validate_state state =
     (let has_routing = list_ex (\<lambda>k. k \<in> set (map fst state)) ROUTING_STATE_FIELDS in
      res_bind (validate_entries DEFAULT_STATE state) (\<lambda>st.
        if state_text st ''vpn_desired_state'' \<notin> set ALLOWED_VPN_DESIRED_STATES then Inl PersistentValidationError
        else if state_text st ''active_mode'' \<notin> set ALLOWED_ACTIVE_MODES then Inl PersistentValidationError
        else res_bind (validate_modes has_routing st) (\<lambda>st'.
          if state_text st' ''language_mode'' \<notin> set ALLOWED_LANGUAGE_MODES then Inl PersistentValidationError
          else if state_text st' ''selected_language'' = [] then Inl PersistentValidationError
          else Inr st')))"

definition StateManager_load :: "json_file \<Rightarrow> dict res" where
  "StateManager_load f = (case f of
       FMissing \<Rightarrow> Inr DEFAULT_STATE
     | FMalformed \<Rightarrow> Inl PersistentStoreError
     | FJson v \<Rightarrow> (case v of PDict d \<Rightarrow> validate_state d | _ \<Rightarrow> Inl PersistentValidationError))"

definition StateManager_save :: "dict \<Rightarrow> json_file res" where
  "StateManager_save state = res_bind (validate_state state) (\<lambda>payload. Inr (FJson (PDict payload)))"

definition StateManager_set :: "(pyval \<Rightarrow> string) \<Rightarrow> json_file \<Rightarrow> string \<Rightarrow> pyval \<Rightarrow> json_file res" where
  "StateManager_set rp f key v =
     res_bind (StateManager_load f) (\<lambda>state.
       let st = dict_put state key v in
       res_bind (if key = ''active_mode''
                 then res_bind (routing_state_from_legacy_mode (py_str rp v)) (\<lambda>row. Inr (dict_update st row))
                 else Inr st)
         StateManager_save)"

definition StateManager_get :: "json_file \<Rightarrow> string \<Rightarrow> pyval \<Rightarrow> pyval res" where
  "StateManager_get f key dflt = res_bind (StateManager_load f) (\<lambda>st. Inr (dict_get st key dflt))"


section \<open>Validated states\<close>

lemma state_text_put [simp]:
  "state_text (dict_put d k (PStr s)) k' = (if k' = k then s else state_text d k')"
  by (simp add: state_text_def map_of_dict_put)

text \<open>The shape every validated state has: the default keys in order, with values of their type.\<close>

definition field_typed :: "string \<times> pyval \<Rightarrow> bool" where
  "field_typed = (\<lambda>(k, v).
     (k \<in> set STATE_BOOL_FIELDS \<and> (case v of PBool b \<Rightarrow> True | _ \<Rightarrow> False)) \<or>
     (k \<notin> set STATE_BOOL_FIELDS \<and> k \<in> set STATE_STRING_FIELDS \<and> (case v of PStr s \<Rightarrow> True | _ \<Rightarrow> False)))"

definition state_shape :: "dict \<Rightarrow> bool" where
  "state_shape d \<longleftrightarrow> map fst d = map fst DEFAULT_STATE \<and> list_all field_typed d"

lemma shape_default: "state_shape DEFAULT_STATE"
  by code_simp

lemma field_in_keys: "set STATE_BOOL_FIELDS \<union> set STATE_STRING_FIELDS = set (map fst DEFAULT_STATE)"
  by code_simp

lemma distinct_default: "distinct (map fst DEFAULT_STATE)"
  by code_simp

lemma typed_dict_put: "list_all field_typed d \<Longrightarrow> field_typed (k, v) \<Longrightarrow> list_all field_typed (dict_put d k v)"
proof (induction d)
  case (Cons p d)
  then show ?case by (cases p) auto
qed simp

lemma shape_put:
  assumes "state_shape d" and "field_typed (k, v)"
  shows "state_shape (dict_put d k v)"
proof -
  have "k \<in> set (map fst DEFAULT_STATE)"
    using assms(2) unfolding field_in_keys[symmetric] by (auto simp: field_typed_def)
  then show ?thesis
    using assms dict_put_keys[of k d v] typed_dict_put[of d k v] by (simp add: state_shape_def)
qed

lemma validate_entries_typed:
  "list_all field_typed s \<Longrightarrow> validate_entries acc s = Inr (dict_update acc s)"
proof (induction s arbitrary: acc)
  case (Cons e s)
  obtain k v where e: "e = (k, v)" by (cases e)
  from Cons.prems have s: "list_all field_typed s" and kv: "field_typed (k, v)" by (simp_all add: e)
  show ?case
    using kv Cons.IH[OF s] by (auto simp: e field_typed_def dict_update_def split: pyval.splits)
qed (simp add: dict_update_def)

lemma validate_entries_shape:
  "validate_entries acc s = Inr v \<Longrightarrow> state_shape acc \<Longrightarrow> state_shape v"
proof (induction s arbitrary: acc)
  case (Cons e s)
  obtain k x where e: "e = (k, x)" by (cases e)
  have "field_typed (k, x)" and "validate_entries (dict_put acc k x) s = Inr v"
    using Cons.prems(1) by (auto simp: e field_typed_def split: if_splits pyval.splits)
  then show ?case using Cons.IH shape_put Cons.prems(2) by blast
qed simp

lemma dict_update_replace:
  "map fst d = map fst e \<Longrightarrow> distinct (map fst (p @ e)) \<Longrightarrow> dict_update (p @ d) e = p @ e"
proof (induction e arbitrary: p d)
  case (Cons b e)
  obtain k v where b: "b = (k, v)" by (cases b)
  obtain a d' where d: "d = a # d'" "fst a = k" "map fst d' = map fst e"
    using Cons.prems(1) by (cases d) (auto simp: b)
  have put: "dict_put (p @ a # d') k v = p @ (k, v) # d'"
    using Cons.prems(2) d(2) by (cases a, induction p) (auto simp: b)
  have "dict_update ((p @ [(k, v)]) @ d') e = (p @ [(k, v)]) @ e"
    using Cons.prems(2) d(3) by (intro Cons.IH) (auto simp: b)
  then show ?case using put by (simp add: b d(1) dict_update_def)
qed (simp add: dict_update_def)

lemma validate_entries_id: "state_shape s \<Longrightarrow> validate_entries DEFAULT_STATE s = Inr s"
  using dict_update_replace[of DEFAULT_STATE s "[]"] distinct_default
  by (simp add: validate_entries_typed state_shape_def)


lemma shape_text:
  assumes "state_shape d" and "k \<in> set STATE_STRING_FIELDS"
  shows "map_of d k = Some (PStr (state_text d k))"
proof -
  have "\<forall>k \<in> set STATE_STRING_FIELDS. k \<notin> set STATE_BOOL_FIELDS" by code_simp
  then have nb: "k \<notin> set STATE_BOOL_FIELDS" using assms(2) by blast
  have "k \<in> set (map fst d)"
    using assms field_in_keys by (auto simp: state_shape_def)
  then obtain v where v: "map_of d k = Some v" by (metis list.set_map map_of_eq_None_iff option.exhaust)
  then have "field_typed (k, v)" using assms(1) by (auto simp: state_shape_def list_all_iff dest: map_of_SomeD)
  then show ?thesis using nb v by (auto simp: field_typed_def state_text_def split: pyval.splits)
qed

lemma put_text_same: "state_shape d \<Longrightarrow> k \<in> set STATE_STRING_FIELDS \<Longrightarrow> dict_put d k (PStr (state_text d k)) = d"
  by (rule dict_put_same) (rule shape_text)

lemma string_field_typed: "k \<in> set STATE_STRING_FIELDS \<Longrightarrow> field_typed (k, PStr s)"
proof -
  have "\<forall>k \<in> set STATE_STRING_FIELDS. k \<notin> set STATE_BOOL_FIELDS" by code_simp
  then show "k \<in> set STATE_STRING_FIELDS \<Longrightarrow> field_typed (k, PStr s)" by (simp add: field_typed_def)
qed

lemma routing_are_strings: "set ROUTING_STATE_FIELDS \<subseteq> set STATE_STRING_FIELDS" "''active_mode'' \<in> set STATE_STRING_FIELDS"
  "''capture_modes'' \<in> set STATE_STRING_FIELDS" "''routing_policy'' \<in> set STATE_STRING_FIELDS"
  "''default_route_action'' \<in> set STATE_STRING_FIELDS"
  by code_simp+

lemma has_routing: "state_shape d \<Longrightarrow> list_ex (\<lambda>k. k \<in> set (map fst d)) ROUTING_STATE_FIELDS"
proof -
  assume "state_shape d"
  then have k: "set (map fst d) = set (map fst DEFAULT_STATE)" by (simp add: state_shape_def)
  have "list_ex (\<lambda>k. k \<in> set (map fst DEFAULT_STATE)) ROUTING_STATE_FIELDS" by code_simp
  then show ?thesis unfolding k .
qed

text \<open>Parsing normalises the capture modes: printing and parsing again gives the same list.\<close>

lemma parse_capture_representable: "parse_capture_modes s = Inr m \<Longrightarrow> m \<in> set REPRESENTABLE_CAPTURE_MODE_SETS"
  by (simp add: parse_capture_modes_def Let_def split: if_splits)

lemma parse_capture_join:
  assumes "parse_capture_modes s = Inr m"
  shows "parse_capture_modes (py_join '','' m) = Inr m"
proof -
  have "\<forall>m \<in> set REPRESENTABLE_CAPTURE_MODE_SETS. parse_capture_modes (py_join '','' m) = Inr m" by code_simp
  then show ?thesis using parse_capture_representable[OF assms] by blast
qed

text \<open>The conditions a validated state meets; \<open>validate_state\<close> leaves such a state as it is.\<close>

definition routing_ok :: "dict \<Rightarrow> bool" where
  "routing_ok d \<longleftrightarrow> validate_routing_fields d = Inr d"

definition mirror_ok :: "dict \<Rightarrow> bool" where
  "mirror_ok d \<longleftrightarrow> state_text d ''active_mode'' \<in> set ALLOWED_ACTIVE_MODES \<and>
     compatibility_active_mode_for_routing_state d (state_text d ''active_mode'') = state_text d ''active_mode''"

definition state_valid :: "dict \<Rightarrow> bool" where
  "state_valid d \<longleftrightarrow> state_shape d \<and> routing_ok d \<and> mirror_ok d \<and>
     state_text d ''vpn_desired_state'' \<in> set ALLOWED_VPN_DESIRED_STATES \<and>
     state_text d ''language_mode'' \<in> set ALLOWED_LANGUAGE_MODES \<and> state_text d ''selected_language'' \<noteq> []"

lemma validate_state_id: "state_valid d \<Longrightarrow> validate_state d = Inr d"
proof -
  assume v: "state_valid d"
  then have sh: "state_shape d" by (simp add: state_valid_def)
  have "validate_modes True d = Inr d"
    using v put_text_same[OF sh routing_are_strings(2)]
    by (simp add: validate_modes_def state_valid_def routing_ok_def mirror_ok_def)
  then show ?thesis
    using v has_routing[OF sh] validate_entries_id[OF sh]
    by (simp add: validate_state_def state_valid_def mirror_ok_def)
qed

definition routing_checks :: "dict \<Rightarrow> bool" where
  "routing_checks d \<longleftrightarrow> state_text d ''routing_state_version'' = SUPPORTED_ROUTING_STATE_VERSION \<and>
     state_text d ''routing_policy'' \<in> set ALLOWED_ROUTING_POLICIES \<and>
     (state_text d ''default_route_action'' \<in> set ALLOWED_DEFAULT_ROUTE_ACTIONS \<or>
      (case chain_target (state_text d ''default_route_action'') of Inr (Some c) \<Rightarrow> True | _ \<Rightarrow> False))"

lemma chain_target_error: "chain_target a = Inl e \<Longrightarrow> e = PersistentValidationError"
  by (auto simp: chain_target_def validate_chain_id_def Let_def res_bind_def split: if_splits sum.splits)

lemma validate_routing_eq:
  "validate_routing_fields d =
     (if routing_checks d then res_bind (parse_capture_modes (state_text d ''capture_modes'')) (\<lambda>m.
        Inr (dict_put d ''capture_modes'' (PStr (py_join '','' m))))
      else Inl PersistentValidationError)"
proof -
  define a where "a = state_text d ''default_route_action''"
  define v where "v = state_text d ''routing_state_version''"
  define p where "p = state_text d ''routing_policy''"
  define rest where "rest = res_bind (parse_capture_modes (state_text d ''capture_modes'')) (\<lambda>m.
        Inr (dict_put d ''capture_modes'' (PStr (py_join '','' m))))"
  have "(case chain_target a of Inr (Some c) \<Rightarrow> True | _ \<Rightarrow> False) \<or> chain_target a = Inr None \<or>
      chain_target a = Inl PersistentValidationError"
    using chain_target_error[of a] by (cases "chain_target a") (auto split: option.splits)
  then have act: "res_bind (if a \<in> set ALLOWED_DEFAULT_ROUTE_ACTIONS then Inr True
        else res_bind (chain_target a) (\<lambda>t. Inr (t \<noteq> None)))
        (\<lambda>ok. if \<not> ok then Inl PersistentValidationError else rest) =
      (if a \<in> set ALLOWED_DEFAULT_ROUTE_ACTIONS \<or> (case chain_target a of Inr (Some c) \<Rightarrow> True | _ \<Rightarrow> False)
       then rest else Inl PersistentValidationError)"
    by (auto split: sum.splits option.splits)
  show ?thesis
    unfolding validate_routing_fields_def routing_checks_def a_def[symmetric] v_def[symmetric] p_def[symmetric]
      rest_def[symmetric] act
    by simp
qed

lemma validate_routing_ok:
  assumes "validate_routing_fields d = Inr d'" and "state_shape d"
  shows "\<exists>s. d' = dict_put d ''capture_modes'' (PStr s) \<and> state_shape d' \<and> routing_ok d'"
proof -
  obtain m where m: "routing_checks d" "parse_capture_modes (state_text d ''capture_modes'') = Inr m"
    "d' = dict_put d ''capture_modes'' (PStr (py_join '','' m))"
    using assms(1) unfolding validate_routing_eq by (auto split: if_splits)
  have sh: "state_shape d'"
    using shape_put[OF assms(2)] string_field_typed[OF routing_are_strings(3)] by (simp add: m(3))
  have "routing_checks d'" using m(1) by (simp add: routing_checks_def m(3))
  moreover have t: "state_text d' ''capture_modes'' = py_join '','' m" by (simp add: m(3))
  moreover have "dict_put d' ''capture_modes'' (PStr (py_join '','' m)) = d'"
    using put_text_same[OF sh routing_are_strings(3)] by (simp only: t)
  ultimately have "routing_ok d'"
    unfolding routing_ok_def validate_routing_eq by (simp add: parse_capture_join[OF m(2)])
  then show ?thesis using m(3) sh by blast
qed

text \<open>The mirror \<open>active_mode\<close> is a fixed point of its own computation.\<close>

lemma same_routing_put_mode: "same_routing row (dict_put d ''active_mode'' v) \<longleftrightarrow> same_routing row d"
  by (simp add: same_routing_def map_of_dict_put)

lemma rollback_put_mode:
  "rollback_active_mode_for_routing_state (dict_put d ''active_mode'' (PStr s)) = rollback_active_mode_for_routing_state d"
  by (simp add: rollback_active_mode_for_routing_state_def)

lemma compat_put_mode:
  "compatibility_active_mode_for_routing_state (dict_put d ''active_mode'' (PStr s)) fb =
     compatibility_active_mode_for_routing_state d fb"
  unfolding compatibility_active_mode_for_routing_state_def same_routing_put_mode rollback_put_mode by (rule refl)

lemma rollback_allowed: "rollback_active_mode_for_routing_state d = Inr m \<Longrightarrow> m \<in> set ALLOWED_ACTIVE_MODES"
  by (auto simp: rollback_active_mode_for_routing_state_def ALLOWED_ACTIVE_MODES_def Let_def split: if_splits)

lemma legacy_keys: "set (map fst LEGACY_MODE_TO_ROUTING_STATE) = set ALLOWED_ACTIVE_MODES"
  by code_simp

lemma compat_allowed_idem:
  assumes "fb \<in> set ALLOWED_ACTIVE_MODES"
  shows "compatibility_active_mode_for_routing_state d fb \<in> set ALLOWED_ACTIVE_MODES \<and>
    compatibility_active_mode_for_routing_state d (compatibility_active_mode_for_routing_state d fb) =
    compatibility_active_mode_for_routing_state d fb"
proof -
  have row: "\<exists>r. map_of LEGACY_MODE_TO_ROUTING_STATE x = Some r" if "x \<in> set ALLOWED_ACTIVE_MODES" for x
    using that legacy_keys by (metis list.set_map map_of_eq_None_iff option.exhaust)
  obtain r where r: "map_of LEGACY_MODE_TO_ROUTING_STATE fb = Some r" using row[OF assms] by blast
  show ?thesis
  proof (cases "rollback_active_mode_for_routing_state d")
    case (Inl e)
    then show ?thesis using assms r by (simp add: compatibility_active_mode_for_routing_state_def)
  next
    case (Inr m)
    obtain r' where "map_of LEGACY_MODE_TO_ROUTING_STATE m = Some r'" using row[OF rollback_allowed[OF Inr]] by blast
    then show ?thesis
      using assms r Inr rollback_allowed[OF Inr] by (simp add: compatibility_active_mode_for_routing_state_def)
  qed
qed


text \<open>Writing a row of the legacy table makes the routing fields valid and the mirror exact.\<close>

definition row_ok :: "dict \<Rightarrow> bool" where
  "row_ok row \<longleftrightarrow>
     row = legacy_row (state_text row ''routing_policy'') (state_text row ''capture_modes'') (state_text row ''default_route_action'') \<and>
     state_text row ''routing_policy'' \<in> set ALLOWED_ROUTING_POLICIES \<and>
     state_text row ''default_route_action'' \<in> set ALLOWED_DEFAULT_ROUTE_ACTIONS \<and>
     (case parse_capture_modes (state_text row ''capture_modes'') of
        Inr m \<Rightarrow> py_join '','' m = state_text row ''capture_modes'' | Inl e \<Rightarrow> False)"

lemma legacy_rows_ok: "list_all (row_ok \<circ> snd) LEGACY_MODE_TO_ROUTING_STATE"
  by code_simp

lemma update_legacy_row:
  "dict_update d (legacy_row p c a) =
     dict_put (dict_put (dict_put (dict_put d ''routing_state_version'' (PStr SUPPORTED_ROUTING_STATE_VERSION))
       ''routing_policy'' (PStr p)) ''capture_modes'' (PStr c)) ''default_route_action'' (PStr a)"
  by (simp add: dict_update_def legacy_row_def)

lemma update_legacy_valid:
  assumes "state_shape d" and "map_of LEGACY_MODE_TO_ROUTING_STATE (state_text d ''active_mode'') = Some row"
  shows "state_shape (dict_update d row) \<and> routing_ok (dict_update d row) \<and> mirror_ok (dict_update d row) \<and>
    (\<forall>k. k \<notin> set ROUTING_STATE_FIELDS \<longrightarrow> map_of (dict_update d row) k = map_of d k)"
proof -
  have "row_ok row" using legacy_rows_ok map_of_SomeD[OF assms(2)] by (auto simp: list_all_iff)
  then obtain p c a m where row: "row = legacy_row p c a" "p \<in> set ALLOWED_ROUTING_POLICIES"
    "a \<in> set ALLOWED_DEFAULT_ROUTE_ACTIONS" "parse_capture_modes c = Inr m" "py_join '','' m = c"
    by (auto simp: row_ok_def split: sum.splits)
  define u where "u = dict_update d row"
  note u = u_def[unfolded row(1) update_legacy_row]
  have ty: "field_typed (k, PStr x)" if "k \<in> set ROUTING_STATE_FIELDS" for k x
    using that routing_are_strings(1) string_field_typed by blast
  have r4: "''routing_state_version'' \<in> set ROUTING_STATE_FIELDS" "''routing_policy'' \<in> set ROUTING_STATE_FIELDS"
    "''capture_modes'' \<in> set ROUTING_STATE_FIELDS" "''default_route_action'' \<in> set ROUTING_STATE_FIELDS"
    by code_simp+
  have sh: "state_shape u"
    unfolding u by (intro shape_put assms(1) ty r4)
  have tx: "state_text u ''routing_state_version'' = SUPPORTED_ROUTING_STATE_VERSION"
    "state_text u ''routing_policy'' = p" "state_text u ''capture_modes'' = c" "state_text u ''default_route_action'' = a"
    "state_text u ''active_mode'' = state_text d ''active_mode''"
    by (simp_all add: u)
  have "routing_checks u" using row(2,3) by (simp add: routing_checks_def tx)
  moreover have "dict_put u ''capture_modes'' (PStr c) = u"
    using put_text_same[OF sh routing_are_strings(3)] by (simp only: tx)
  ultimately have rok: "routing_ok u"
    unfolding routing_ok_def validate_routing_eq tx by (simp add: row(4,5))
  have "same_routing row u"
    by (simp add: same_routing_def row(1) legacy_row_def u map_of_dict_put)
  moreover have "state_text d ''active_mode'' \<in> set ALLOWED_ACTIVE_MODES"
    using map_of_SomeD[OF assms(2)] legacy_keys by force
  ultimately have "mirror_ok u"
    using assms(2) by (simp add: mirror_ok_def tx(5) compatibility_active_mode_for_routing_state_def)
  moreover have "map_of u k = map_of d k" if "k \<notin> set ROUTING_STATE_FIELDS" for k
    using that unfolding u ROUTING_STATE_FIELDS_def by (simp add: map_of_dict_put)
  ultimately show ?thesis using sh rok unfolding u_def by blast
qed

lemma validate_modes_ok:
  assumes "validate_modes h st = Inr st'" and "state_shape st" and "state_text st ''active_mode'' \<in> set ALLOWED_ACTIVE_MODES"
  shows "state_shape st' \<and> routing_ok st' \<and> mirror_ok st' \<and>
    (\<forall>k. k \<notin> set ROUTING_STATE_FIELDS \<and> k \<noteq> ''active_mode'' \<longrightarrow> map_of st' k = map_of st k)"
proof (cases h)
  case False
  then obtain row where "map_of LEGACY_MODE_TO_ROUTING_STATE (state_text st ''active_mode'') = Some row"
    "st' = dict_update st row"
    using assms(1) by (auto simp: validate_modes_def routing_state_from_legacy_mode_def split: option.splits)
  then show ?thesis using update_legacy_valid[OF assms(2)] by blast
next
  case True
  then obtain st1 where st1: "validate_routing_fields st = Inr st1"
    "st' = dict_put st1 ''active_mode'' (PStr (compatibility_active_mode_for_routing_state st1 (state_text st1 ''active_mode'')))"
    using assms(1) by (auto simp: validate_modes_def)
  obtain s where s: "st1 = dict_put st ''capture_modes'' (PStr s)" "state_shape st1" "routing_ok st1"
    using validate_routing_ok[OF st1(1) assms(2)] by blast
  define c where "c = compatibility_active_mode_for_routing_state st1 (state_text st1 ''active_mode'')"
  have "state_text st1 ''active_mode'' = state_text st ''active_mode''" by (simp add: s(1))
  then have c: "c \<in> set ALLOWED_ACTIVE_MODES" "compatibility_active_mode_for_routing_state st1 c = c"
    using compat_allowed_idem[of "state_text st1 ''active_mode''" st1] assms(3) by (simp_all add: c_def)
  have st': "st' = dict_put st1 ''active_mode'' (PStr c)" by (simp add: st1(2) c_def)
  have sh: "state_shape st'"
    unfolding st' by (intro shape_put s(2) string_field_typed routing_are_strings(2))
  have "mirror_ok st'" using c by (simp add: mirror_ok_def st' compat_put_mode)
  moreover have "routing_ok st'"
  proof -
    obtain m where m: "routing_checks st1" "parse_capture_modes (state_text st1 ''capture_modes'') = Inr m"
      "dict_put st1 ''capture_modes'' (PStr (py_join '','' m)) = st1"
      using s(3) unfolding routing_ok_def validate_routing_eq by (auto split: if_splits)
    have "state_text st1 ''capture_modes'' = py_join '','' m" by (metis m(3) state_text_put)
    then have t: "state_text st' ''capture_modes'' = py_join '','' m" by (simp add: st')
    have "dict_put st' ''capture_modes'' (PStr (py_join '','' m)) = st'"
      using put_text_same[OF sh routing_are_strings(3)] by (simp only: t)
    moreover have "routing_checks st'" using m(1) by (simp add: routing_checks_def st')
    ultimately show ?thesis
      unfolding routing_ok_def validate_routing_eq t using parse_capture_join[OF m(2)] by simp
  qed
  moreover have "\<forall>k. k \<notin> set ROUTING_STATE_FIELDS \<and> k \<noteq> ''active_mode'' \<longrightarrow> map_of st' k = map_of st k"
    by (simp add: st' s(1) map_of_dict_put ROUTING_STATE_FIELDS_def)
  ultimately show ?thesis using sh by blast
qed


lemma validate_entries_Inr_typed: "validate_entries acc s = Inr v \<Longrightarrow> list_all field_typed s"
proof (induction s arbitrary: acc)
  case (Cons e s)
  obtain k x where e: "e = (k, x)" by (cases e)
  have "field_typed (k, x)" and "validate_entries (dict_put acc k x) s = Inr v"
    using Cons.prems by (auto simp: e field_typed_def split: if_splits pyval.splits)
  then show ?case using Cons.IH by (simp add: e)
qed simp

lemma state_text_cong: "map_of d k = map_of e k \<Longrightarrow> state_text d k = state_text e k"
  by (simp add: state_text_def)

lemma validate_state_steps:
  assumes "validate_state s = Inr v"
  shows "\<exists>st h. validate_entries DEFAULT_STATE s = Inr st \<and> validate_modes h st = Inr v \<and>
    state_text st ''vpn_desired_state'' \<in> set ALLOWED_VPN_DESIRED_STATES \<and>
    state_text st ''active_mode'' \<in> set ALLOWED_ACTIVE_MODES \<and>
    state_text v ''language_mode'' \<in> set ALLOWED_LANGUAGE_MODES \<and> state_text v ''selected_language'' \<noteq> []"
proof -
  from assms obtain st where st: "validate_entries DEFAULT_STATE s = Inr st"
    "state_text st ''vpn_desired_state'' \<in> set ALLOWED_VPN_DESIRED_STATES"
    "state_text st ''active_mode'' \<in> set ALLOWED_ACTIVE_MODES" and
    m: "res_bind (validate_modes (list_ex (\<lambda>k. k \<in> set (map fst s)) ROUTING_STATE_FIELDS) st) (\<lambda>st'.
          if state_text st' ''language_mode'' \<notin> set ALLOWED_LANGUAGE_MODES then Inl PersistentValidationError
          else if state_text st' ''selected_language'' = [] then Inl PersistentValidationError
          else Inr st') = Inr v"
    unfolding validate_state_def Let_def res_bind_eq_Inr_iff[of "validate_entries _ _"] if_raise_Inr by blast
  from m show ?thesis
    using st unfolding res_bind_eq_Inr_iff if_raise_Inr by auto
qed

lemma validate_state_valid:
  assumes "validate_state s = Inr v"
  shows "state_valid v"
proof -
  obtain st h where st: "validate_entries DEFAULT_STATE s = Inr st" "validate_modes h st = Inr v"
    "state_text st ''vpn_desired_state'' \<in> set ALLOWED_VPN_DESIRED_STATES"
    "state_text st ''active_mode'' \<in> set ALLOWED_ACTIVE_MODES"
    "state_text v ''language_mode'' \<in> set ALLOWED_LANGUAGE_MODES" "state_text v ''selected_language'' \<noteq> []"
    using validate_state_steps[OF assms] by (elim exE conjE) rule
  have sh: "state_shape st" using validate_entries_shape[OF st(1) shape_default] .
  note ok = validate_modes_ok[OF st(2) sh st(4)]
  have "''vpn_desired_state'' \<notin> set ROUTING_STATE_FIELDS" by code_simp
  then have "state_text v ''vpn_desired_state'' = state_text st ''vpn_desired_state''"
    using ok by (intro state_text_cong) simp
  then show ?thesis using ok st(3,5,6) by (simp add: state_valid_def)
qed

lemma default_valid: "state_valid DEFAULT_STATE"
  by code_simp

lemma load_valid: "StateManager_load f = Inr st \<Longrightarrow> state_valid st"
  by (auto simp: StateManager_load_def default_valid dest: validate_state_valid split: json_file.splits pyval.splits)

lemma save_load:
  assumes "StateManager_save st = Inr f"
  shows "\<exists>v. validate_state st = Inr v \<and> state_valid v \<and> StateManager_load f = Inr v"
proof -
  obtain v where v: "validate_state st = Inr v" "f = FJson (PDict v)"
    using assms by (auto simp: StateManager_save_def)
  note ok = validate_state_valid[OF v(1)]
  show ?thesis using v ok by (simp add: StateManager_load_def validate_state_id)
qed

text \<open>A state of the right shape is only changed in the routing fields and their mirror.\<close>

lemma validate_state_frame:
  assumes "validate_state d = Inr v" and "map fst d = map fst DEFAULT_STATE"
  shows "\<forall>k. k \<notin> set ROUTING_STATE_FIELDS \<and> k \<noteq> ''active_mode'' \<longrightarrow> map_of v k = map_of d k"
proof -
  obtain st h where st: "validate_entries DEFAULT_STATE d = Inr st" "validate_modes h st = Inr v"
    "state_text st ''active_mode'' \<in> set ALLOWED_ACTIVE_MODES"
    using validate_state_steps[OF assms(1)] by (elim exE conjE) rule
  have sh: "state_shape d" using validate_entries_Inr_typed[OF st(1)] assms(2) by (simp add: state_shape_def)
  then have "st = d" using st(1) validate_entries_id[OF sh] by simp
  then show ?thesis using validate_modes_ok[OF st(2)] sh st(3) by simp
qed


section \<open>Properties\<close>

lemma set_active_mode:
  assumes "state_valid st" and "routing_state_from_legacy_mode (py_str rp v) = Inr row"
    and "validate_state (dict_update (dict_put st ''active_mode'' v) row) = Inr w"
  shows "\<exists>m. v = PStr m \<and> map_of LEGACY_MODE_TO_ROUTING_STATE m = Some row \<and>
    w = dict_update (dict_put st ''active_mode'' v) row \<and> same_routing row w"
proof -
  define d where "d = dict_put st ''active_mode'' v"
  have sh: "state_shape st" using assms(1) by (simp add: state_valid_def)
  have row: "map_of LEGACY_MODE_TO_ROUTING_STATE (py_str rp v) = Some row"
    using assms(2) by (auto simp: routing_state_from_legacy_mode_def split: option.splits)
  have "row_ok row" using legacy_rows_ok map_of_SomeD[OF row] by (auto simp: list_all_iff)
  then obtain p c a where r: "row = legacy_row p c a" by (auto simp: row_ok_def)
  obtain st2 where st2: "validate_entries DEFAULT_STATE (dict_update d row) = Inr st2"
    using validate_state_steps[OF assms(3)] unfolding d_def by blast
  have "map_of (dict_update d row) ''active_mode'' = Some v"
    unfolding r update_legacy_row by (simp add: map_of_dict_put d_def)
  then have "field_typed (''active_mode'', v)"
    using validate_entries_Inr_typed[OF st2] by (auto simp: list_all_iff dest: map_of_SomeD)
  moreover have "''active_mode'' \<notin> set STATE_BOOL_FIELDS" by code_simp
  ultimately obtain m where m: "v = PStr m" by (auto simp: field_typed_def split: pyval.splits)
  have shd: "state_shape d" using shape_put[OF sh] string_field_typed[OF routing_are_strings(2)] by (simp add: d_def m)
  have "map_of LEGACY_MODE_TO_ROUTING_STATE (state_text d ''active_mode'') = Some row" using row by (simp add: d_def m)
  note up = update_legacy_valid[OF shd this]
  have keep: "state_text (dict_update d row) k = state_text st k"
    if "k \<notin> set ROUTING_STATE_FIELDS" "k \<noteq> ''active_mode''" for k
    using up that by (intro state_text_cong) (simp add: d_def map_of_dict_put)
  have "state_valid (dict_update d row)"
    using up assms(1) keep[of "''vpn_desired_state''"] keep[of "''language_mode''"] keep[of "''selected_language''"]
    by (simp add: state_valid_def ROUTING_STATE_FIELDS_def)
  from validate_state_id[OF this] have "w = dict_update d row" using assms(3) by (simp add: d_def)
  moreover have "same_routing row (dict_update d row)"
    unfolding same_routing_def r update_legacy_row by (simp add: legacy_row_def map_of_dict_put)
  ultimately show ?thesis using m row by (auto simp: d_def)
qed

lemma put_keys_valid:
  assumes "state_valid st" and "validate_state (dict_put st key v) = Inr w"
  shows "map fst (dict_put st key v) = map fst DEFAULT_STATE \<and> field_typed (key, v)"
proof -
  obtain st2 where st2: "validate_entries DEFAULT_STATE (dict_put st key v) = Inr st2"
    using validate_state_steps[OF assms(2)] by blast
  have "map_of (dict_put st key v) key = Some v" by (simp add: map_of_dict_put)
  then have "field_typed (key, v)"
    using validate_entries_Inr_typed[OF st2] by (auto simp: list_all_iff dest: map_of_SomeD)
  then show ?thesis using shape_put[of st key v] assms(1) by (simp add: state_valid_def state_shape_def)
qed



text \<open>
  The mode that \<open>rollback_active_mode_for_routing_state\<close> calls the exact equivalent of a routing state need not
  stand for that state: for global routing with the local proxy only it answers \<open>global\<close>, and installing
  \<open>global\<close> turns the tunnel capture on.
\<close>

lemma rollback_mode_inexact:
  "\<exists>st. state_valid st \<and> rollback_active_mode_for_routing_state st = Inr ''global'' \<and>
     (\<exists>row. routing_state_from_legacy_mode ''global'' = Inr row \<and> \<not> same_routing row st)"
proof (intro exI conjI)
  define st where "st = dict_put (dict_update DEFAULT_STATE (legacy_row ''global'' ''local_proxy'' ''current''))
    ''active_mode'' (PStr ''proxy'')"
  show "state_valid st" "rollback_active_mode_for_routing_state st = Inr ''global''"
    "routing_state_from_legacy_mode ''global'' = Inr (legacy_row ''global'' ''local_proxy,tun'' ''current'')"
    "\<not> same_routing (legacy_row ''global'' ''local_proxy,tun'' ''current'') st"
    unfolding st_def by code_simp+
qed

end
