(* ===== verification/Error_Classes.thy ===== *)
theory Error_Classes
  imports Persistence
begin

text \<open>
  Which exceptions a computation may raise. \<open>raises_only E r\<close> bounds the error classes of a result; the
  rules follow the combinators of the result type, so that a bound on a model's \<open>from_dict\<close> is assembled
  from the bounds of its validators.
\<close>

named_theorems raises_rules \<open>introduction rules for bounds on exceptions\<close>

definition raises_only :: "exn set \<Rightarrow> 'a res \<Rightarrow> bool" where
  "raises_only E r \<longleftrightarrow> (\<forall>e. r = Inl e \<longrightarrow> e \<in> E)"

lemma raises_only_Inr [raises_rules, simp]: "raises_only E (Inr x)"
  by (simp add: raises_only_def)

lemma raises_only_Inl [raises_rules]: "e \<in> E \<Longrightarrow> raises_only E (Inl e)"
  by (simp add: raises_only_def)

lemma raises_only_Inl_iff [simp]: "raises_only E (Inl e) \<longleftrightarrow> e \<in> E"
  by (simp add: raises_only_def)

lemma raises_only_bind [raises_rules]:
  "raises_only E r \<Longrightarrow> (\<And>x. r = Inr x \<Longrightarrow> raises_only E (f x)) \<Longrightarrow> raises_only E (res_bind r f)"
  by (cases r) auto

lemma raises_only_guard [raises_rules]: "e \<in> E \<Longrightarrow> raises_only E (res_guard b e)"
  by (simp add: raises_only_def)

lemma raises_only_if [raises_rules]:
  "(b \<Longrightarrow> raises_only E r) \<Longrightarrow> (\<not> b \<Longrightarrow> raises_only E s) \<Longrightarrow> raises_only E (if b then r else s)"
  by simp

lemma raises_only_map [raises_rules]: "(\<And>x. x \<in> set xs \<Longrightarrow> raises_only E (f x)) \<Longrightarrow> raises_only E (res_map f xs)"
  by (induction xs) (auto intro!: raises_rules)

lemma raises_only_mono: "raises_only E r \<Longrightarrow> E \<subseteq> F \<Longrightarrow> raises_only F r"
  by (auto simp: raises_only_def)

lemma raises_strict [raises_rules]:
  assumes "PersistentValidationError \<in> E"
  shows "raises_only E (strict_bool v)" "raises_only E (strict_int v)"
    "raises_only E (require_mapping v)" "raises_only E (require_list v)" "raises_only E (reject_unknown_keys d ks)"
  using assms
  by (auto simp: raises_only_def strict_bool_def strict_int_def require_mapping_def require_list_def
      reject_unknown_keys_def split: pyval.splits)

lemma raises_load_json [raises_rules]: "PersistentStoreError \<in> E \<Longrightarrow> raises_only E (load_json f v)"
  by (auto simp: raises_only_def load_json_def split: json_file.splits)

lemma raises_dict_item [raises_rules]: "KeyError \<in> E \<Longrightarrow> raises_only E (dict_item d k)"
  by (auto simp: raises_only_def dict_item_def split: option.splits)

lemma res_map_all:
  "res_map f xs = Inr ys \<Longrightarrow> (\<And>x y. x \<in> set xs \<Longrightarrow> f x = Inr y \<Longrightarrow> P y) \<Longrightarrow> list_all P ys"
  unfolding list_all_iff using res_map_set by metis

text \<open>A result whose possible errors are all caught is a value.\<close>

lemma raises_only_empty: "raises_only {} r \<longleftrightarrow> (\<exists>x. r = Inr x)"
  by (cases r) (auto simp: raises_only_def)

end
