(* ===== verification/Rule_Store.thy ===== *)
theory Rule_Store
  imports Routing_Rules Error_Classes
begin

text \<open>
  \<open>src/rules/rule_store.py\<close>: rule groups, one JSON file per group in a directory, with time-stamped backups.
  The directory is the list of its \<open>*.json\<close> files by name; lock files and file modes are left out. The text of
  the current time (\<open>strftime\<close> of the UTC clock) is the parameter \<open>ts\<close>. The loops that look for a free name
  are partial functions; that they return is proved below.
\<close>

section \<open>Files\<close>

record rule_dir =
  rd_files :: "(string \<times> json_file) list"
  rd_backups :: "(string \<times> json_file) list"

definition group_path :: "(pyval \<Rightarrow> string) \<Rightarrow> string \<Rightarrow> string res" where
  "group_path rp name = res_bind (validate_group_name rp (PStr name)) (\<lambda>n. Inr (n @ ''.json''))"

definition load_group :: "(pyval \<Rightarrow> string) \<Rightarrow> json_file \<Rightarrow> rule_group res" where
  "load_group rp f =
     res_bind (load_json f (PDict [])) (\<lambda>v. res_bind (require_mapping v) (RuleGroup_from_dict rp))"

definition dump_group :: "rule_group \<Rightarrow> json_file" where
  "dump_group g = dump_json (PDict (RuleGroup_to_dict g))"

definition put_group :: "(pyval \<Rightarrow> string) \<Rightarrow> rule_dir \<Rightarrow> string \<Rightarrow> rule_group \<Rightarrow> (rule_group \<times> rule_dir) res" where
  "put_group rp d target g =
     res_bind (RuleGroup_from_dict rp (RuleGroup_to_dict g)) (\<lambda>validated.
       Inr (validated, d\<lparr>rd_files := dict_put (rd_files d) target (dump_group validated)\<rparr>))"


section \<open>Operations\<close>

definition RuleStore_add_group :: "(pyval \<Rightarrow> string) \<Rightarrow> rule_dir \<Rightarrow> rule_group \<Rightarrow> rule_dir res" where
  "RuleStore_add_group rp d g =
     res_bind (group_path rp (rg_name g)) (\<lambda>target.
     res_bind (put_group rp d target g) (\<lambda>(v, d'). Inr d'))"

definition RuleStore_get_group :: "(pyval \<Rightarrow> string) \<Rightarrow> rule_dir \<Rightarrow> string \<Rightarrow> rule_group option res" where
  "RuleStore_get_group rp d name =
     res_bind (group_path rp name) (\<lambda>target.
       case map_of (rd_files d) target of
         None \<Rightarrow> Inr None
       | Some f \<Rightarrow> res_bind (load_group rp f) (\<lambda>g. Inr (Some g)))"

definition RuleStore_list_groups :: "(pyval \<Rightarrow> string) \<Rightarrow> rule_dir \<Rightarrow> rule_group list res" where
  "RuleStore_list_groups rp d = res_map (\<lambda>(n, f). load_group rp f) (sort_key fst (rd_files d))"

definition RuleStore_update_group :: "(pyval \<Rightarrow> string) \<Rightarrow> rule_dir \<Rightarrow> rule_group \<Rightarrow> rule_dir res" where
  "RuleStore_update_group rp d g = RuleStore_add_group rp d g"

definition RuleStore_remove_group :: "(pyval \<Rightarrow> string) \<Rightarrow> rule_dir \<Rightarrow> string \<Rightarrow> rule_dir res" where
  "RuleStore_remove_group rp d name =
     res_bind (group_path rp name) (\<lambda>target.
       Inr (d\<lparr>rd_files := filter (\<lambda>p. fst p \<noteq> target) (rd_files d)\<rparr>))"

definition require_rule_group :: "(pyval \<Rightarrow> string) \<Rightarrow> rule_dir \<Rightarrow> string \<Rightarrow> rule_group res" where
  "require_rule_group rp d name =
     res_bind (RuleStore_get_group rp d name) (\<lambda>g. case g of None \<Rightarrow> Inl RuleStoreError | Some x \<Rightarrow> Inr x)"

definition load_required_group :: "(pyval \<Rightarrow> string) \<Rightarrow> rule_dir \<Rightarrow> string \<Rightarrow> rule_group res" where
  "load_required_group rp d target = (case map_of (rd_files d) target of
       None \<Rightarrow> Inl RuleStoreError
     | Some f \<Rightarrow> load_group rp f)"

definition RuleStore_enable_group :: "(pyval \<Rightarrow> string) \<Rightarrow> rule_dir \<Rightarrow> string \<Rightarrow> rule_dir res" where
  "RuleStore_enable_group rp d name =
     res_bind (require_rule_group rp d name) (\<lambda>g. RuleStore_update_group rp d (g\<lparr>rg_enabled := True\<rparr>))"

definition RuleStore_disable_group :: "(pyval \<Rightarrow> string) \<Rightarrow> rule_dir \<Rightarrow> string \<Rightarrow> rule_dir res" where
  "RuleStore_disable_group rp d name =
     res_bind (require_rule_group rp d name) (\<lambda>g. RuleStore_update_group rp d (g\<lparr>rg_enabled := False\<rparr>))"

text \<open>The operations on one group load it, change it and write it back to the same file.\<close>

definition modify_group ::
  "(pyval \<Rightarrow> string) \<Rightarrow> rule_dir \<Rightarrow> string \<Rightarrow> (rule_group \<Rightarrow> rule_group res) \<Rightarrow> (rule_group \<times> rule_dir) res" where
  "modify_group rp d name change =
     res_bind (group_path rp name) (\<lambda>target.
     res_bind (load_required_group rp d target) (\<lambda>g.
     res_bind (change g) (put_group rp d target)))"

definition RuleStore_add_rule ::
  "(pyval \<Rightarrow> string) \<Rightarrow> rule_dir \<Rightarrow> string \<Rightarrow> rule \<Rightarrow> (rule_group \<times> rule_dir) res" where
  "RuleStore_add_rule rp d name r = modify_group rp d name (\<lambda>g.
     if list_ex (\<lambda>x. r_id x = r_id r) (rg_rules g) then Inl RuleStoreError
     else Inr (g\<lparr>rg_rules := rg_rules g @ [r]\<rparr>))"

definition RuleStore_remove_rule ::
  "(pyval \<Rightarrow> string) \<Rightarrow> rule_dir \<Rightarrow> string \<Rightarrow> string \<Rightarrow> (rule_group \<times> rule_dir) res" where
  "RuleStore_remove_rule rp d name rid = modify_group rp d name (\<lambda>g.
     let rest = filter (\<lambda>x. r_id x \<noteq> rid) (rg_rules g) in
     if length rest = length (rg_rules g) then Inl RuleStoreError
     else Inr (g\<lparr>rg_rules := rest\<rparr>))"

definition RuleStore_set_priority ::
  "(pyval \<Rightarrow> string) \<Rightarrow> rule_dir \<Rightarrow> string \<Rightarrow> int \<Rightarrow> (rule_group \<times> rule_dir) res" where
  "RuleStore_set_priority rp d name priority = modify_group rp d name (\<lambda>g. Inr (g\<lparr>rg_priority := priority\<rparr>))"

definition RuleStore_set_rule_enabled ::
  "(pyval \<Rightarrow> string) \<Rightarrow> rule_dir \<Rightarrow> string \<Rightarrow> string \<Rightarrow> bool \<Rightarrow> (rule_group \<times> rule_dir) res" where
  "RuleStore_set_rule_enabled rp d name rid enabled = modify_group rp d name (\<lambda>g.
     if \<not> list_ex (\<lambda>x. r_id x = rid) (rg_rules g) then Inl RuleStoreError
     else res_bind (res_map (\<lambda>x.
         if r_id x = rid
         then Rule_init rp (PStr (r_id x)) (PStr (r_action x)) (conditions_value (r_conditions x)) enabled
         else Inr x) (rg_rules g)) (\<lambda>rs. Inr (g\<lparr>rg_rules := rs\<rparr>)))"

fun ensure_groups :: "(pyval \<Rightarrow> string) \<Rightarrow> string list \<Rightarrow> rule_dir \<Rightarrow> rule_dir res" where
  "ensure_groups rp [] d = Inr d"
| "ensure_groups rp (n # ns) d =
     res_bind (RuleStore_get_group rp d n) (\<lambda>g. case g of
         Some x \<Rightarrow> ensure_groups rp ns d
       | None \<Rightarrow>
           res_bind (RuleGroup_init rp (PStr n) True [] 100) (\<lambda>fresh.
           res_bind (RuleStore_add_group rp d fresh) (ensure_groups rp ns)))"

definition RuleStore_ensure_default_groups :: "(pyval \<Rightarrow> string) \<Rightarrow> rule_dir \<Rightarrow> rule_dir res" where
  "RuleStore_ensure_default_groups rp d = ensure_groups rp DEFAULT_RULE_GROUPS d"

text \<open>\<open>import_group\<close>: \<open>name\<close> is tried first, then \<open>stem-2\<close>, \<open>stem-3\<close> and so on.\<close>

partial_function (option) import_name ::
  "(pyval \<Rightarrow> string) \<Rightarrow> rule_dir \<Rightarrow> string \<Rightarrow> int \<Rightarrow> string \<Rightarrow> string res option" where
  "import_name rp d stem suffix name = (case RuleStore_get_group rp d name of
       Inl e \<Rightarrow> Some (Inl e)
     | Inr None \<Rightarrow> Some (Inr name)
     | Inr (Some g) \<Rightarrow> import_name rp d stem (suffix + 1) (stem @ ''-'' @ int_str (suffix + 1)))"

definition RuleStore_import_group ::
  "(pyval \<Rightarrow> string) \<Rightarrow> string \<Rightarrow> rule_dir \<Rightarrow> rule list \<Rightarrow> string \<Rightarrow> (rule_group \<times> rule_dir) res option" where
  "RuleStore_import_group rp ts d rules prefix =
     (let stem = prefix @ ''-'' @ ts in
      map_option (\<lambda>r. res_bind r (\<lambda>name.
        res_bind (RuleGroup_init rp (PStr name) True (map Inl rules) 100) (\<lambda>g.
        res_bind (RuleStore_add_group rp d g) (\<lambda>d'. Inr (g, d')))))
      (import_name rp d stem 1 stem))"

partial_function (option) backup_name ::
  "(string \<times> json_file) list \<Rightarrow> string \<Rightarrow> int \<Rightarrow> string option" where
  "backup_name backups stem suffix =
     (let candidate = stem @ ''-'' @ int_str suffix @ ''.json'' in
      if candidate \<in> set (map fst backups) then backup_name backups stem (suffix + 1) else Some candidate)"

definition backup_path :: "(pyval \<Rightarrow> string) \<Rightarrow> string \<Rightarrow> rule_dir \<Rightarrow> string \<Rightarrow> string res option" where
  "backup_path rp ts d name = (case validate_group_name rp (PStr name) of
       Inl e \<Rightarrow> Some (Inl e)
     | Inr n \<Rightarrow>
         (let stem = n @ ''-'' @ ts in
          if stem @ ''.json'' \<notin> set (map fst (rd_backups d)) then Some (Inr (stem @ ''.json''))
          else map_option Inr (backup_name (rd_backups d) stem 2)))"

definition RuleStore_replace_group ::
  "(pyval \<Rightarrow> string) \<Rightarrow> string \<Rightarrow> rule_dir \<Rightarrow> rule_group \<Rightarrow> bool \<Rightarrow> (string option \<times> rule_dir) res option" where
  "RuleStore_replace_group rp ts d g backup_existing =
     (case group_path rp (rg_name g) of
        Inl e \<Rightarrow> Some (Inl e)
      | Inr target \<Rightarrow>
          (case (RuleGroup_from_dict rp (RuleGroup_to_dict g), map_of (rd_files d) target) of
             (Inl e, _) \<Rightarrow> Some (Inl e)
           | (Inr validated, Some f) \<Rightarrow>
               if \<not> backup_existing then
                 Some (Inr (None, d\<lparr>rd_files := dict_put (rd_files d) target (dump_group validated)\<rparr>))
               else (case load_group rp f of
                   Inl e \<Rightarrow> Some (Inl e)
                 | Inr existing \<Rightarrow>
                     map_option (\<lambda>r. res_bind r (\<lambda>b.
                       Inr (Some b, \<lparr>rd_files = dict_put (rd_files d) target (dump_group validated),
                                     rd_backups = dict_put (rd_backups d) b (dump_group existing)\<rparr>)))
                     (backup_path rp ts d (rg_name existing)))
           | (Inr validated, None) \<Rightarrow>
               Some (Inr (None, d\<lparr>rd_files := dict_put (rd_files d) target (dump_group validated)\<rparr>))))"


section \<open>The directory as a map\<close>

definition rules_inv :: "rule_dir \<Rightarrow> bool" where
  "rules_inv d \<longleftrightarrow> distinct (map fst (rd_files d)) \<and>
     (\<forall>(n, f) \<in> set (rd_files d). \<exists>g. group_valid g \<and> f = dump_group g \<and> n = rg_name g @ ''.json'')"

definition files_lookup :: "rule_dir \<Rightarrow> string \<Rightarrow> rule_group option" where
  "files_lookup d k = (case map_of (rd_files d) (k @ ''.json'') of
       None \<Rightarrow> None
     | Some f \<Rightarrow> (case load_group (\<lambda>v. []) f of Inl e \<Rightarrow> None | Inr g \<Rightarrow> Some g))"

lemma load_dump_group [simp]: "group_valid g \<Longrightarrow> load_group rp (dump_group g) = Inr g"
  by (simp add: load_group_def dump_group_def dump_json_def load_json_def require_mapping_def RuleGroup_round_trip)

lemma group_path_slug [simp]: "is_slug n \<Longrightarrow> group_path rp n = Inr (n @ ''.json'')"
  by (simp add: group_path_def validate_group_name_def)

lemma group_valid_slug: "group_valid g \<Longrightarrow> is_slug (rg_name g)"
  by (simp add: group_valid_def)

lemma rules_inv_file:
  assumes "rules_inv d" and "map_of (rd_files d) n = Some f"
  shows "\<exists>g. group_valid g \<and> f = dump_group g \<and> n = rg_name g @ ''.json''"
  using assms map_of_SomeD[OF assms(2)] by (auto simp: rules_inv_def)

lemma files_lookup_Some:
  assumes "rules_inv d"
  shows "files_lookup d k = Some g \<longleftrightarrow> map_of (rd_files d) (k @ ''.json'') = Some (dump_group g) \<and> group_valid g \<and> rg_name g = k"
proof (cases "map_of (rd_files d) (k @ ''.json'')")
  case (Some f)
  obtain h where h: "group_valid h" "f = dump_group h" "rg_name h = k" using rules_inv_file[OF assms Some] by auto
  have "dump_group h = dump_group g \<Longrightarrow> group_valid g \<Longrightarrow> h = g"
    by (metis h(1) load_dump_group sum.inject(2))
  then show ?thesis using Some h by (auto simp: files_lookup_def)
qed (simp add: files_lookup_def)

lemma put_file:
  assumes "rules_inv d" and "group_valid g"
  shows "rules_inv (d\<lparr>rd_files := dict_put (rd_files d) (rg_name g @ ''.json'') (dump_group g)\<rparr>) \<and>
    files_lookup (d\<lparr>rd_files := dict_put (rd_files d) (rg_name g @ ''.json'') (dump_group g)\<rparr>) =
      (files_lookup d)(rg_name g \<mapsto> g)"
proof -
  define fs where "fs = dict_put (rd_files d) (rg_name g @ ''.json'') (dump_group g)"
  have dist: "distinct (map fst fs)" using assms(1) unfolding fs_def rules_inv_def by (intro distinct_dict_put) simp
  have "\<exists>h. group_valid h \<and> f = dump_group h \<and> n = rg_name h @ ''.json''" if "(n, f) \<in> set fs" for n f
  proof -
    have m: "map_of fs n = Some f" using that dist by simp
    show ?thesis
    proof (cases "n = rg_name g @ ''.json''")
      case True
      then show ?thesis using m assms(2) by (auto simp: fs_def map_of_dict_put)
    next
      case False
      then have "map_of (rd_files d) n = Some f" using m by (simp add: fs_def map_of_dict_put)
      then show ?thesis by (rule rules_inv_file[OF assms(1)])
    qed
  qed
  then have "rules_inv (d\<lparr>rd_files := fs\<rparr>)" using dist by (auto simp: rules_inv_def)
  moreover have "files_lookup (d\<lparr>rd_files := fs\<rparr>) = (files_lookup d)(rg_name g \<mapsto> g)"
    using assms(2) by (auto simp: files_lookup_def fs_def map_of_dict_put fun_eq_iff)
  ultimately show ?thesis by (simp add: fs_def)
qed

lemma map_of_filter_key: "map_of (filter (\<lambda>p. fst p \<noteq> t) xs) k = (if k = t then None else map_of xs k)"
  by (induction xs) auto

lemma remove_file:
  assumes "rules_inv d"
  shows "rules_inv (d\<lparr>rd_files := filter (\<lambda>p. fst p \<noteq> k @ ''.json'') (rd_files d)\<rparr>) \<and>
    files_lookup (d\<lparr>rd_files := filter (\<lambda>p. fst p \<noteq> k @ ''.json'') (rd_files d)\<rparr>) = (files_lookup d)(k := None)"
proof
  show "rules_inv (d\<lparr>rd_files := filter (\<lambda>p. fst p \<noteq> k @ ''.json'') (rd_files d)\<rparr>)"
    using assms by (auto simp: rules_inv_def distinct_map_filter)
  show "files_lookup (d\<lparr>rd_files := filter (\<lambda>p. fst p \<noteq> k @ ''.json'') (rd_files d)\<rparr>) = (files_lookup d)(k := None)"
    by (auto simp: files_lookup_def map_of_filter_key fun_eq_iff)
qed

lemma get_group_lookup:
  assumes "rules_inv d" and "is_slug k"
  shows "RuleStore_get_group rp d k = Inr (files_lookup d k)"
proof (cases "map_of (rd_files d) (k @ ''.json'')")
  case (Some f)
  then obtain g where "group_valid g" "f = dump_group g" using rules_inv_file[OF assms(1)] by blast
  then show ?thesis using Some assms(2) by (simp add: RuleStore_get_group_def files_lookup_def)
qed (use assms(2) in \<open>simp add: RuleStore_get_group_def files_lookup_def\<close>)

lemma add_group_valid:
  assumes "group_valid g"
  shows "RuleStore_add_group rp d g =
    Inr (d\<lparr>rd_files := dict_put (rd_files d) (rg_name g @ ''.json'') (dump_group g)\<rparr>)"
  using group_valid_slug[OF assms] by (simp add: RuleStore_add_group_def put_group_def RuleGroup_round_trip[OF assms])

interpretation rule_files: map_store "RuleStore_get_group rp" "RuleStore_add_group rp" "RuleStore_remove_group rp"
  rg_name group_valid is_slug rules_inv files_lookup
  for rp
proof
  fix d d' :: rule_dir and g k
  assume i: "rules_inv d"
  show "RuleStore_get_group rp d k = Inr (files_lookup d k)" if "is_slug k"
    using i that by (rule get_group_lookup)
  show "rules_inv d' \<and> files_lookup d' = (files_lookup d)(rg_name g \<mapsto> g)"
    if "group_valid g" "RuleStore_add_group rp d g = Inr d'"
    using put_file[OF i that(1)] that(2) by (simp add: add_group_valid[OF that(1)])
  show "rules_inv d' \<and> files_lookup d' = (files_lookup d)(k := None)"
    if "is_slug k" "RuleStore_remove_group rp d k = Inr d'"
    using remove_file[OF i, of k] that by (auto simp: RuleStore_remove_group_def)
qed

lemma list_groups_run:
  assumes "rules_inv d"
  shows "\<exists>gs. RuleStore_list_groups rp d = Inr gs \<and> list_all group_valid gs \<and> distinct (map rg_name gs) \<and>
    sorted (map (\<lambda>g. rg_name g @ ''.json'') gs) \<and> set gs = {g. files_lookup d (rg_name g) = Some g}"
proof -
  define fs where "fs = sort_key fst (rd_files d)"
  have set_fs: "set fs = set (rd_files d)" by (simp add: fs_def)
  have dist: "distinct (map fst fs)"
    using assms by (simp add: fs_def rules_inv_def distinct_map)
  define gof where "gof p = (SOME g. group_valid g \<and> snd p = dump_group g \<and> fst p = rg_name g @ ''.json'')"
    for p :: "string \<times> json_file"
  have gof: "group_valid (gof p) \<and> snd p = dump_group (gof p) \<and> fst p = rg_name (gof p) @ ''.json''"
    if "p \<in> set fs" for p
    unfolding gof_def by (rule someI_ex) (use assms that set_fs in \<open>auto simp: rules_inv_def case_prod_unfold\<close>)
  define gs where "gs = map gof fs"
  have run: "RuleStore_list_groups rp d = Inr gs"
    unfolding RuleStore_list_groups_def fs_def[symmetric] gs_def
    using gof by (induction fs) (auto simp: case_prod_unfold)
  have names: "map (\<lambda>g. rg_name g @ ''.json'') gs = map fst fs"
    unfolding gs_def using gof by simp
  have "distinct (map rg_name gs)"
    using dist unfolding names[symmetric] by (metis (no_types, lifting) distinct_map map_map comp_apply inj_on_def)
  moreover have "sorted (map fst fs)" by (simp add: fs_def)
  moreover have "list_all group_valid gs" unfolding gs_def list_all_iff using gof by auto
  moreover have "set gs = {g. files_lookup d (rg_name g) = Some g}"
  proof (intro set_eqI iffI CollectI)
    fix g assume "g \<in> set gs"
    then obtain p where p: "p \<in> set fs" "g = gof p" by (auto simp: gs_def)
    then have "map_of (rd_files d) (rg_name g @ ''.json'') = Some (dump_group g)"
      using gof[OF p(1)] assms set_fs by (metis map_of_eq_Some_iff prod.collapse rules_inv_def)
    then show "files_lookup d (rg_name g) = Some g"
      using gof[OF p(1)] p(2) files_lookup_Some[OF assms] by simp
  next
    fix g assume "g \<in> {g. files_lookup d (rg_name g) = Some g}"
    then have g: "map_of (rd_files d) (rg_name g @ ''.json'') = Some (dump_group g)" "group_valid g"
      using files_lookup_Some[OF assms] by auto
    then have p: "(rg_name g @ ''.json'', dump_group g) \<in> set fs" using map_of_SomeD set_fs by fastforce
    have "gof (rg_name g @ ''.json'', dump_group g) = g"
      using gof[OF p] g(2) by (metis load_dump_group snd_conv sum.inject(2))
    then show "g \<in> set gs" unfolding gs_def using p by force
  qed
  ultimately show ?thesis using run names by (intro exI[of _ gs]) simp
qed



section \<open>Searching a free name\<close>

text \<open>A search through the integers ends when only finitely many of them are taken.\<close>

lemma search_ends:
  fixes P :: "int \<Rightarrow> bool"
  assumes "finite {k. taken k}" and "\<And>n. taken n \<Longrightarrow> P (n + 1) \<Longrightarrow> P n" and "\<And>n. \<not> taken n \<Longrightarrow> P n"
  shows "P n"
proof (induction "card {k. n \<le> k \<and> taken k}" arbitrary: n rule: less_induct)
  case less
  show ?case
  proof (cases "taken n")
    case True
    have "finite {k. n \<le> k \<and> taken k}" by (rule finite_subset[OF _ assms(1)]) auto
    moreover have "n \<in> {k. n \<le> k \<and> taken k}" "n \<notin> {k. n + 1 \<le> k \<and> taken k}" using True by simp_all
    then have "{k. n + 1 \<le> k \<and> taken k} \<subset> {k. n \<le> k \<and> taken k}" by fastforce
    ultimately have "card {k. n + 1 \<le> k \<and> taken k} < card {k. n \<le> k \<and> taken k}" by (rule psubset_card_mono)
    then show ?thesis using less assms(2)[OF True] by blast
  qed (rule assms(3))
qed

lemma int_str_inj: "0 \<le> m \<Longrightarrow> 0 \<le> n \<Longrightarrow> int_str m = int_str n \<longleftrightarrow> m = n"
  by (simp add: int_str_def dec_digits_inj)

lemma strip_numbered:
  assumes "0 \<le> n"
  shows "py_strip (s @ ''-'' @ int_str n) = py_lstrip (s @ ''-'') @ int_str n"
proof -
  have "\<not> py_isspace (CHR ''-'')" by code_simp
  then have "py_lstrip ((s @ ''-'') @ int_str n) = py_lstrip (s @ ''-'') @ int_str n"
    unfolding py_lstrip_def by (intro dropWhile_append1[of "CHR ''-''"]) simp_all
  moreover have "int_str n \<noteq> []" "\<forall>c \<in> set (int_str n). \<not> py_isspace c"
    using assms dec_digits_digit[OF assms] digit_not_space by (auto simp: int_str_def)
  then have "py_rstrip (py_lstrip (s @ ''-'') @ int_str n) = py_lstrip (s @ ''-'') @ int_str n"
    by (intro py_rstrip_id) simp
  ultimately show ?thesis by (simp add: py_strip_def)
qed

lemma finite_taken: "finite {k::int. 0 \<le> k \<and> f k \<in> set xs}" if "inj_on f {k. 0 \<le> k}" for f :: "int \<Rightarrow> 'b" and xs
  using that finite_vimage_IntI[of "set xs" f "{k. 0 \<le> k}"]
  by (simp add: vimage_def Int_def conj_commute)

lemma get_group_taken:
  assumes "RuleStore_get_group rp d name = Inr (Some g)"
  shows "py_strip name @ ''.json'' \<in> set (map fst (rd_files d))"
proof -
  have p: "group_path rp name = Inr (py_strip name @ ''.json'')"
    using assms by (auto simp: RuleStore_get_group_def group_path_def validate_group_name_def Let_def split: if_splits)
  then obtain f where "map_of (rd_files d) (py_strip name @ ''.json'') = Some f"
    using assms by (auto simp: RuleStore_get_group_def split: option.splits)
  from map_of_SomeD[OF this] show ?thesis by force
qed

lemma import_name_numbered:
  assumes "0 \<le> n"
  shows "\<exists>r. import_name rp d stem n (stem @ ''-'' @ int_str n) = Some r"
proof -
  define taken where "taken k \<longleftrightarrow> 0 \<le> k \<and> (py_lstrip (stem @ ''-'') @ int_str k) @ ''.json'' \<in> set (map fst (rd_files d))"
    for k :: int
  have "finite {k. taken k}"
    unfolding taken_def by (rule finite_taken) (auto simp: inj_on_def int_str_inj)
  then have "0 \<le> n \<longrightarrow> (\<exists>r. import_name rp d stem n (stem @ ''-'' @ int_str n) = Some r)"
  proof (rule search_ends)
    fix n :: int
    assume "taken n" "0 \<le> n + 1 \<longrightarrow> (\<exists>r. import_name rp d stem (n + 1) (stem @ ''-'' @ int_str (n + 1)) = Some r)"
    then show "0 \<le> n \<longrightarrow> (\<exists>r. import_name rp d stem n (stem @ ''-'' @ int_str n) = Some r)"
      by (subst import_name.simps) (auto split: sum.split option.split)
  next
    fix n :: int
    assume nt: "\<not> taken n"
    show "0 \<le> n \<longrightarrow> (\<exists>r. import_name rp d stem n (stem @ ''-'' @ int_str n) = Some r)"
    proof
      assume n: "0 \<le> n"
      have "RuleStore_get_group rp d (stem @ ''-'' @ int_str n) \<noteq> Inr (Some g)" for g
        using get_group_taken[of rp d "stem @ ''-'' @ int_str n" g] nt n unfolding strip_numbered[OF n] taken_def by blast
      then show "\<exists>r. import_name rp d stem n (stem @ ''-'' @ int_str n) = Some r"
        by (subst import_name.simps) (auto split: sum.split option.split)
    qed
  qed
  then show ?thesis using assms by blast
qed

lemma import_name_returns: "\<exists>r. import_name rp d stem 1 stem = Some r"
  using import_name_numbered[of 2 rp d stem]
  by (subst import_name.simps) (auto split: sum.split option.split)

lemma slug_numbered:
  assumes "is_slug stem" and "0 \<le> n" and "length (stem @ ''-'' @ int_str n) \<le> 64"
  shows "is_slug (stem @ ''-'' @ int_str n)"
proof -
  have "slug_char c" if "c \<in> set (int_str n)" for c
    using that assms(2) dec_digits_digit[of n c] by (simp add: int_str_def slug_char_def slug_start_def is_digit_def Let_def)
  then show ?thesis using assms(1,3) by (cases stem) (auto simp: list_all_iff slug_char_def)
qed

definition import_outcome :: "rule_dir \<Rightarrow> string \<Rightarrow> string res \<Rightarrow> bool" where
  "import_outcome d stem r = (case r of
       Inr m \<Rightarrow> is_slug m \<and> files_lookup d m = None
     | Inl e \<Rightarrow> e = ValueError \<and> (\<exists>k\<ge>2. 64 < length (stem @ ''-'' @ int_str k)))"

lemma strip_slug_numbered:
  assumes "is_slug stem" and "0 \<le> n"
  shows "py_strip (stem @ ''-'' @ int_str n) = stem @ ''-'' @ int_str n"
proof -
  obtain c cs where c: "stem = c # cs" "slug_start c" using assms(1) by (cases stem) auto
  moreover have "\<forall>c \<in> set py_whitespace. \<not> slug_start c" by code_simp
  ultimately have "\<not> py_isspace c" by (auto simp: py_isspace_def)
  then show ?thesis using strip_numbered[OF assms(2), of stem] c by (simp add: py_lstrip_def)
qed

lemma import_step:
  assumes step: "(case RuleStore_get_group rp d name of Inl e \<Rightarrow> Some (Inl e) | Inr None \<Rightarrow> Some (Inr name)
        | Inr (Some g) \<Rightarrow> rec) = Some r"
    and inv: "rules_inv d" and slug: "is_slug stem" and n: "2 \<le> n" and name: "name = stem @ ''-'' @ int_str n"
  shows "import_outcome d stem r \<or> rec = Some r"
proof (cases "is_slug name")
  case True
  then show ?thesis using step inv
    by (auto simp: get_group_lookup import_outcome_def split: option.splits)
next
  case False
  then have "64 < length name" using slug_numbered[OF slug, of n] n name by force
  moreover have "RuleStore_get_group rp d name = Inl ValueError"
    using False strip_slug_numbered[OF slug, of n] n
    by (simp add: RuleStore_get_group_def group_path_def validate_group_name_def name)
  ultimately show ?thesis using step n name by (auto simp: import_outcome_def)
qed

lemma import_name_outcome:
  assumes r: "import_name rp d stem n (stem @ ''-'' @ int_str n) = Some r" and "rules_inv d" "is_slug stem" "2 \<le> n"
  shows "import_outcome d stem r"
proof -
  have "\<forall>k. 2 \<le> k \<and> rules_inv d \<and> is_slug stem \<and> name = stem @ ''-'' @ int_str k \<and> n = k \<longrightarrow> import_outcome d stem r"
    if r: "import_name rp d stem n name = Some r" for name
  proof (rule import_name.raw_induct[where P = "\<lambda>rp d stem n name r. \<forall>k. 2 \<le> k \<and> rules_inv d \<and> is_slug stem \<and>
      name = stem @ ''-'' @ int_str k \<and> n = k \<longrightarrow> import_outcome d stem r", OF _ r], intro allI impI, elim conjE)
    fix rec rp d stem name r and n k :: int
    assume ih: "\<And>rp d stem n name r. rec rp d stem n name = Some r \<Longrightarrow> \<forall>k. 2 \<le> k \<and> rules_inv d \<and> is_slug stem \<and>
        name = stem @ ''-'' @ int_str k \<and> n = k \<longrightarrow> import_outcome d stem r"
      and step: "(case RuleStore_get_group rp d name of Inl e \<Rightarrow> Some (Inl e) | Inr None \<Rightarrow> Some (Inr name)
        | Inr (Some g) \<Rightarrow> rec rp d stem (n + 1) (stem @ ''-'' @ int_str (n + 1))) = Some r"
      and k: "2 \<le> k" "rules_inv d" "is_slug stem" "name = stem @ ''-'' @ int_str k" "n = k"
    from import_step[OF step k(2,3,1,4)] show "import_outcome d stem r"
    proof
      assume "rec rp d stem (n + 1) (stem @ ''-'' @ int_str (n + 1)) = Some r"
      from ih[OF this] show ?thesis using k by auto
    qed
  qed
  from this[OF r] show ?thesis using assms by blast
qed

lemma import_name_free:
  assumes r: "import_name rp d stem 1 stem = Some r" and inv: "rules_inv d" and slug: "is_slug stem"
  shows "import_outcome d stem r \<and> (files_lookup d stem = None \<longrightarrow> r = Inr stem)"
proof (cases "files_lookup d stem")
  case None
  then show ?thesis using r inv slug
    by (subst (asm) import_name.simps) (auto simp: get_group_lookup import_outcome_def)
next
  case (Some g)
  then have "import_name rp d stem 2 (stem @ ''-'' @ int_str 2) = Some r" using r inv slug
    by (subst (asm) import_name.simps) (simp add: get_group_lookup)
  then show ?thesis using import_name_outcome inv slug Some by force
qed

lemma backup_name_returns:
  assumes "0 \<le> n"
  shows "\<exists>b. backup_name backups stem n = Some b"
proof -
  define taken where "taken k \<longleftrightarrow> 0 \<le> k \<and> stem @ ''-'' @ int_str k @ ''.json'' \<in> set (map fst backups)" for k :: int
  have "finite {k. taken k}"
    unfolding taken_def by (rule finite_taken) (auto simp: inj_on_def int_str_inj)
  have "0 \<le> n \<longrightarrow> (\<exists>b. backup_name backups stem n = Some b)"
    by (rule search_ends[OF \<open>finite {k. taken k}\<close>]) (subst backup_name.simps, auto simp: taken_def Let_def)+
  then show ?thesis using assms by blast
qed



section \<open>Properties\<close>

lemma from_dict_name:
  assumes "RuleGroup_from_dict rp (RuleGroup_to_dict g) = Inr v"
  shows "rg_name v = py_strip (rg_name g)"
  using assms
  by (auto simp: RuleGroup_from_dict_def RuleGroup_to_dict_def dict_item_def RuleGroup_init_def
      validate_group_name_def Let_def split: if_splits)

lemma modify_group_frame:
  assumes inv: "rules_inv d" and run: "modify_group rp d name change = Inr (v, d')"
    and keeps: "\<And>g g'. change g = Inr g' \<Longrightarrow> rg_name g' = rg_name g"
  shows "rules_inv d' \<and> rg_name v = py_strip name \<and> group_valid v \<and> files_lookup d' = (files_lookup d)(py_strip name \<mapsto> v) \<and>
    (\<exists>g. files_lookup d (py_strip name) = Some g)"
proof -
  obtain target g g' where t: "group_path rp name = Inr target" "load_required_group rp d target = Inr g"
    "change g = Inr g'" "put_group rp d target g' = Inr (v, d')"
    using run by (auto simp: modify_group_def)
  have slug: "is_slug (py_strip name)" and target: "target = py_strip name @ ''.json''"
    using t(1) by (auto simp: group_path_def validate_group_name_def Let_def split: if_splits)
  obtain f where f: "map_of (rd_files d) target = Some f" "load_group rp f = Inr g"
    using t(2) by (auto simp: load_required_group_def split: option.splits)
  obtain h where h: "group_valid h" "f = dump_group h" "rg_name h = py_strip name"
    using rules_inv_file[OF inv f(1)] target by auto
  have g: "g = h" using f(2) h by simp
  have v: "RuleGroup_from_dict rp (RuleGroup_to_dict g') = Inr v"
    "d' = d\<lparr>rd_files := dict_put (rd_files d) target (dump_group v)\<rparr>"
    using t(4) by (auto simp: put_group_def)
  have nv: "rg_name v = py_strip name"
    using from_dict_name[OF v(1)] keeps[OF t(3)] g h slug by simp
  have gv: "group_valid v" using RuleGroup_from_dict_valid[OF v(1)] .
  have "files_lookup d (py_strip name) = Some h"
    using files_lookup_Some[OF inv] f(1) h target by simp
  then show ?thesis using put_file[OF inv gv] nv gv v(2) target by auto
qed

lemma backup_path_fresh:
  assumes "is_slug n"
  shows "\<exists>b. backup_path rp ts d n = Some (Inr b) \<and> b \<notin> set (map fst (rd_backups d))"
proof -
  have free: "b \<notin> set (map fst bs)" if "backup_name bs stem k = Some b" for bs stem k b
    by (rule backup_name.raw_induct[where P = "\<lambda>bs stem k b. b \<notin> set (map fst bs)", OF _ that])
      (auto simp: Let_def split: if_splits)
  obtain b where b: "backup_name (rd_backups d) (n @ ''-'' @ ts) 2 = Some b" using backup_name_returns[of 2] by force
  show ?thesis using assms free[OF b] b by (simp add: backup_path_def validate_group_name_def Let_def)
qed

lemma replace_group_run:
  assumes inv: "rules_inv d" and new: "group_valid new"
  shows "\<exists>b d'. RuleStore_replace_group rp ts d new True = Some (Inr (b, d')) \<and> rules_inv d' \<and>
    files_lookup d' = (files_lookup d)(rg_name new \<mapsto> new) \<and>
    (case files_lookup d (rg_name new) of
       None \<Rightarrow> b = None \<and> rd_backups d' = rd_backups d
     | Some old \<Rightarrow> \<exists>n. b = Some n \<and> n \<notin> set (map fst (rd_backups d)) \<and>
         rd_backups d' = rd_backups d @ [(n, dump_group old)])"
proof (cases "map_of (rd_files d) (rg_name new @ ''.json'')")
  case None
  then show ?thesis using put_file[OF inv new] group_valid_slug[OF new]
    by (simp add: RuleStore_replace_group_def RuleGroup_round_trip[OF new] files_lookup_def)
next
  case (Some f)
  obtain old where old: "group_valid old" "f = dump_group old" "rg_name old = rg_name new"
    using rules_inv_file[OF inv Some] by auto
  obtain b where b: "backup_path rp ts d (rg_name new) = Some (Inr b)" "b \<notin> set (map fst (rd_backups d))"
    using backup_path_fresh[OF group_valid_slug[OF new]] by blast
  define d' where "d' = d\<lparr>rd_files := dict_put (rd_files d) (rg_name new @ ''.json'') (dump_group new)\<rparr>"
  have run: "RuleStore_replace_group rp ts d new True = Some (Inr (Some b, d'\<lparr>rd_backups := dict_put (rd_backups d) b (dump_group old)\<rparr>))"
    using Some old b(1) group_valid_slug[OF new]
    by (simp add: RuleStore_replace_group_def RuleGroup_round_trip[OF new] d'_def)
  have frame: "rules_inv (e\<lparr>rd_backups := x\<rparr>) = rules_inv e" "files_lookup (e\<lparr>rd_backups := x\<rparr>) = files_lookup e" for e x
    by (simp_all add: rules_inv_def files_lookup_def fun_eq_iff)
  have "files_lookup d (rg_name new) = Some old" using Some old files_lookup_Some[OF inv] by simp
  then show ?thesis
    using put_file[OF inv new] b(2) by (simp add: run frame dict_put_new flip: d'_def)
qed

lemma import_group_run:
  assumes inv: "rules_inv d" and r: "import_name rp d (prefix @ ''-'' @ ts) 1 (prefix @ ''-'' @ ts) = Some (Inr m)"
    and rules: "list_all rule_valid rules" "distinct (map r_id rules)" and m: "is_slug m" "files_lookup d m = None"
  shows "\<exists>g d'. RuleStore_import_group rp ts d rules prefix = Some (Inr (g, d')) \<and> rules_inv d' \<and> rg_rules g = rules \<and>
    rg_enabled g \<and> files_lookup d (rg_name g) = None \<and> files_lookup d' = (files_lookup d)(rg_name g \<mapsto> g) \<and>
    rd_backups d' = rd_backups d"
proof -
  define g where "g = \<lparr>rg_name = m, rg_enabled = True, rg_rules = rules, rg_priority = 100\<rparr>"
  have gv: "group_valid g" using m rules by (simp add: g_def group_valid_def)
  have init: "RuleGroup_init rp (PStr m) True (map Inl rules) 100 = Inr g"
    using RuleGroup_init_id[OF gv] by (simp add: g_def)
  have gs: "rg_name g = m" "rg_rules g = rules" "rg_enabled g" by (simp_all add: g_def)
  show ?thesis
    using put_file[OF inv gv] m gs r
    by (simp add: RuleStore_import_group_def Let_def add_group_valid[OF gv] init)
qed

lemma import_group_outcome:
  assumes inv: "rules_inv d" and slug: "is_slug (prefix @ ''-'' @ ts)"
    and rules: "list_all rule_valid rules" "distinct (map r_id rules)"
  shows "\<exists>r. RuleStore_import_group rp ts d rules prefix = Some r \<and>
      (case r of
         Inr (g, d') \<Rightarrow> rules_inv d' \<and> rg_rules g = rules \<and> rg_enabled g \<and> files_lookup d (rg_name g) = None \<and>
           files_lookup d' = (files_lookup d)(rg_name g \<mapsto> g) \<and> rd_backups d' = rd_backups d
       | Inl e \<Rightarrow> e = ValueError \<and> files_lookup d (prefix @ ''-'' @ ts) \<noteq> None \<and>
           (\<exists>k\<ge>2. 64 < length (prefix @ ''-'' @ ts @ ''-'' @ int_str k)))"
proof -
  obtain r where r: "import_name rp d (prefix @ ''-'' @ ts) 1 (prefix @ ''-'' @ ts) = Some r"
    using import_name_returns by blast
  note free = import_name_free[OF r inv slug]
  show ?thesis
  proof (cases r)
    case (Inl e)
    then show ?thesis using free r by (simp add: RuleStore_import_group_def import_outcome_def)
  next
    case (Inr m)
    then have m: "is_slug m" "files_lookup d m = None" using free by (simp_all add: import_outcome_def)
    show ?thesis using import_group_run[OF inv r[unfolded Inr] rules m] by fastforce
  qed
qed

lemma distinct_single: "set xs = {x} \<Longrightarrow> distinct (map f xs) \<Longrightarrow> xs = [x]"
  by (cases xs; cases "tl xs") auto

definition sample_stored_group :: rule_group where
  "sample_stored_group = \<lparr>rg_name = ''imported-20260101000000'', rg_enabled = True,
     rg_rules = [sample_rule ''r0'' ''direct'' ''domain'' ''a.example''], rg_priority = 100\<rparr>"

definition sample_rule_dir :: rule_dir where
  "sample_rule_dir =
     \<lparr>rd_files = [(''imported-20260101000000.json'', dump_group sample_stored_group)], rd_backups = []\<rparr>"

lemma sample_rule_dir_inv: "rules_inv sample_rule_dir"
proof -
  have "group_valid sample_stored_group" by code_simp
  moreover have "rd_files sample_rule_dir = [(rg_name sample_stored_group @ ''.json'', dump_group sample_stored_group)]"
    by (simp add: sample_rule_dir_def sample_stored_group_def)
  ultimately show ?thesis by (auto simp: rules_inv_def)
qed

text \<open>
  C0. The rule store is a finite map from names to well-formed groups. After any sequence of successful writes
  of well-formed groups and removals under valid names, from a directory in order, \<open>get_group\<close> answers what the
  same updates of a map answer; \<open>list_groups\<close> returns each stored group once, in the order of the file names,
  and every one is well formed, so that evaluating them cannot raise.
\<close>

theorem rule_store_refines_map:
  assumes "rules_inv d" and "\<forall>a \<in> set ops. op_ok group_valid is_slug a"
    and "run_store (RuleStore_add_group rp) (RuleStore_remove_group rp) ops d = Inr d'"
  shows "(\<forall>k. is_slug k \<longrightarrow> RuleStore_get_group rp d' k = Inr (fold (store_spec rg_name) ops (files_lookup d) k)) \<and>
    (\<exists>gs. RuleStore_list_groups rp d' = Inr gs \<and>
       set gs = {g. fold (store_spec rg_name) ops (files_lookup d) (rg_name g) = Some g} \<and>
       distinct (map rg_name gs) \<and> sorted (map (\<lambda>g. rg_name g @ ''.json'') gs) \<and> list_all group_valid gs \<and>
       (\<forall>rs pol t. \<exists>m. evaluate rs pol t gs = Inr m))"
proof -
  have inv': "rules_inv d'" and lk: "files_lookup d' = fold (store_spec rg_name) ops (files_lookup d)"
    using rule_files.run_map[OF assms] by blast+
  obtain gs where gs: "RuleStore_list_groups rp d' = Inr gs" "list_all group_valid gs" "distinct (map rg_name gs)"
    "sorted (map (\<lambda>g. rg_name g @ ''.json'') gs)" "set gs = {g. files_lookup d' (rg_name g) = Some g}"
    using list_groups_run[OF inv'] by blast
  show ?thesis
    using rule_files.run_map_get[OF assms] gs lk evaluate_find[OF gs(2)] by auto
qed

theorem rule_store_refines_map_witness:
  "\<exists>d'. run_store (RuleStore_add_group (\<lambda>v. [])) (RuleStore_remove_group (\<lambda>v. []))
       [Put (sample_rule_groups ! 0), Del ''imported-20260101000000''] sample_rule_dir = Inr d' \<and>
     RuleStore_get_group (\<lambda>v. []) d' ''imported-a'' = Inr (Some (sample_rule_groups ! 0)) \<and>
     RuleStore_list_groups (\<lambda>v. []) d' = Inr [sample_rule_groups ! 0]"
proof -
  define ops where "ops = [Put (sample_rule_groups ! 0), Del ''imported-20260101000000'']"
  have v: "group_valid (sample_rule_groups ! 0)" and sl: "is_slug ''imported-20260101000000''" "is_slug ''imported-a''"
    by code_simp+
  have nm: "rg_name (sample_rule_groups ! 0) = ''imported-a''" by (simp add: sample_rule_groups_def)
  obtain d' where r: "run_store (RuleStore_add_group (\<lambda>v. [])) (RuleStore_remove_group (\<lambda>v. [])) ops sample_rule_dir = Inr d'"
    using sl by (simp add: ops_def add_group_valid[OF v] RuleStore_remove_group_def)
  have ok: "\<forall>a \<in> set ops. op_ok group_valid is_slug a" using v sl by (simp add: ops_def op_ok_def)
  note t = rule_store_refines_map[OF sample_rule_dir_inv ok r]
  have lk: "files_lookup sample_rule_dir k = None" if "k \<noteq> ''imported-20260101000000''" for k
    using that by (simp add: files_lookup_def sample_rule_dir_def)
  have fl: "fold (store_spec rg_name) ops (files_lookup sample_rule_dir) k =
      (if k = ''imported-a'' then Some (sample_rule_groups ! 0) else None)" for k
    using lk[of k] by (simp add: ops_def nm)
  have stored: "{g. (if rg_name g = ''imported-a'' then Some (sample_rule_groups ! 0) else None) = Some g} = {sample_rule_groups ! 0}"
    using nm by (auto split: if_splits)
  obtain gs where gs: "RuleStore_list_groups (\<lambda>v. []) d' = Inr gs" "set gs = {sample_rule_groups ! 0}" "distinct (map rg_name gs)"
    using t unfolding fl stored by blast
  have "gs = [sample_rule_groups ! 0]"
    using gs(2,3) by (rule distinct_single)
  moreover have "RuleStore_get_group (\<lambda>v. []) d' ''imported-a'' = Inr (Some (sample_rule_groups ! 0))"
    using t sl(2) unfolding fl by simp
  ultimately show ?thesis using r gs(1) unfolding ops_def by blast
qed



end
