(* ===== verification/Json_Text.thy ===== *)
theory Json_Text
  imports Py_Text "HOL-Library.List_Lexorder" "HOL-Library.Char_ord"
begin

text \<open>
  The decoder of the standard library's \<open>json\<close> module: \<open>json.loads\<close> as a recursive-descent parser. It keeps
  its three outcomes apart: a value and the remaining text, a syntax error, and a fuel that was too small. Strings
  stay below code point 256: an escape beyond it counts as an error. The value of a float literal is the real
  number it denotes (binary rounding is not modelled).
\<close>

section \<open>Decoding\<close>

datatype 'a json_result = JOk 'a string | JFail | JStuck

definition json_space :: "char \<Rightarrow> bool" where
  "json_space c \<longleftrightarrow> c \<in> set [CHR '' '', CHR 0x09, CHR 0x0A, CHR 0x0D]"

definition skip_ws :: "string \<Rightarrow> string" where
  "skip_ws s = dropWhile json_space s"

definition unicode_escape :: "string \<Rightarrow> (char \<times> string) option" where
  "unicode_escape s =
     (let h = take 4 s in
      if length h = 4 \<and> list_all is_hex h \<and> digits_val 16 h < 256
      then Some (char_of (digits_val 16 h), drop 4 s) else None)"

definition simple_escapes :: "(char \<times> char) list" where
  "simple_escapes =
     [(CHR 0x22, CHR 0x22), (CHR 0x5C, CHR 0x5C), (CHR ''/'', CHR ''/''), (CHR ''b'', CHR 0x08),
      (CHR ''f'', CHR 0x0C), (CHR ''n'', CHR 0x0A), (CHR ''r'', CHR 0x0D), (CHR ''t'', CHR 0x09)]"

definition json_escape :: "string \<Rightarrow> (char \<times> string) option" where
  "json_escape s = (case s of
       [] \<Rightarrow> None
     | c # cs \<Rightarrow>
         if c = CHR ''u'' then unicode_escape cs
         else map_option (\<lambda>e. (e, cs)) (map_of simple_escapes c))"

lemma json_escape_shorter: "json_escape s = Some (c, r) \<Longrightarrow> length r < length s"
  by (auto simp: json_escape_def unicode_escape_def Let_def split: list.splits if_splits)

function json_chars :: "string \<Rightarrow> string \<Rightarrow> string json_result" where
  "json_chars acc s = (case s of
       [] \<Rightarrow> JFail
     | c # cs \<Rightarrow>
         if c = CHR 0x22 then JOk (rev acc) cs
         else if c = CHR 0x5C then
           (case json_escape cs of None \<Rightarrow> JFail | Some e \<Rightarrow> json_chars (fst e # acc) (snd e))
         else if py_code c < 32 then JFail
         else json_chars (c # acc) cs)"
  by pat_completeness auto
termination
proof (relation "measure (\<lambda>(acc, s). length s)", simp, clarsimp, goal_cases)
  case (1 cs a b)
  then show ?case using json_escape_shorter[of cs a b] by simp
next
  case (2 acc s x cs)
  then show ?case by simp
qed

declare json_chars.simps [simp del]

lemma json_chars_Nil: "json_chars acc [] = JFail"
  by (subst json_chars.simps) simp

lemma json_chars_quote: "json_chars acc (CHR 0x22 # cs) = JOk (rev acc) cs"
  by (subst json_chars.simps) simp

lemma json_chars_backslash:
  "json_chars acc (CHR 0x5C # cs) =
     (case json_escape cs of None \<Rightarrow> JFail | Some e \<Rightarrow> json_chars (fst e # acc) (snd e))"
  by (subst json_chars.simps) simp

lemma json_chars_plain:
  "c \<noteq> CHR 0x22 \<Longrightarrow> c \<noteq> CHR 0x5C \<Longrightarrow>
     json_chars acc (c # cs) = (if py_code c < 32 then JFail else json_chars (c # acc) cs)"
  by (subst json_chars.simps) simp

lemmas json_chars_steps = json_chars_Nil json_chars_quote json_chars_backslash json_chars_plain

definition json_float :: "bool \<Rightarrow> string \<Rightarrow> string \<Rightarrow> int \<Rightarrow> pyfloat" where
  "json_float neg ip fs e =
     (let m = real_of_int (digits_val 10 (ip @ fs));
          k = e - int (length fs);
          x = (if 0 \<le> k then m * 10 ^ nat k else m / 10 ^ nat (- k))
      in if x \<ge> 2 ^ 1024 - 2 ^ 970 then (if neg then FNegInf else FPosInf)
         else FFin (if neg then - x else x))"

text \<open>The optional fraction and exponent after the integer part.\<close>

definition json_frac :: "string \<Rightarrow> (string \<times> string) option" where
  "json_frac s = (case s of
       c # cs \<Rightarrow>
         if c = CHR ''.'' \<and> takeWhile is_digit cs \<noteq> []
         then Some (takeWhile is_digit cs, dropWhile is_digit cs) else None
     | [] \<Rightarrow> None)"

definition exp_digits :: "bool \<Rightarrow> string \<Rightarrow> (int \<times> string) option" where
  "exp_digits neg s =
     (let ds = takeWhile is_digit s; n = digits_val 10 ds in
      if ds = [] then None else Some (if neg then - n else n, dropWhile is_digit s))"

definition json_exp :: "string \<Rightarrow> (int \<times> string) option" where
  "json_exp s = (case s of
       c # cs \<Rightarrow>
         if c = CHR ''e'' \<or> c = CHR ''E'' then
           (if py_startswith cs ''-'' then exp_digits True (drop 1 cs)
            else exp_digits False (if py_startswith cs ''+'' then drop 1 cs else cs))
         else None
     | [] \<Rightarrow> None)"

definition json_number_rest :: "bool \<Rightarrow> string \<Rightarrow> string \<Rightarrow> pyval json_result" where
  "json_number_rest neg ip r =
     (case (json_frac r, json_exp (case json_frac r of None \<Rightarrow> r | Some (fs, r') \<Rightarrow> r')) of
        (None, None) \<Rightarrow> JOk (PInt (if neg then - digits_val 10 ip else digits_val 10 ip)) r
      | (Some (fs, r'), None) \<Rightarrow> JOk (PFloat (json_float neg ip fs 0)) r'
      | (None, Some (e, r'')) \<Rightarrow> JOk (PFloat (json_float neg ip [] e)) r''
      | (Some (fs, r'), Some (e, r'')) \<Rightarrow> JOk (PFloat (json_float neg ip fs e)) r'')"

definition json_number :: "string \<Rightarrow> pyval json_result" where
  "json_number s =
     (let neg = py_startswith s ''-''; u = (if neg then drop 1 s else s);
          ds = takeWhile is_digit u; ip = (if hd ds = CHR ''0'' then ''0'' else ds)
      in if ds = [] then JFail else json_number_rest neg ip (drop (length ip) u))"

definition json_constants :: "(string \<times> pyval) list" where
  "json_constants =
     [(''null'', PNone), (''true'', PBool True), (''false'', PBool False), (''NaN'', PFloat FNaN),
      (''Infinity'', PFloat FPosInf), (''-Infinity'', PFloat FNegInf)]"

definition json_atom :: "string \<Rightarrow> pyval json_result" where
  "json_atom s = (case find (\<lambda>(k, v). py_startswith s k) json_constants of
       Some (k, v) \<Rightarrow> JOk v (drop (length k) s)
     | None \<Rightarrow> json_number s)"

text \<open>
  \<open>json_value\<close> reads one value; \<open>json_items\<close> and \<open>json_members\<close> read the rest of an array or object whose
  first element starts at the text. Each call uses one unit of fuel and, on success, at least one character.
\<close>

fun json_value :: "nat \<Rightarrow> string \<Rightarrow> pyval json_result"
  and json_items :: "nat \<Rightarrow> pyval list \<Rightarrow> string \<Rightarrow> pyval json_result"
  and json_members :: "nat \<Rightarrow> dict \<Rightarrow> string \<Rightarrow> pyval json_result" where
  "json_value 0 s = JStuck"
| "json_value (Suc f) s = (case s of
       [] \<Rightarrow> JFail
     | c # cs \<Rightarrow>
         if c = CHR 0x22 then
           (case json_chars [] cs of JOk t r \<Rightarrow> JOk (PStr t) r | _ \<Rightarrow> JFail)
         else if c = CHR ''['' then
           (let t = skip_ws cs in
            if py_startswith t '']'' then JOk (PList []) (drop 1 t) else json_items f [] t)
         else if c = CHR ''{'' then
           (let t = skip_ws cs in
            if py_startswith t ''}'' then JOk (PDict []) (drop 1 t) else json_members f [] t)
         else json_atom s)"
| "json_items 0 acc s = JStuck"
| "json_items (Suc f) acc s = (case json_value f s of
       JOk v r \<Rightarrow>
         (case skip_ws r of
            [] \<Rightarrow> JFail
          | c # cs \<Rightarrow>
              if c = CHR '','' then json_items f (acc @ [v]) (skip_ws cs)
              else if c = CHR '']'' then JOk (PList (acc @ [v])) cs
              else JFail)
     | JFail \<Rightarrow> JFail
     | JStuck \<Rightarrow> JStuck)"
| "json_members 0 acc s = JStuck"
| "json_members (Suc f) acc s =
     (if \<not> py_startswith s [CHR 0x22] then JFail
      else case json_chars [] (drop 1 s) of
          JOk k r \<Rightarrow>
            (if \<not> py_startswith (skip_ws r) '':'' then JFail
             else case json_value f (skip_ws (drop 1 (skip_ws r))) of
                 JOk v r' \<Rightarrow>
                   (case skip_ws r' of
                      [] \<Rightarrow> JFail
                    | c # cs \<Rightarrow>
                        if c = CHR '','' then json_members f (dict_put acc k v) (skip_ws cs)
                        else if c = CHR ''}'' then JOk (PDict (dict_put acc k v)) cs
                        else JFail)
               | JFail \<Rightarrow> JFail
               | JStuck \<Rightarrow> JStuck)
        | _ \<Rightarrow> JFail)"

definition json_loads :: "string \<Rightarrow> pyval option" where
  "json_loads s = (case json_value (2 * length s + 2) (skip_ws s) of
       JOk v r \<Rightarrow> if skip_ws r = [] then Some v else None
     | _ \<Rightarrow> None)"


section \<open>The fuel suffices\<close>

lemma json_chars_shorter: "json_chars acc s = JOk t r \<Longrightarrow> length r < length s"
proof (induction acc s rule: json_chars.induct)
  case (1 acc s)
  show ?case
  proof (cases s)
    case (Cons c cs)
    consider "c = CHR 0x22" | "c = CHR 0x5C" | "c \<noteq> CHR 0x22" "c \<noteq> CHR 0x5C" by blast
    then show ?thesis
    proof cases
      case 1
      with "1.prems" Cons show ?thesis by (simp add: json_chars_steps)
    next
      case 2
      with "1.prems" Cons obtain a b where e: "json_escape cs = Some (a, b)" "json_chars (a # acc) b = JOk t r"
        by (auto simp: json_chars_steps split: option.splits)
      have "length r < length b" using "1.IH"(1)[OF Cons _ 2 e(1)] e(2) 2 by simp
      then show ?thesis using json_escape_shorter[OF e(1)] by (simp add: Cons)
    next
      case 3
      then have "json_chars (c # acc) cs = JOk t r" "\<not> py_code c < 32"
        using "1.prems" Cons by (simp_all add: json_chars_steps split: if_splits)
      then show ?thesis using "1.IH"(2)[OF Cons] 3 Cons by simp
    qed
  qed (use "1.prems" in \<open>simp add: json_chars_steps\<close>)
qed

lemma length_skip_ws: "length (skip_ws s) \<le> length s"
  by (simp add: skip_ws_def length_dropWhile_le)

lemma json_frac_shorter: "json_frac s = Some (fs, r) \<Longrightarrow> length r \<le> length s"
  using length_dropWhile_le[of is_digit] by (auto simp: json_frac_def le_SucI split: list.splits if_splits)

lemma exp_digits_shorter: "exp_digits neg s = Some (e, r) \<Longrightarrow> length r \<le> length s"
  using length_dropWhile_le[of is_digit s] by (simp add: exp_digits_def Let_def split: if_splits)

lemma json_exp_shorter:
  assumes "json_exp s = Some (e, r)"
  shows "length r \<le> length s"
proof -
  obtain c cs where s: "s = c # cs" using assms by (cases s) (simp_all add: json_exp_def)
  obtain neg u where u: "exp_digits neg u = Some (e, r)" "u = cs \<or> u = drop 1 cs"
    using assms unfolding s json_exp_def list.case by (simp only: split: if_splits) blast+
  from u(2) have "length u \<le> length cs" by (elim disjE) simp_all
  then show ?thesis using exp_digits_shorter[OF u(1)] by (simp add: s)
qed

lemma json_number_cases:
  obtains "json_number s = JFail"
  | neg ip r where "json_number s = json_number_rest neg ip r" and "length r < length s"
proof -
  define u where "u = (if py_startswith s ''-'' then drop 1 s else s)"
  define ds where "ds = takeWhile is_digit u"
  define ip where "ip = (if hd ds = CHR ''0'' then ''0'' else ds)"
  have eq: "json_number s = (if ds = [] then JFail else json_number_rest (py_startswith s ''-'') ip (drop (length ip) u))"
    unfolding json_number_def Let_def u_def ds_def ip_def by (rule refl)
  show thesis
  proof (cases "ds = []")
    case True
    then show thesis using eq that(1) by simp
  next
    case False
    then have "u \<noteq> []" "ip \<noteq> []" unfolding ds_def ip_def by auto
    then have "length (drop (length ip) u) < length u" by (cases ip) auto
    moreover have "length u \<le> length s" by (simp add: u_def)
    ultimately show thesis using eq False that(2) by simp
  qed
qed

lemma json_number_rest_cases:
  obtains v where "json_number_rest neg ip s = JOk v s"
  | v r fs e t where "json_number_rest neg ip s = JOk v r" and "json_frac s = Some (fs, r) \<or> json_exp s = Some (e, r) \<or>
      (json_frac s = Some (fs, t) \<and> json_exp t = Some (e, r))"
proof (cases "json_frac s")
  case None
  show thesis
  proof (cases "json_exp s")
    case None
    then show thesis using \<open>json_frac s = None\<close> that(1) by (simp add: json_number_rest_def)
  next
    case (Some p)
    then show thesis using None that(2) by (cases p) (simp add: json_number_rest_def)
  qed
next
  case (Some p)
  obtain fs t where p: "p = (fs, t)" by (cases p)
  show thesis
  proof (cases "json_exp t")
    case None
    then show thesis using Some that(2)[of _ t fs] by (simp add: json_number_rest_def p)
  next
    case (Some q)
    obtain e r where q: "q = (e, r)" by (cases q)
    show thesis using Some that(2)[of _ r fs e t] \<open>json_frac s = Some p\<close> by (simp add: json_number_rest_def p q)
  qed
qed

lemma json_number_rest_shorter: "json_number_rest neg ip s = JOk v r \<Longrightarrow> length r \<le> length s"
proof (rule json_number_rest_cases[of neg ip s])
  fix w r' fs e t
  assume a: "json_number_rest neg ip s = JOk v r" "json_number_rest neg ip s = JOk w r'"
    and b: "json_frac s = Some (fs, r') \<or> json_exp s = Some (e, r') \<or>
      (json_frac s = Some (fs, t) \<and> json_exp t = Some (e, r'))"
  have "r' = r" using a by simp
  with b show "length r \<le> length s"
    by (meson json_exp_shorter json_frac_shorter order_trans)
qed simp

lemma json_number_shorter: "json_number s = JOk v r \<Longrightarrow> length r < length s"
  by (rule json_number_cases[of s]) (auto dest!: json_number_rest_shorter)

lemma json_atom_shorter: "json_atom s = JOk v r \<Longrightarrow> length r < length s"
proof (cases "find (\<lambda>(k, v). py_startswith s k) json_constants")
  case None
  then show "json_atom s = JOk v r \<Longrightarrow> length r < length s"
    by (simp add: json_atom_def json_number_shorter)
next
  case (Some kv)
  obtain k w where kv: "kv = (k, w)" by (cases kv)
  have k: "(k, w) \<in> set json_constants" "py_startswith s k"
    using find_Some_in[OF Some] by (simp_all add: kv)
  have "\<forall>p \<in> set json_constants. fst p \<noteq> []" by (simp add: json_constants_def)
  then have "k \<noteq> []" using k(1) by force
  moreover have "length k \<le> length s"
    using k(2) unfolding py_startswith_def by (metis length_take min.cobounded1)
  ultimately have "length (drop (length k) s) < length s" by (cases k) auto
  then show "json_atom s = JOk v r \<Longrightarrow> length r < length s"
    using Some by (simp add: json_atom_def kv)
qed


lemma skip_ws_Cons: "skip_ws r = c # cs \<Longrightarrow> length cs < length r"
  using length_skip_ws[of r] by simp

lemma startswith_shorter: "py_startswith t [c] \<Longrightarrow> length (drop 1 t) < length t"
  by (cases t) (auto simp: py_startswith_def)

lemma json_shorter:
  "json_value f s = JOk v r \<Longrightarrow> length r < length s"
  "json_items f acc s = JOk v r \<Longrightarrow> length r < length s"
  "json_members f d s = JOk v r \<Longrightarrow> length r < length s"
proof (induction f s and f acc s and f d s arbitrary: v r and v r and v r
    rule: json_value_json_items_json_members.induct)
  case (2 f s)
  show ?case
  proof (cases s)
    case (Cons c cs)
    note t = length_skip_ws[of cs]
    consider "c = CHR 0x22" | "c = CHR ''[''" | "c = CHR ''{''" |
      "c \<noteq> CHR 0x22" "c \<noteq> CHR ''[''" "c \<noteq> CHR ''{''" by blast
    then show ?thesis
    proof cases
      case 1
      then show ?thesis using "2.prems" by (auto simp: Cons dest: json_chars_shorter split: json_result.splits)
    next
      case 2
      show ?thesis
      proof (cases "py_startswith (skip_ws cs) '']''")
        case True
        then show ?thesis using "2.prems" 2 t by (auto simp: Cons Let_def)
      next
        case False
        then have "json_items f [] (skip_ws cs) = JOk v r" using "2.prems" 2 by (simp add: Cons Let_def)
        then show ?thesis using "2.IH"(1)[OF Cons _ _ refl] 2 False t by (force simp: Cons)
      qed
    next
      case 3
      show ?thesis
      proof (cases "py_startswith (skip_ws cs) ''}''")
        case True
        then show ?thesis using "2.prems" 3 t by (auto simp: Cons Let_def)
      next
        case False
        then have "json_members f [] (skip_ws cs) = JOk v r" using "2.prems" 3 by (simp add: Cons Let_def)
        then show ?thesis using "2.IH"(2)[OF Cons _ _ _ refl] 3 False t by (force simp: Cons)
      qed
    next
      case 4
      then show ?thesis using "2.prems" json_atom_shorter[of s] by (simp add: Cons)
    qed
  qed (use "2.prems" in simp)
next
  case (4 f acc s)
  then obtain w r1 c cs where w: "json_value f s = JOk w r1" "skip_ws r1 = c # cs"
    by (auto split: json_result.splits list.splits)
  have l: "length r1 < length s" using "4.IH"(1)[OF w(1)] .
  show ?case
  proof (cases "c = CHR '',''")
    case True
    then have "json_items f (acc @ [w]) (skip_ws cs) = JOk v r" using "4.prems" w by simp
    from "4.IH"(2)[OF w(1) w(2) True this] show ?thesis
      using l skip_ws_Cons[OF w(2)] length_skip_ws[of cs] by simp
  next
    case False
    then show ?thesis using "4.prems" w l skip_ws_Cons[OF w(2)] by (simp split: if_splits)
  qed
next
  case (6 f d s)
  then have st: "py_startswith s [CHR 0x22]" by (simp split: if_splits)
  with "6.prems" obtain k r0 where k: "json_chars [] (drop 1 s) = JOk k r0" "py_startswith (skip_ws r0) '':''"
    by (auto split: json_result.splits if_splits)
  with "6.prems" st obtain w r1 c cs where
    w: "json_value f (skip_ws (drop 1 (skip_ws r0))) = JOk w r1" "skip_ws r1 = c # cs"
    by (auto split: json_result.splits list.splits)
  have "length r1 < length (skip_ws (drop 1 (skip_ws r0)))"
    using "6.IH"(1)[OF _ k(1) _ w(1)] st k(2) by simp
  then have l: "length r1 < length s"
    using length_skip_ws[of "drop 1 (skip_ws r0)"] length_skip_ws[of r0] json_chars_shorter[OF k(1)] by simp
  show ?case
  proof (cases "c = CHR '',''")
    case True
    then have m: "json_members f (dict_put d k w) (skip_ws cs) = JOk v r" using "6.prems" st k w by simp
    have "length r < length (skip_ws cs)"
      using "6.IH"(2)[OF _ k(1) _ w(1) w(2) True m] st k(2) by simp
    then show ?thesis using l skip_ws_Cons[OF w(2)] length_skip_ws[of cs] by simp
  next
    case False
    then show ?thesis using "6.prems" st k w l skip_ws_Cons[OF w(2)] by (simp split: if_splits)
  qed
qed simp_all


lemma json_number_not_stuck: "json_number s \<noteq> JStuck"
proof -
  have "json_number_rest neg ip r \<noteq> JStuck" for neg ip r
    by (rule json_number_rest_cases[of neg ip r]) simp_all
  then show ?thesis by (cases rule: json_number_cases[of s]) simp_all
qed

lemma json_atom_not_stuck: "json_atom s \<noteq> JStuck"
  by (auto simp: json_atom_def json_number_not_stuck split: option.splits)

lemma json_not_stuck:
  "2 * length s < f \<Longrightarrow> json_value f s \<noteq> JStuck"
  "2 * length s + 1 < f \<Longrightarrow> json_items f acc s \<noteq> JStuck"
  "2 * length s + 1 < f \<Longrightarrow> json_members f d s \<noteq> JStuck"
proof (induction f s and f acc s and f d s rule: json_value_json_items_json_members.induct)
  case (2 f s)
  show ?case
  proof (cases s)
    case (Cons c cs)
    have t: "2 * length (skip_ws cs) + 1 < f" using "2.prems" length_skip_ws[of cs] by (simp add: Cons)
    have "json_items f [] (skip_ws cs) \<noteq> JStuck" if "c = CHR ''[''" "\<not> py_startswith (skip_ws cs) '']''"
      using "2.IH"(1)[OF Cons _ _ refl] that t by simp
    moreover have "json_members f [] (skip_ws cs) \<noteq> JStuck" if "c = CHR ''{''" "\<not> py_startswith (skip_ws cs) ''}''"
      using "2.IH"(2)[OF Cons _ _ _ refl] that t by simp
    ultimately show ?thesis
      using json_atom_not_stuck[of s] by (simp add: Cons Let_def split: json_result.split)
  qed simp
next
  case (4 f acc s)
  have v: "json_value f s \<noteq> JStuck" using "4.IH"(1) "4.prems" by simp
  show ?case
  proof (cases "json_value f s")
    case (JOk w r1)
    have l: "length r1 < length s" using json_shorter(1)[OF JOk] .
    have "json_items f (acc @ [w]) (skip_ws cs) \<noteq> JStuck" if "skip_ws r1 = CHR '','' # cs" for cs
      using "4.IH"(2)[OF JOk that refl] "4.prems" l skip_ws_Cons[OF that] length_skip_ws[of cs] by simp
    then show ?thesis using JOk by (simp split: list.split)
  qed (use v in simp_all)
next
  case (6 f d s)
  show ?case
  proof (cases "py_startswith s [CHR 0x22]")
    case st: True
    show ?thesis
    proof (cases "json_chars [] (drop 1 s)")
      case k: (JOk k r0)
      show ?thesis
      proof (cases "py_startswith (skip_ws r0) '':''")
        case co: True
        define u where "u = skip_ws (drop 1 (skip_ws r0))"
        have lu: "length u < length s" unfolding u_def
          using length_skip_ws[of "drop 1 (skip_ws r0)"] length_skip_ws[of r0] json_chars_shorter[OF k] by simp
        have v: "json_value f u \<noteq> JStuck"
          using "6.IH"(1)[OF _ k] st co "6.prems" lu by (simp add: u_def)
        show ?thesis
        proof (cases "json_value f u")
          case (JOk w r1)
          have l: "length r1 < length u" using json_shorter(1)[OF JOk] .
          have "json_members f (dict_put d k w) (skip_ws cs) \<noteq> JStuck" if c: "skip_ws r1 = CHR '','' # cs" for cs
            using "6.IH"(2)[OF _ k _ JOk[unfolded u_def] c refl] st co "6.prems" l lu skip_ws_Cons[OF c]
              length_skip_ws[of cs] by simp
          then show ?thesis using st k co JOk by (simp add: u_def split: list.split)
        qed (use v st k co in \<open>simp_all add: u_def\<close>)
      qed (use st k in simp)
    qed (use st in simp_all)
  qed simp
qed simp_all

text \<open>\<open>json_loads\<close> fails only on a syntax error: its fuel is never used up.\<close>

lemma json_loads_not_stuck: "json_value (2 * length s + 2) (skip_ws s) \<noteq> JStuck"
  using json_not_stuck(1)[of "skip_ws s" "2 * length s + 2"] length_skip_ws[of s] by simp

end
