(* ===== verification/Json_Codec.thy ===== *)
theory Json_Codec
  imports Json_Text
begin

text \<open>
  \<open>json.dumps(v, indent=2, sort_keys=True)\<close>, the text the program writes every document with, and the proof
  that \<open>json.loads\<close> reads it back. Characters outside the printable ASCII range are escaped, as
  \<open>ensure_ascii\<close> asks. Floats are left out: \<open>float_free\<close> excludes them from the round trip.
\<close>

section \<open>Encoding\<close>

definition escape_char :: "char \<Rightarrow> string" where
  "escape_char c =
     (if c = CHR 0x22 then [CHR 0x5C, CHR 0x22]
      else if c = CHR 0x5C then [CHR 0x5C, CHR 0x5C]
      else if c = CHR 0x0A then [CHR 0x5C, CHR ''n'']
      else if c = CHR 0x0D then [CHR 0x5C, CHR ''r'']
      else if c = CHR 0x09 then [CHR 0x5C, CHR ''t'']
      else if c = CHR 0x0C then [CHR 0x5C, CHR ''f'']
      else if c = CHR 0x08 then [CHR 0x5C, CHR ''b'']
      else if 32 \<le> py_code c \<and> py_code c \<le> 126 then [c]
      else [CHR 0x5C, CHR ''u'', CHR ''0'', CHR ''0'', hex_digit (py_code c div 16), hex_digit (py_code c mod 16)])"

definition json_string :: "string \<Rightarrow> string" where
  "json_string s = CHR 0x22 # concat (map escape_char s) @ [CHR 0x22]"

definition new_line :: "nat \<Rightarrow> string" where
  "new_line n = CHR 0x0A # replicate (2 * n) (CHR '' '')"

fun json_text :: "nat \<Rightarrow> pyval \<Rightarrow> string"
  and json_text_items :: "nat \<Rightarrow> pyval list \<Rightarrow> string"
  and json_text_members :: "nat \<Rightarrow> dict \<Rightarrow> string" where
  "json_text n PNone = ''null''"
| "json_text n (PBool b) = (if b then ''true'' else ''false'')"
| "json_text n (PInt i) = int_str i"
| "json_text n (PFloat f) = []"
| "json_text n (PStr s) = json_string s"
| "json_text n (PList xs) = (if xs = [] then ''[]'' else CHR ''['' # new_line (n + 1) @ json_text_items n xs)"
| "json_text n (PDict d) = (if d = [] then ''{}'' else CHR ''{'' # new_line (n + 1) @ json_text_members n d)"
| "json_text_items n [] = []"
| "json_text_items n (x # xs) =
     json_text (n + 1) x @
     (if xs = [] then new_line n @ '']'' else CHR '','' # new_line (n + 1) @ json_text_items n xs)"
| "json_text_members n [] = []"
| "json_text_members n ((k, v) # ms) =
     json_string k @ '': '' @ json_text (n + 1) v @
     (if ms = [] then new_line n @ ''}'' else CHR '','' # new_line (n + 1) @ json_text_members n ms)"

text \<open>\<open>sort_keys=True\<close>: every object lists its members by key.\<close>

fun sort_keys :: "pyval \<Rightarrow> pyval"
  and sort_keys_list :: "pyval list \<Rightarrow> pyval list"
  and sort_keys_members :: "dict \<Rightarrow> dict" where
  "sort_keys (PList xs) = PList (sort_keys_list xs)"
| "sort_keys (PDict d) = PDict (sort_key fst (sort_keys_members d))"
| "sort_keys v = v"
| "sort_keys_list [] = []"
| "sort_keys_list (x # xs) = sort_keys x # sort_keys_list xs"
| "sort_keys_members [] = []"
| "sort_keys_members ((k, v) # ms) = (k, sort_keys v) # sort_keys_members ms"

definition json_dumps :: "pyval \<Rightarrow> string" where
  "json_dumps v = json_text 0 (sort_keys v)"

fun json_ok :: "pyval \<Rightarrow> bool"
  and json_ok_list :: "pyval list \<Rightarrow> bool"
  and json_ok_members :: "dict \<Rightarrow> bool" where
  "json_ok (PFloat f) = False"
| "json_ok (PList xs) = json_ok_list xs"
| "json_ok (PDict d) = (distinct (map fst d) \<and> json_ok_members d)"
| "json_ok v = True"
| "json_ok_list [] = True"
| "json_ok_list (x # xs) = (json_ok x \<and> json_ok_list xs)"
| "json_ok_members [] = True"
| "json_ok_members ((k, v) # ms) = (json_ok v \<and> json_ok_members ms)"


section \<open>Strings\<close>

lemma hex_digit_facts: "0 \<le> d \<Longrightarrow> d < 16 \<Longrightarrow> is_hex (hex_digit d) \<and> digit_val (hex_digit d) = d"
proof -
  have "\<forall>d \<in> set (map int [0..<16]). is_hex (hex_digit d) \<and> digit_val (hex_digit d) = d" by code_simp
  moreover assume "0 \<le> d" "d < 16"
  then have "d \<in> set (map int [0..<16])" by (simp add: image_int_atLeastLessThan)
  ultimately show ?thesis by blast
qed

lemma py_code_bounds: "0 \<le> py_code c \<and> py_code c < 256"
proof -
  have "py_code c mod 256 = py_code c" unfolding py_code_def by (rule of_char_mod_256)
  then show ?thesis by (metis pos_mod_bound pos_mod_sign zero_less_numeral)
qed

lemma unicode_escape_hex:
  "unicode_escape (CHR ''0'' # CHR ''0'' # hex_digit (py_code c div 16) # hex_digit (py_code c mod 16) # t) = Some (c, t)"
proof -
  define n where "n = py_code c"
  have n: "0 \<le> n" "n < 256" using py_code_bounds[of c] by (simp_all add: n_def)
  have hi: "is_hex (hex_digit (n div 16)) \<and> digit_val (hex_digit (n div 16)) = n div 16"
    by (rule hex_digit_facts) (use n in auto)
  have lo: "is_hex (hex_digit (n mod 16)) \<and> digit_val (hex_digit (n mod 16)) = n mod 16"
    by (rule hex_digit_facts) auto
  have z: "is_hex (CHR ''0'')" "digit_val (CHR ''0'') = 0" by code_simp+
  have "digits_val 16 [CHR ''0'', CHR ''0'', hex_digit (n div 16), hex_digit (n mod 16)] = n div 16 * 16 + n mod 16"
    using hi lo z by (simp add: digits_val_def)
  moreover have "n div 16 * 16 + n mod 16 = n" by simp
  ultimately have "digits_val 16 [CHR ''0'', CHR ''0'', hex_digit (n div 16), hex_digit (n mod 16)] = n" by simp
  moreover have "char_of n = c" by (simp add: n_def py_code_def)
  ultimately show ?thesis
    using hi lo z n by (simp add: unicode_escape_def Let_def flip: n_def)
qed

lemma json_chars_escape: "json_chars acc (escape_char c @ t) = json_chars (c # acc) t"
proof -
  have esc: "json_chars acc (CHR 0x5C # k # t) = json_chars (e # acc) t"
    if "map_of simple_escapes k = Some e" "k \<noteq> CHR ''u''" for k e
    using that by (simp add: json_chars_steps json_escape_def)
  consider "c \<in> {CHR 0x22, CHR 0x5C, CHR 0x0A, CHR 0x0D, CHR 0x09, CHR 0x0C, CHR 0x08}"
    | "c \<notin> {CHR 0x22, CHR 0x5C, CHR 0x0A, CHR 0x0D, CHR 0x09, CHR 0x0C, CHR 0x08}" "32 \<le> py_code c \<and> py_code c \<le> 126"
    | "c \<notin> {CHR 0x22, CHR 0x5C, CHR 0x0A, CHR 0x0D, CHR 0x09, CHR 0x0C, CHR 0x08}" "\<not> (32 \<le> py_code c \<and> py_code c \<le> 126)"
    by blast
  then show ?thesis
  proof cases
    case 1
    then show ?thesis by (auto simp: escape_char_def esc simple_escapes_def)
  next
    case 2
    then show ?thesis by (simp add: escape_char_def json_chars_plain)
  next
    case 3
    have "escape_char c = [CHR 0x5C, CHR ''u'', CHR ''0'', CHR ''0'', hex_digit (py_code c div 16), hex_digit (py_code c mod 16)]"
      using 3 by (simp add: escape_char_def)
    then show ?thesis by (simp add: json_chars_backslash json_escape_def unicode_escape_hex)
  qed
qed

lemma json_chars_text: "json_chars acc (concat (map escape_char s) @ CHR 0x22 # t) = JOk (rev acc @ s) t"
  by (induction s arbitrary: acc) (simp_all add: json_chars_quote json_chars_escape)



section \<open>Numbers\<close>

text \<open>What may follow a value in a document: the end, a comma or a line break.\<close>

definition stops :: "string \<Rightarrow> bool" where
  "stops t \<longleftrightarrow> t = [] \<or> hd t = CHR '','' \<or> hd t = CHR 0x0A"

lemma stops_facts:
  assumes "stops t"
  shows "takeWhile is_digit t = []" "json_frac t = None" "json_exp t = None"
proof -
  have d: "\<not> is_digit (CHR '','')" "\<not> is_digit (CHR 0x0A)" by code_simp+
  then show "takeWhile is_digit t = []" using assms by (cases t) (auto simp: stops_def)
  show "json_frac t = None" "json_exp t = None"
    using assms by (cases t; auto simp: stops_def json_frac_def json_exp_def)+
qed

lemma dec_digits_hd: "0 < n \<Longrightarrow> hd (dec_digits n) \<noteq> CHR ''0''"
proof (induction n rule: dec_digits.induct)
  case (1 n)
  show ?case
  proof (cases "n < 10")
    case True
    have "\<forall>d \<in> set (map int [1..<10]). digit_char d \<noteq> CHR ''0''" by code_simp
    moreover have "n \<in> set (map int [1..<10])" using True 1(2) by (simp add: image_int_atLeastLessThan)
    ultimately show ?thesis using True by (subst dec_digits.simps) auto
  next
    case False
    then have "hd (dec_digits n) = hd (dec_digits (n div 10))" by (subst dec_digits.simps) simp
    then show ?thesis using 1 False by simp
  qed
qed

lemma dec_digits_zero: "dec_digits 0 = ''0''"
  by (subst dec_digits.simps) code_simp

lemma json_digits:
  assumes "0 \<le> n" and "stops t"
  shows "takeWhile is_digit (dec_digits n @ t) = dec_digits n"
    "(if hd (dec_digits n) = CHR ''0'' then ''0'' else dec_digits n) = dec_digits n"
proof -
  show "takeWhile is_digit (dec_digits n @ t) = dec_digits n"
    using dec_digits_digit[OF assms(1)] stops_facts(1)[OF assms(2)] by (simp add: takeWhile_append2)
  show "(if hd (dec_digits n) = CHR ''0'' then ''0'' else dec_digits n) = dec_digits n"
    using dec_digits_hd[of n] assms(1) by (cases "n = 0") (simp_all add: dec_digits_zero)
qed

lemma json_number_digits:
  assumes "0 \<le> n" and "stops t" and "(if py_startswith s ''-'' then drop 1 s else s) = dec_digits n @ t"
  shows "json_number s = json_number_rest (py_startswith s ''-'') (dec_digits n) t"
  unfolding json_number_def Let_def assms(3) json_digits[OF assms(1,2)] by simp

lemma json_number_rest_stop:
  "stops t \<Longrightarrow> json_number_rest neg ip t = JOk (PInt (if neg then - digits_val 10 ip else digits_val 10 ip)) t"
  by (simp add: json_number_rest_def stops_facts)

lemma json_number_int: "stops t \<Longrightarrow> json_number (int_str i @ t) = JOk (PInt i) t"
proof -
  assume t: "stops t"
  show ?thesis
  proof (cases "i < 0")
    case True
    define n where "n = - i"
    then have n: "0 \<le> n" using True by simp
    have "py_startswith (CHR ''-'' # dec_digits n @ t) ''-''" by (simp add: py_startswith_def)
    then have "json_number (CHR ''-'' # dec_digits n @ t) = json_number_rest True (dec_digits n) t"
      using json_number_digits[OF n t, of "CHR ''-'' # dec_digits n @ t"] by simp
    then show ?thesis using True n by (simp add: int_str_def json_number_rest_stop[OF t] digits_val_dec_digits n_def)
  next
    case False
    then have n: "0 \<le> i" by simp
    have "is_digit (hd (dec_digits i))" using dec_digits_digit[OF n] hd_in_set[of "dec_digits i"] by simp
    moreover have "\<not> is_digit (CHR ''-'')" by code_simp
    ultimately have "\<not> py_startswith (dec_digits i @ t) ''-''"
      by (cases "dec_digits i") (auto simp: py_startswith_def)
    then have "json_number (dec_digits i @ t) = json_number_rest False (dec_digits i) t"
      using json_number_digits[OF n t, of "dec_digits i @ t"] by simp
    then show ?thesis using n by (simp add: int_str_def json_number_rest_stop[OF t] digits_val_dec_digits)
  qed
qed

text \<open>The first character of a number is a digit or a minus sign followed by a digit.\<close>

lemma int_str_first:
  obtains c cs where "int_str i = c # cs" "is_digit c" | c cs where "int_str i = CHR ''-'' # c # cs" "is_digit c"
proof (cases "i < 0")
  case True
  obtain c cs where d: "dec_digits (- i) = c # cs" by (cases "dec_digits (- i)") auto
  moreover have "is_digit c" using dec_digits_digit[of "- i" c] True d by simp
  ultimately show thesis using that(2) True by (simp add: int_str_def)
next
  case False
  obtain c cs where d: "dec_digits i = c # cs" by (cases "dec_digits i") auto
  moreover have "is_digit c" using dec_digits_digit[of i c] False d by simp
  ultimately show thesis using that(1) False by (simp add: int_str_def)
qed

lemma json_atom_int: "stops t \<Longrightarrow> json_atom (int_str i @ t) = JOk (PInt i) t"
proof -
  assume t: "stops t"
  have nd: "\<forall>d \<in> set ''ntfNI-''. \<not> is_digit d" by code_simp
  have "\<not> py_startswith (int_str i @ t) k" if "k \<in> set (map fst json_constants)" for k
  proof (rule int_str_first[of i])
    fix c cs assume "int_str i = c # cs" "is_digit c"
    then show ?thesis using that nd by (auto simp: json_constants_def py_startswith_def)
  next
    fix c cs assume "int_str i = CHR ''-'' # c # cs" "is_digit c"
    then show ?thesis using that nd by (auto simp: json_constants_def py_startswith_def)
  qed
  then have "find (\<lambda>(k, v). py_startswith (int_str i @ t) k) json_constants = None"
    unfolding find_None_iff by force
  then show ?thesis using json_number_int[OF t] by (simp add: json_atom_def)
qed



section \<open>Values\<close>

lemma skip_ws_new_line: "t \<noteq> [] \<Longrightarrow> \<not> json_space (hd t) \<Longrightarrow> skip_ws (new_line n @ t) = t"
proof -
  assume t: "t \<noteq> []" "\<not> json_space (hd t)"
  have "dropWhile json_space (replicate m (CHR '' '') @ t) = t" for m
    using t by (induction m) (simp_all add: json_space_def dropWhile_eq_self_iff)
  then show ?thesis by (simp add: skip_ws_def new_line_def json_space_def)
qed

lemma skip_ws_self: "\<not> json_space c \<Longrightarrow> skip_ws (c # t) = c # t"
  by (simp add: skip_ws_def)

text \<open>The text of a value starts with a character that is neither white space nor a closing bracket.\<close>

lemma json_text_first:
  assumes "json_ok v"
  obtains c cs where "json_text n v = c # cs" "\<not> json_space c" "c \<noteq> CHR '']''" "c \<noteq> CHR ''}''"
proof -
  have d: "\<not> json_space c" "c \<noteq> CHR '']''" "c \<noteq> CHR ''}''" "c \<noteq> CHR 0x22" if "is_digit c" for c
    using that by (auto simp: is_digit_def json_space_def py_code_def Let_def)
  have m: "\<not> json_space (CHR ''-'')" by code_simp
  have "\<exists>c cs. json_text n v = c # cs \<and> \<not> json_space c \<and> c \<noteq> CHR '']'' \<and> c \<noteq> CHR ''}''"
  proof (cases v)
    case (PInt i)
    show ?thesis by (rule int_str_first[of i]) (use d m PInt in auto)
  qed (use assms in \<open>auto simp: json_string_def json_space_def\<close>)
  then show thesis using that by blast
qed

lemma json_value_atom:
  assumes "c \<notin> set [CHR 0x22, CHR ''['', CHR ''{'']"
  shows "json_value (Suc f) (c # cs) = json_atom (c # cs)"
  using assms by simp

lemma json_value_int: "stops t \<Longrightarrow> json_value (Suc f) (int_str i @ t) = JOk (PInt i) t"
proof -
  assume t: "stops t"
  have d: "\<forall>c \<in> set [CHR 0x22, CHR ''['', CHR ''{'']. \<not> is_digit c" by code_simp
  obtain c cs where c: "int_str i = c # cs" "c \<notin> set [CHR 0x22, CHR ''['', CHR ''{'']"
    by (rule int_str_first[of i]) (use d in auto)
  show ?thesis using json_value_atom[OF c(2), of f "cs @ t"] json_atom_int[OF t, of i] by (simp add: c(1))
qed

lemma json_value_string: "json_value (Suc f) (json_string s @ t) = JOk (PStr s) t"
  using json_chars_text[of "[]" s t] by (simp add: json_string_def)

lemma json_value_constant:
  assumes "(k, v) \<in> set [(''null'', PNone), (''true'', PBool True), (''false'', PBool False)]"
  shows "json_value (Suc f) (k @ t) = JOk v t"
  using assms by (auto simp: json_atom_def json_constants_def py_startswith_def)


text \<open>One step of each loop: a separator is followed by the next element, the closing bracket ends it.\<close>

lemma stops_sep: "stops (new_line n @ t)" "stops (CHR '','' # t)"
  by (simp_all add: stops_def new_line_def)

lemma json_items_last:
  "json_value f s = JOk v (new_line n @ CHR '']'' # t) \<Longrightarrow> json_items (Suc f) acc s = JOk (PList (acc @ [v])) t"
  by (simp add: skip_ws_new_line json_space_def)

lemma json_items_more:
  "json_value f s = JOk v (CHR '','' # t) \<Longrightarrow> json_items (Suc f) acc s = json_items f (acc @ [v]) (skip_ws t)"
  by (simp add: skip_ws_self json_space_def)

lemma json_member_key:
  "json_members (Suc f) acc (json_string k @ '': '' @ s) = (case json_value f (skip_ws (CHR '' '' # s)) of
       JOk v r \<Rightarrow>
         (case skip_ws r of
            [] \<Rightarrow> JFail
          | c # cs \<Rightarrow>
              if c = CHR '','' then json_members f (dict_put acc k v) (skip_ws cs)
              else if c = CHR ''}'' then JOk (PDict (dict_put acc k v)) cs
              else JFail)
     | JFail \<Rightarrow> JFail
     | JStuck \<Rightarrow> JStuck)"
proof -
  have "json_chars [] (concat (map escape_char k) @ CHR 0x22 # '': '' @ s) = JOk k ('': '' @ s)"
    using json_chars_text[of "[]" k "'': '' @ s"] by simp
  then show ?thesis by (simp add: json_string_def py_startswith_def skip_ws_self json_space_def)
qed

lemma skip_ws_text:
  assumes "json_ok v"
  shows "skip_ws (new_line m @ json_text n v @ t) = json_text n v @ t" "skip_ws (CHR '' '' # json_text n v @ t) = json_text n v @ t"
    "\<not> py_startswith (json_text n v @ t) '']''"
proof -
  obtain c cs where c: "json_text n v = c # cs" "\<not> json_space c" "c \<noteq> CHR '']''" by (rule json_text_first[OF assms, of n])
  show "skip_ws (new_line m @ json_text n v @ t) = json_text n v @ t" using c by (intro skip_ws_new_line) simp_all
  show "skip_ws (CHR '' '' # json_text n v @ t) = json_text n v @ t" using c by (simp add: skip_ws_def json_space_def)
  show "\<not> py_startswith (json_text n v @ t) '']''" using c by (simp add: py_startswith_def)
qed

lemma skip_ws_items:
  assumes "json_ok_list xs" and "xs \<noteq> []"
  shows "skip_ws (new_line m @ json_text_items n xs @ t) = json_text_items n xs @ t"
    "\<not> py_startswith (json_text_items n xs @ t) '']''"
  using assms skip_ws_text[of "hd xs"] by (cases xs; simp del: json_text.simps)+

lemma skip_ws_members:
  assumes "ms \<noteq> []"
  shows "skip_ws (new_line m @ json_text_members n ms @ t) = json_text_members n ms @ t"
    "\<not> py_startswith (json_text_members n ms @ t) ''}''"
proof -
  obtain cs where c: "json_text_members n ms @ t = CHR 0x22 # cs"
    using assms by (cases ms) (auto simp: json_string_def)
  show "skip_ws (new_line m @ json_text_members n ms @ t) = json_text_members n ms @ t"
    by (rule skip_ws_new_line) (simp_all add: c json_space_def)
  show "\<not> py_startswith (json_text_members n ms @ t) ''}''" by (simp add: c py_startswith_def)
qed


lemma json_read_back:
  "json_ok v \<Longrightarrow> stops t \<Longrightarrow> 2 * length (json_text n v @ t) + 1 \<le> f \<Longrightarrow> json_value f (json_text n v @ t) = JOk v t"
  "json_ok_list xs \<Longrightarrow> xs \<noteq> [] \<Longrightarrow> 2 * length (json_text_items n xs @ t) + 2 \<le> f \<Longrightarrow>
     json_items f acc (json_text_items n xs @ t) = JOk (PList (acc @ xs)) t"
  "json_ok_members ms \<Longrightarrow> ms \<noteq> [] \<Longrightarrow> distinct (map fst (d @ ms)) \<Longrightarrow>
     2 * length (json_text_members n ms @ t) + 2 \<le> f \<Longrightarrow>
     json_members f d (json_text_members n ms @ t) = JOk (PDict (d @ ms)) t"
proof (induction n v and n xs and n ms arbitrary: f t and f t acc and f t d
    rule: json_text_json_text_items_json_text_members.induct)
  case (1 n)
  then show ?case using json_value_constant[of "''null''" PNone "f - 1" t] by (cases f) simp_all
next
  case (2 n b)
  then show ?case
    using json_value_constant[of "''true''" "PBool True" "f - 1" t] json_value_constant[of "''false''" "PBool False" "f - 1" t]
    by (cases f; cases b) simp_all
next
  case (3 n i)
  then show ?case using json_value_int[of t "f - 1" i] by (cases f) simp_all
next
  case (5 n s)
  then show ?case using json_value_string[of "f - 1" s t] by (cases f) simp_all
next
  case (6 n xs)
  show ?case
  proof (cases "xs = []")
    case True
    then show ?thesis using 6(4) by (cases f) (simp_all add: skip_ws_self json_space_def py_startswith_def)
  next
    case False
    obtain g where f: "f = Suc g" using 6(4) by (cases f) auto
    have ok: "json_ok_list xs" using 6(2) by simp
    have "json_items g [] (json_text_items n xs @ t) = JOk (PList ([] @ xs)) t"
      by (rule 6(1)) (use False ok 6(4) f in \<open>simp_all add: new_line_def\<close>)
    then show ?thesis
      using False skip_ws_items[OF ok False] by (simp add: f Let_def)
  qed
next
  case (7 n d)
  show ?case
  proof (cases "d = []")
    case True
    then show ?thesis using 7(4) by (cases f) (simp_all add: skip_ws_self json_space_def py_startswith_def)
  next
    case False
    obtain g where f: "f = Suc g" using 7(4) by (cases f) auto
    have "json_members g [] (json_text_members n d @ t) = JOk (PDict ([] @ d)) t"
      by (rule 7(1)) (use False 7(2,4) f in \<open>simp_all add: new_line_def\<close>)
    then show ?thesis
      using False skip_ws_members[OF False] by (simp add: f Let_def)
  qed
next
  case (9 n x xs)
  obtain g where f: "f = Suc g" using 9(5) by (cases f) auto
  show ?case
  proof (cases "xs = []")
    case True
    have "json_value g (json_text (n + 1) x @ new_line n @ CHR '']'' # t) = JOk x (new_line n @ CHR '']'' # t)"
      by (rule 9(1)) (use 9(3,5) f True stops_sep in simp_all)
    from json_items_last[OF this] show ?thesis using True f by simp
  next
    case False
    have ok: "json_ok_list xs" using 9(3) by simp
    define r where "r = new_line (n + 1) @ json_text_items n xs @ t"
    have "json_value g (json_text (n + 1) x @ CHR '','' # r) = JOk x (CHR '','' # r)"
      by (rule 9(1)) (use 9(3,5) f False stops_sep in \<open>simp_all add: r_def\<close>)
    moreover have "json_items g (acc @ [x]) (json_text_items n xs @ t) = JOk (PList ((acc @ [x]) @ xs)) t"
      by (rule 9(2)) (use 9(5) f False ok in simp_all)
    ultimately show ?thesis
      using json_items_more[of g "json_text (n + 1) x @ CHR '','' # r" x r acc] skip_ws_items[OF ok False] False f
      by (simp add: r_def)
  qed
next
  case (11 n k v ms)
  obtain g where f: "f = Suc g" using 11(6) by (cases f) auto
  have fresh: "dict_put d k v = d @ [(k, v)]" using 11(5) by (intro dict_put_new) auto
  have v: "json_ok v" using 11(3) by simp
  show ?case
  proof (cases "ms = []")
    case True
    have "json_value g (json_text (n + 1) v @ new_line n @ CHR ''}'' # t) = JOk v (new_line n @ CHR ''}'' # t)"
      by (rule 11(1)) (use 11(6) v f True stops_sep in simp_all)
    then show ?thesis
      using True f fresh json_member_key[of g d k "json_text (n + 1) v @ new_line n @ CHR ''}'' # t"] skip_ws_text(2)[OF v]
      by (simp add: skip_ws_new_line json_space_def)
  next
    case False
    define r where "r = new_line (n + 1) @ json_text_members n ms @ t"
    have "json_value g (json_text (n + 1) v @ CHR '','' # r) = JOk v (CHR '','' # r)"
      by (rule 11(1)) (use 11(6) v f False stops_sep in \<open>simp_all add: r_def\<close>)
    moreover have "json_members g (d @ [(k, v)]) (json_text_members n ms @ t) = JOk (PDict ((d @ [(k, v)]) @ ms)) t"
      by (rule 11(2)) (use 11(3,5,6) f False in simp_all)
    ultimately show ?thesis
      using False f fresh json_member_key[of g d k "json_text (n + 1) v @ CHR '','' # r"] skip_ws_text(2)[OF v]
        skip_ws_members[OF False]
      by (simp add: r_def skip_ws_self json_space_def)
  qed
qed simp_all

lemma json_text_round_trip:
  assumes "json_ok v"
  shows "json_loads (json_text 0 v @ [CHR 0x0A]) = Some v"
proof -
  obtain c cs where c: "json_text 0 v = c # cs" "\<not> json_space c" by (rule json_text_first[OF assms, of 0])
  have "skip_ws (json_text 0 v @ [CHR 0x0A]) = json_text 0 v @ [CHR 0x0A]" using c by (simp add: skip_ws_self)
  moreover have "json_value (2 * length (json_text 0 v @ [CHR 0x0A]) + 2) (json_text 0 v @ [CHR 0x0A]) = JOk v [CHR 0x0A]"
    by (rule json_read_back(1)[OF assms]) (simp_all add: stops_def)
  ultimately show ?thesis by (simp add: json_loads_def skip_ws_def json_space_def)
qed



section \<open>Sorted keys\<close>

lemma sort_keys_list_map: "sort_keys_list xs = map sort_keys xs"
  by (induction xs) simp_all

lemma sort_keys_members_map: "sort_keys_members d = map (\<lambda>(k, v). (k, sort_keys v)) d"
proof (induction d)
  case (Cons p d)
  then show ?case by (cases p) simp
qed simp

lemma json_ok_list_iff: "json_ok_list xs \<longleftrightarrow> (\<forall>x \<in> set xs. json_ok x)"
  by (induction xs) simp_all

lemma json_ok_members_iff: "json_ok_members d \<longleftrightarrow> (\<forall>v \<in> snd ` set d. json_ok v)"
proof (induction d)
  case (Cons p d)
  then show ?case by (cases p) simp
qed simp

lemma distinct_sort_key: "distinct (map fst (sort_key fst d)) \<longleftrightarrow> distinct (map fst d)"
  by (induction d) (simp_all add: distinct_insort_key)

lemma json_ok_sort_keys:
  "json_ok v \<Longrightarrow> json_ok (sort_keys v)"
  "json_ok_list xs \<Longrightarrow> json_ok_list (sort_keys_list xs)"
  "json_ok_members d \<Longrightarrow> json_ok_members (sort_keys_members d)"
proof (induction v and xs and d rule: sort_keys_sort_keys_list_sort_keys_members.induct)
  case (2 d)
  have "map fst (sort_keys_members d) = map fst d" by (simp add: sort_keys_members_map case_prod_unfold)
  then have "distinct (map fst (sort_key fst (sort_keys_members d)))" using 2(2) by (simp add: distinct_sort_key)
  moreover have "json_ok_members (sort_key fst (sort_keys_members d))"
    using 2 by (simp add: json_ok_members_iff)
  ultimately show ?case by simp
qed simp_all

text \<open>What \<open>dump_json\<close> writes, \<open>load_json\<close> reads, up to the order of the members of objects.\<close>

lemma json_dumps_round_trip: "json_ok v \<Longrightarrow> json_loads (json_dumps v @ [CHR 0x0A]) = Some (sort_keys v)"
  unfolding json_dumps_def by (rule json_text_round_trip, rule json_ok_sort_keys(1))

lemma insort_key_map: "insort_key f (g x) (map g xs) = map g (insort_key (\<lambda>y. f (g y)) x xs)"
  by (induction xs) simp_all

lemma sort_key_map: "sort_key f (map g xs) = map g (sort_key (\<lambda>y. f (g y)) xs)"
  by (induction xs) (simp_all add: insort_key_map)

end
