(* ===== verification/App_Policy.thy ===== *)
theory App_Policy
  imports Routing_Rules Error_Classes
begin

text \<open>
  \<open>src/app_policy/models.py\<close> and \<open>src/app_policy/store.py\<close>: per-application routing. A policy has a mode, a
  default action and rules that match processes or users. Whether a regular expression compiles
  (\<open>re.compile\<close>) is the parameter \<open>rc\<close>; error texts are left out.
\<close>

section \<open>Models\<close>

definition APP_POLICY_SCHEMA_VERSION :: int where "APP_POLICY_SCHEMA_VERSION = 1"

definition APP_POLICY_FIELDS :: "string list" where
  "APP_POLICY_FIELDS = [''schema_version'', ''enabled'', ''mode'', ''default_action'', ''rules'']"

definition APP_POLICY_RULE_FIELDS :: "string list" where
  "APP_POLICY_RULE_FIELDS = [''id'', ''action'', ''match'', ''enabled'']"

definition APP_POLICY_MATCH_FIELDS :: "string list" where
  "APP_POLICY_MATCH_FIELDS = [''process_name'', ''process_path'', ''process_path_regex'', ''user'', ''user_id'']"

definition UNAVAILABLE_ACTIONS :: "string list" where "UNAVAILABLE_ACTIONS = [''auto'']"

datatype app_policy_mode = WHITELIST | BLACKLIST

fun app_mode_value :: "app_policy_mode \<Rightarrow> string" where
  "app_mode_value WHITELIST = ''whitelist''"
| "app_mode_value BLACKLIST = ''blacklist''"

definition app_mode_of :: "string \<Rightarrow> app_policy_mode res" where
  "app_mode_of s =
     (if s = ''whitelist'' then Inr WHITELIST
      else if s = ''blacklist'' then Inr BLACKLIST
      else Inl PersistentValidationError)"

text \<open>An action is a member of the enumeration or the raw text of a group or chain target.\<close>

datatype app_action = ActCurrent | ActDirect | ActBlock | ActTarget string

fun app_action_value :: "app_action \<Rightarrow> string" where
  "app_action_value ActCurrent = ''current''"
| "app_action_value ActDirect = ''direct''"
| "app_action_value ActBlock = ''block''"
| "app_action_value (ActTarget s) = s"

datatype match_confidence = HIGH | MEDIUM | LOW

definition validate_app_action :: "string \<Rightarrow> app_action res" where
  "validate_app_action v =
     (let action = py_strip v in
      if action \<in> set UNAVAILABLE_ACTIONS then Inl PersistentValidationError
      else if group_target action \<noteq> None then Inr (ActTarget action)
      else res_bind (chain_target action) (\<lambda>t.
        if t \<noteq> None then Inr (ActTarget action)
        else if action = ''current'' then Inr ActCurrent
        else if action = ''direct'' then Inr ActDirect
        else if action = ''block'' then Inr ActBlock
        else Inl PersistentValidationError))"

datatype match_values = MStrings "string list" | MInts "int list"

type_synonym app_match = "(string \<times> match_values) list"

definition string_entry :: "pyval \<Rightarrow> string res" where
  "string_entry v = (case v of
       PStr s \<Rightarrow> if py_strip s = [] then Inl PersistentValidationError else Inr (py_strip s)
     | _ \<Rightarrow> Inl PersistentValidationError)"

definition string_entries :: "pyval \<Rightarrow> string list res" where
  "string_entries v = (case v of
       PList (x # xs) \<Rightarrow> res_map string_entry (x # xs)
     | _ \<Rightarrow> Inl PersistentValidationError)"

definition user_id_entry :: "pyval \<Rightarrow> int res" where
  "user_id_entry v = res_bind (strict_int v) (\<lambda>n. if n < 0 then Inl PersistentValidationError else Inr n)"

definition user_id_list :: "pyval \<Rightarrow> int list res" where
  "user_id_list v = (case v of
       PList (x # xs) \<Rightarrow> res_map user_id_entry (x # xs)
     | _ \<Rightarrow> Inl PersistentValidationError)"

definition validate_regex_list :: "(string \<Rightarrow> bool) \<Rightarrow> pyval \<Rightarrow> string list res" where
  "validate_regex_list rc v =
     res_bind (string_entries v) (\<lambda>entries.
       if list_all rc entries then Inr entries else Inl PersistentValidationError)"

definition validate_match_entry :: "(string \<Rightarrow> bool) \<Rightarrow> string \<times> pyval \<Rightarrow> (string \<times> match_values) res" where
  "validate_match_entry rc = (\<lambda>(k, v).
     if k = ''user_id'' then res_bind (user_id_list v) (\<lambda>ns. Inr (k, MInts ns))
     else if k = ''process_path_regex'' then res_bind (validate_regex_list rc v) (\<lambda>ss. Inr (k, MStrings ss))
     else res_bind (string_entries v) (\<lambda>ss. Inr (k, MStrings ss)))"

definition validate_app_match :: "(string \<Rightarrow> bool) \<Rightarrow> pyval \<Rightarrow> app_match res" where
  "validate_app_match rc v = (case v of
       PDict d \<Rightarrow>
         res_bind (reject_unknown_keys d APP_POLICY_MATCH_FIELDS) (\<lambda>_.
         res_bind (res_map (validate_match_entry rc) d) (\<lambda>validated.
           if validated = [] then Inl PersistentValidationError else Inr validated))
     | _ \<Rightarrow> Inl PersistentValidationError)"

definition app_confidence :: "app_match \<Rightarrow> match_confidence" where
  "app_confidence mt =
     (let ks = set (map fst mt) in
      if ''user_id'' \<in> ks \<or> ''process_path'' \<in> ks then HIGH
      else if ''process_path_regex'' \<in> ks \<or> ''user'' \<in> ks then MEDIUM
      else LOW)"

record app_rule =
  ar_id :: string
  ar_action :: app_action
  ar_match :: app_match
  ar_enabled :: bool

definition AppPolicyRule_init :: "(string \<Rightarrow> bool) \<Rightarrow> string \<Rightarrow> string \<Rightarrow> pyval \<Rightarrow> pyval \<Rightarrow> app_rule res" where
  "AppPolicyRule_init rc i action mt enabled =
     (let rid = py_strip i in
      if rid = [] then Inl PersistentValidationError
      else res_bind (validate_app_action action) (\<lambda>a.
        res_bind (validate_app_match rc mt) (\<lambda>m.
        res_bind (strict_bool enabled) (\<lambda>en.
          Inr \<lparr>ar_id = rid, ar_action = a, ar_match = m, ar_enabled = en\<rparr>))))"

fun match_values_value :: "match_values \<Rightarrow> pyval" where
  "match_values_value (MStrings ss) = PList (map PStr ss)"
| "match_values_value (MInts ns) = PList (map PInt ns)"

definition match_value :: "app_match \<Rightarrow> pyval" where
  "match_value mt = PDict (map (\<lambda>(k, v). (k, match_values_value v)) mt)"

definition AppPolicyRule_to_dict :: "app_rule \<Rightarrow> dict" where
  "AppPolicyRule_to_dict r =
     [(''id'', PStr (ar_id r)),
      (''action'', PStr (app_action_value (ar_action r))),
      (''match'', match_value (ar_match r)),
      (''enabled'', PBool (ar_enabled r))]"

definition AppPolicyRule_from_dict :: "(pyval \<Rightarrow> string) \<Rightarrow> (string \<Rightarrow> bool) \<Rightarrow> pyval \<Rightarrow> app_rule res" where
  "AppPolicyRule_from_dict rp rc v = (case v of
       PDict data \<Rightarrow>
         res_bind (reject_unknown_keys data APP_POLICY_RULE_FIELDS) (\<lambda>_.
         res_bind (required_field data ''id'') (\<lambda>i.
         res_bind (required_field data ''action'') (\<lambda>a.
         res_bind (required_field data ''match'') (\<lambda>mt.
         res_bind (strict_bool (dict_get data ''enabled'' (PBool True))) (\<lambda>en.
           AppPolicyRule_init rc (py_str rp i) (py_str rp a) mt (PBool en))))))
     | _ \<Rightarrow> Inl PersistentValidationError)"

record app_policy =
  ap_enabled :: bool
  ap_mode :: app_policy_mode
  ap_default_action :: app_action
  ap_rules :: "app_rule list"
  ap_schema_version :: int

definition AppPolicy_init :: "pyval \<Rightarrow> bool \<Rightarrow> string \<Rightarrow> string \<Rightarrow> app_rule list \<Rightarrow> app_policy res" where
  "AppPolicy_init version enabled mode default_action rules =
     res_bind (strict_int version) (\<lambda>v.
     if v \<noteq> APP_POLICY_SCHEMA_VERSION then Inl PersistentValidationError
     else res_bind (app_mode_of mode) (\<lambda>m.
     res_bind (validate_app_action default_action) (\<lambda>a.
       Inr \<lparr>ap_enabled = enabled, ap_mode = m, ap_default_action = a, ap_rules = rules, ap_schema_version = v\<rparr>)))"

definition default_app_policy :: app_policy where
  "default_app_policy =
     \<lparr>ap_enabled = False, ap_mode = BLACKLIST, ap_default_action = ActCurrent, ap_rules = [],
      ap_schema_version = APP_POLICY_SCHEMA_VERSION\<rparr>"

definition disabled_due_to_error :: app_policy where
  "disabled_due_to_error =
     \<lparr>ap_enabled = False, ap_mode = BLACKLIST, ap_default_action = ActBlock, ap_rules = [],
      ap_schema_version = APP_POLICY_SCHEMA_VERSION\<rparr>"

definition AppPolicy_to_dict :: "app_policy \<Rightarrow> dict" where
  "AppPolicy_to_dict p =
     [(''schema_version'', PInt (ap_schema_version p)),
      (''enabled'', PBool (ap_enabled p)),
      (''mode'', PStr (app_mode_value (ap_mode p))),
      (''default_action'', PStr (app_action_value (ap_default_action p))),
      (''rules'', PList (map (PDict \<circ> AppPolicyRule_to_dict) (ap_rules p)))]"

definition AppPolicy_from_dict :: "(pyval \<Rightarrow> string) \<Rightarrow> (string \<Rightarrow> bool) \<Rightarrow> dict \<Rightarrow> app_policy res" where
  "AppPolicy_from_dict rp rc data =
     res_bind (reject_unknown_keys data APP_POLICY_FIELDS) (\<lambda>_.
     res_bind (case dict_get data ''rules'' (PList []) of
         PList xs \<Rightarrow> Inr xs | _ \<Rightarrow> Inl PersistentValidationError) (\<lambda>raw.
     res_bind (strict_bool (dict_get data ''enabled'' (PBool False))) (\<lambda>en.
     res_bind (res_map (AppPolicyRule_from_dict rp rc) raw) (\<lambda>rules.
       AppPolicy_init (dict_get data ''schema_version'' (PInt APP_POLICY_SCHEMA_VERSION)) en
         (py_str rp (dict_get data ''mode'' (PStr ''blacklist'')))
         (py_str rp (dict_get data ''default_action'' (PStr ''current''))) rules))))"


section \<open>Store\<close>

record app_policy_load_result =
  lr_policy :: app_policy
  lr_valid :: bool

definition AppPolicyStore_load :: "(pyval \<Rightarrow> string) \<Rightarrow> (string \<Rightarrow> bool) \<Rightarrow> json_file \<Rightarrow> app_policy res" where
  "AppPolicyStore_load rp rc f =
     res_bind (load_json f (PDict [])) (\<lambda>v.
     res_bind (require_mapping v) (\<lambda>data.
       if data = [] then Inr default_app_policy else AppPolicy_from_dict rp rc data))"

definition AppPolicyStore_load_or_disabled ::
  "(pyval \<Rightarrow> string) \<Rightarrow> (string \<Rightarrow> bool) \<Rightarrow> json_file \<Rightarrow> app_policy_load_result res" where
  "AppPolicyStore_load_or_disabled rp rc f = (case AppPolicyStore_load rp rc f of
       Inr p \<Rightarrow> Inr \<lparr>lr_policy = p, lr_valid = True\<rparr>
     | Inl e \<Rightarrow>
         if e \<in> set [PersistentStoreError, PersistentValidationError]
         then Inr \<lparr>lr_policy = disabled_due_to_error, lr_valid = False\<rparr> else Inl e)"

definition AppPolicyStore_save :: "app_policy \<Rightarrow> json_file" where
  "AppPolicyStore_save p = dump_json (PDict (AppPolicy_to_dict p))"


section \<open>Well-formed policies\<close>

definition app_action_valid :: "app_action \<Rightarrow> bool" where
  "app_action_valid a = (case a of
       ActTarget s \<Rightarrow> py_strip s = s \<and> s \<notin> set UNAVAILABLE_ACTIONS \<and>
         (group_target s \<noteq> None \<or> (case chain_target s of Inr (Some c) \<Rightarrow> True | _ \<Rightarrow> False))
     | _ \<Rightarrow> True)"

definition match_entry_valid :: "(string \<Rightarrow> bool) \<Rightarrow> string \<times> match_values \<Rightarrow> bool" where
  "match_entry_valid rc = (\<lambda>(k, v). k \<in> set APP_POLICY_MATCH_FIELDS \<and>
     (case v of
        MInts ns \<Rightarrow> k = ''user_id'' \<and> ns \<noteq> [] \<and> list_all (\<lambda>n. 0 \<le> n) ns
      | MStrings ss \<Rightarrow> k \<noteq> ''user_id'' \<and> ss \<noteq> [] \<and> list_all stripped ss \<and>
          (k = ''process_path_regex'' \<longrightarrow> list_all rc ss)))"

definition app_rule_valid :: "(string \<Rightarrow> bool) \<Rightarrow> app_rule \<Rightarrow> bool" where
  "app_rule_valid rc r \<longleftrightarrow> stripped (ar_id r) \<and> app_action_valid (ar_action r) \<and> ar_match r \<noteq> [] \<and>
     list_all (match_entry_valid rc) (ar_match r)"

definition app_policy_valid :: "(string \<Rightarrow> bool) \<Rightarrow> app_policy \<Rightarrow> bool" where
  "app_policy_valid rc p \<longleftrightarrow> app_action_valid (ap_default_action p) \<and> list_all (app_rule_valid rc) (ap_rules p) \<and>
     ap_schema_version p = APP_POLICY_SCHEMA_VERSION"


lemma enum_not_targets:
  "group_target ''current'' = None" "group_target ''direct'' = None" "group_target ''block'' = None"
  "chain_target ''current'' = Inr None" "chain_target ''direct'' = Inr None" "chain_target ''block'' = Inr None"
  "py_strip ''current'' = ''current''" "py_strip ''direct'' = ''direct''" "py_strip ''block'' = ''block''"
  by code_simp+

lemma validate_app_action_valid: "validate_app_action v = Inr a \<Longrightarrow> app_action_valid a"
  by (auto simp: validate_app_action_def app_action_valid_def Let_def enum_not_targets split: if_splits option.splits)

lemma validate_app_action_id:
  assumes "app_action_valid a"
  shows "validate_app_action (app_action_value a) = Inr a"
proof (cases a)
  case (ActTarget s)
  then have s: "py_strip s = s" "s \<notin> set UNAVAILABLE_ACTIONS"
    "group_target s \<noteq> None \<or> (\<exists>c. chain_target s = Inr (Some c))"
    using assms by (auto simp: app_action_valid_def split: sum.splits option.splits)
  then show ?thesis using ActTarget by (auto simp: validate_app_action_def)
qed (simp_all add: validate_app_action_def UNAVAILABLE_ACTIONS_def enum_not_targets)

lemma string_entry_stripped: "string_entry v = Inr s \<Longrightarrow> stripped s"
  by (auto simp: string_entry_def stripped_def split: pyval.splits if_splits)

lemma string_entries_ok: "string_entries v = Inr ss \<Longrightarrow> ss \<noteq> [] \<and> list_all stripped ss"
proof -
  assume "string_entries v = Inr ss"
  then obtain x xs where r: "res_map string_entry (x # xs) = Inr ss"
    by (auto simp: string_entries_def split: pyval.splits list.splits simp del: res_map.simps)
  have "stripped s" if "s \<in> set ss" for s
    using res_map_set[OF r that] string_entry_stripped by blast
  then show ?thesis using res_map_length[OF r] by (auto simp: list_all_iff)
qed

lemma string_entries_id: "ss \<noteq> [] \<Longrightarrow> list_all stripped ss \<Longrightarrow> string_entries (PList (map PStr ss)) = Inr ss"
proof -
  assume a: "ss \<noteq> []" "list_all stripped ss"
  have "res_map string_entry (map PStr ss) = Inr ss"
    by (rule res_map_id) (use a(2) in \<open>simp add: string_entry_def stripped_def list_all_iff\<close>)
  then show ?thesis using a(1) by (cases ss) (simp_all add: string_entries_def)
qed

lemma user_id_list_ok: "user_id_list v = Inr ns \<Longrightarrow> ns \<noteq> [] \<and> list_all (\<lambda>n. 0 \<le> n) ns"
proof -
  assume "user_id_list v = Inr ns"
  then obtain x xs where r: "res_map user_id_entry (x # xs) = Inr ns"
    by (auto simp: user_id_list_def split: pyval.splits list.splits simp del: res_map.simps)
  have "0 \<le> n" if "n \<in> set ns" for n
    using res_map_set[OF r that] by (auto simp: user_id_entry_def split: if_splits)
  then show ?thesis using res_map_length[OF r] by (auto simp: list_all_iff)
qed

lemma user_id_list_id: "ns \<noteq> [] \<Longrightarrow> list_all (\<lambda>n. 0 \<le> n) ns \<Longrightarrow> user_id_list (PList (map PInt ns)) = Inr ns"
proof -
  assume a: "ns \<noteq> []" "list_all (\<lambda>n. 0 \<le> n) ns"
  have "res_map user_id_entry (map PInt ns) = Inr ns"
    by (rule res_map_id) (use a(2) in \<open>auto simp: user_id_entry_def list_all_iff\<close>)
  then show ?thesis using a(1) by (cases ns) (simp_all add: user_id_list_def)
qed

lemma validate_match_entry_valid:
  assumes "validate_match_entry rc (k, v) = Inr e" and "k \<in> set APP_POLICY_MATCH_FIELDS"
  shows "match_entry_valid rc e"
proof -
  consider "k = ''user_id''" | "k = ''process_path_regex''" | "k \<noteq> ''user_id''" "k \<noteq> ''process_path_regex''" by blast
  then show ?thesis
  proof cases
    case 1
    then show ?thesis using assms user_id_list_ok by (auto simp: validate_match_entry_def match_entry_valid_def)
  next
    case 2
    then show ?thesis
      using assms string_entries_ok
      by (auto simp: validate_match_entry_def match_entry_valid_def validate_regex_list_def split: if_splits)
  next
    case 3
    then show ?thesis using assms string_entries_ok by (auto simp: validate_match_entry_def match_entry_valid_def)
  qed
qed

lemma validate_match_entry_id:
  assumes "match_entry_valid rc (k, v)"
  shows "validate_match_entry rc (k, match_values_value v) = Inr (k, v)"
proof (cases v)
  case (MInts ns)
  then show ?thesis using assms by (simp add: validate_match_entry_def match_entry_valid_def user_id_list_id)
next
  case (MStrings ss)
  then show ?thesis
    using assms by (simp add: validate_match_entry_def match_entry_valid_def validate_regex_list_def string_entries_id)
qed


lemma validate_app_match_valid:
  assumes "validate_app_match rc v = Inr mt"
  shows "mt \<noteq> [] \<and> list_all (match_entry_valid rc) mt"
proof -
  obtain d where d: "\<forall>k \<in> set (map fst d). k \<in> set APP_POLICY_MATCH_FIELDS"
    "res_map (validate_match_entry rc) d = Inr mt" "mt \<noteq> []"
    using assms by (auto simp: validate_app_match_def split: pyval.splits if_splits)
  have "match_entry_valid rc e" if e: "e \<in> set mt" for e
  proof -
    obtain p where p: "p \<in> set d" "validate_match_entry rc p = Inr e" using res_map_set[OF d(2) e] by blast
    then show ?thesis using d(1) validate_match_entry_valid[of rc "fst p" "snd p" e] by force
  qed
  then show ?thesis using d(3) by (simp add: list_all_iff)
qed

lemma validate_app_match_id:
  assumes "mt \<noteq> []" and "list_all (match_entry_valid rc) mt"
  shows "validate_app_match rc (match_value mt) = Inr mt"
proof -
  have "res_map (validate_match_entry rc) (map (\<lambda>(k, v). (k, match_values_value v)) mt) = Inr mt"
  proof (rule res_map_id)
    fix e assume "e \<in> set mt"
    then have "match_entry_valid rc e" using assms(2) by (simp add: list_all_iff)
    then show "validate_match_entry rc (case e of (k, v) \<Rightarrow> (k, match_values_value v)) = Inr e"
      by (cases e) (simp add: validate_match_entry_id)
  qed
  moreover have "\<forall>k \<in> fst ` set mt. k \<in> set APP_POLICY_MATCH_FIELDS"
    using assms(2) by (auto simp: list_all_iff match_entry_valid_def)
  ultimately show ?thesis
    using assms(1) by (auto simp: validate_app_match_def match_value_def)
qed

lemma AppPolicyRule_init_valid: "AppPolicyRule_init rc i a mt en = Inr r \<Longrightarrow> app_rule_valid rc r"
  by (auto simp: AppPolicyRule_init_def app_rule_valid_def stripped_def Let_def split: if_splits
      dest!: validate_app_action_valid validate_app_match_valid)

lemma AppPolicyRule_from_dict_valid: "AppPolicyRule_from_dict rp rc v = Inr r \<Longrightarrow> app_rule_valid rc r"
  by (auto simp: AppPolicyRule_from_dict_def dest: AppPolicyRule_init_valid split: pyval.splits)

lemma AppPolicyRule_round_trip:
  assumes "app_rule_valid rc r"
  shows "AppPolicyRule_from_dict rp rc (PDict (AppPolicyRule_to_dict r)) = Inr r"
proof -
  have "reject_unknown_keys (AppPolicyRule_to_dict r) APP_POLICY_RULE_FIELDS = Inr ()"
    by (simp add: AppPolicyRule_to_dict_def APP_POLICY_RULE_FIELDS_def)
  moreover have "AppPolicyRule_init rc (ar_id r) (app_action_value (ar_action r)) (match_value (ar_match r)) (PBool (ar_enabled r)) = Inr r"
    using assms by (simp add: AppPolicyRule_init_def app_rule_valid_def stripped_def validate_app_action_id validate_app_match_id)
  ultimately show ?thesis
    by (simp add: AppPolicyRule_from_dict_def del: reject_unknown_keys_Inr)
      (simp add: AppPolicyRule_to_dict_def required_field_def dict_get_def)
qed

lemma app_mode_of_value [simp]: "app_mode_of (app_mode_value m) = Inr m"
  by (cases m) (simp_all add: app_mode_of_def)

lemma AppPolicy_from_dict_valid:
  assumes "AppPolicy_from_dict rp rc d = Inr p"
  shows "app_policy_valid rc p"
proof -
  obtain raw v en m a where "res_map (AppPolicyRule_from_dict rp rc) raw = Inr (ap_rules p)"
    "validate_app_action a = Inr (ap_default_action p)" "ap_schema_version p = APP_POLICY_SCHEMA_VERSION"
    using assms by (auto simp: AppPolicy_from_dict_def AppPolicy_init_def split: if_splits)
  then show ?thesis
    using res_map_all[of "AppPolicyRule_from_dict rp rc" raw "ap_rules p" "app_rule_valid rc"]
      AppPolicyRule_from_dict_valid validate_app_action_valid
    by (simp add: app_policy_valid_def)
qed

lemma AppPolicy_round_trip:
  assumes "app_policy_valid rc p"
  shows "AppPolicy_from_dict rp rc (AppPolicy_to_dict p) = Inr p"
proof -
  have "res_map (AppPolicyRule_from_dict rp rc) (map (PDict \<circ> AppPolicyRule_to_dict) (ap_rules p)) = Inr (ap_rules p)"
    using assms by (intro res_map_id) (auto simp: app_policy_valid_def list_all_iff AppPolicyRule_round_trip)
  moreover have "reject_unknown_keys (AppPolicy_to_dict p) APP_POLICY_FIELDS = Inr ()"
    by (simp add: AppPolicy_to_dict_def APP_POLICY_FIELDS_def)
  ultimately show ?thesis
    using assms
    by (simp add: AppPolicy_from_dict_def del: reject_unknown_keys_Inr)
      (simp add: AppPolicy_to_dict_def dict_get_def AppPolicy_init_def app_policy_valid_def validate_app_action_id)
qed



section \<open>Properties\<close>

lemma raises_required_field [raises_rules]: "PersistentValidationError \<in> E \<Longrightarrow> raises_only E (required_field d k)"
  by (auto simp: raises_only_def required_field_def split: option.splits)

lemma raises_chain_target [raises_rules]: "PersistentValidationError \<in> E \<Longrightarrow> raises_only E (chain_target a)"
  by (auto simp: raises_only_def chain_target_def validate_chain_id_def Let_def res_bind_def split: if_splits sum.splits)

lemma raises_app_action [raises_rules]: "PersistentValidationError \<in> E \<Longrightarrow> raises_only E (validate_app_action v)"
  unfolding validate_app_action_def Let_def by (intro raises_rules)

lemma raises_string_entries [raises_rules]: "PersistentValidationError \<in> E \<Longrightarrow> raises_only E (string_entries v)"
proof -
  assume e: "PersistentValidationError \<in> E"
  have "raises_only E (string_entry x)" for x
    using e by (auto simp: raises_only_def string_entry_def split: pyval.splits if_splits)
  then have "raises_only E (res_map string_entry xs)" for xs by (intro raises_rules)
  then show ?thesis using e by (simp add: string_entries_def split: pyval.split list.split del: res_map.simps)
qed

lemma raises_user_ids [raises_rules]: "PersistentValidationError \<in> E \<Longrightarrow> raises_only E (user_id_list v)"
proof -
  assume e: "PersistentValidationError \<in> E"
  then have "raises_only E (res_map user_id_entry xs)" for xs
    unfolding user_id_entry_def by (intro raises_rules)
  then show ?thesis using e by (simp add: user_id_list_def split: pyval.split list.split del: res_map.simps)
qed

lemma raises_app_match [raises_rules]: "PersistentValidationError \<in> E \<Longrightarrow> raises_only E (validate_app_match rc v)"
proof -
  assume e: "PersistentValidationError \<in> E"
  have "raises_only E (validate_match_entry rc p)" for p
    using e unfolding validate_match_entry_def validate_regex_list_def case_prod_unfold by (intro raises_rules)
  then have "raises_only E (res_bind (reject_unknown_keys d APP_POLICY_MATCH_FIELDS) (\<lambda>_.
      res_bind (res_map (validate_match_entry rc) d) (\<lambda>validated.
        if validated = [] then Inl PersistentValidationError else Inr validated)))" for d
    using e by (intro raises_rules)
  then show ?thesis using e by (simp add: validate_app_match_def split: pyval.split)
qed

lemma raises_app_rule [raises_rules]: "PersistentValidationError \<in> E \<Longrightarrow> raises_only E (AppPolicyRule_from_dict rp rc v)"
proof (cases v)
  case (PDict data)
  assume e: "PersistentValidationError \<in> E"
  show ?thesis
    unfolding PDict AppPolicyRule_from_dict_def AppPolicyRule_init_def Let_def pyval.case by (intro raises_rules e)
qed (simp_all add: AppPolicyRule_from_dict_def)

lemma raises_app_policy [raises_rules]:
  assumes e: "PersistentValidationError \<in> E"
  shows "raises_only E (AppPolicy_from_dict rp rc d)"
proof -
  have "raises_only E (case x of PList xs \<Rightarrow> Inr xs | _ \<Rightarrow> Inl PersistentValidationError)" for x
    using e by (simp split: pyval.split)
  moreover have "raises_only E (app_mode_of m)" for m using e by (simp add: app_mode_of_def)
  ultimately show ?thesis
    unfolding AppPolicy_from_dict_def AppPolicy_init_def by (intro raises_rules e)
qed

lemma raises_app_load: "raises_only {PersistentStoreError, PersistentValidationError} (AppPolicyStore_load rp rc f)"
  unfolding AppPolicyStore_load_def by (intro raises_rules) simp_all

definition sample_app_policy :: app_policy where
  "sample_app_policy =
     \<lparr>ap_enabled = True, ap_mode = WHITELIST, ap_default_action = ActBlock,
      ap_rules = [\<lparr>ar_id = ''browser'', ar_action = ActTarget ''group:home'',
        ar_match = [(''process_name'', MStrings [''firefox'']), (''user_id'', MInts [1000])], ar_enabled = True\<rparr>],
      ap_schema_version = 1\<rparr>"



end
