(* ===== verification/Rule_Import.thy ===== *)
theory Rule_Import
  imports Rule_Store Json_Codec App_Policy
begin

text \<open>
  \<open>src/rules/rule_parser.py\<close> and \<open>src/rules/importer.py\<close>: reading rules from texts. The parser knows the native
  JSON format, sing-box rule sets and Clash rule providers; the importer builds a whole group from a native
  group, sing-box route rules, Clash rule lines or a plain list of domains and networks, and keeps a record of
  every entry it could not use.

  The parsers take their text as a Python value (\<open>PStr\<close>) or an already decoded object, as the code does. Running
  \<open>sing-box rule-set decompile\<close>, reading the file, its \<open>stem\<close> and the iteration order of the set of match fields
  are parameters. Messages of exceptions are left out; reasons of rejected entries are kept.
\<close>

section \<open>Handlers\<close>

text \<open>\<open>except (classes) as exc: raise other from exc\<close>.\<close>

definition res_except :: "exn list \<Rightarrow> exn \<Rightarrow> 'a res \<Rightarrow> 'a res" where
  "res_except caught e r = (case r of Inl x \<Rightarrow> Inl (if x \<in> set caught then e else x) | Inr y \<Rightarrow> Inr y)"

text \<open>The subclasses of \<open>ValueError\<close> the routing rules can meet, and the ones the two handlers name.\<close>

definition VALUE_ERRORS :: "exn list" where
  "VALUE_ERRORS = [ValueError, RuleParseError, RuleImportError]"

definition ENTRY_ERRORS :: "exn list" where
  "ENTRY_ERRORS = VALUE_ERRORS @ [TypeError, KeyError, PersistentValidationError]"

definition GROUP_ERRORS :: "exn list" where
  "GROUP_ERRORS = VALUE_ERRORS @ [KeyError, TypeError, PersistentStoreError, PersistentValidationError]"


section \<open>Native format\<close>

definition load_json_payload :: "pyval \<Rightarrow> pyval res" where
  "load_json_payload data = (case data of
       PDict d \<Rightarrow> Inr data
     | PList xs \<Rightarrow> Inr data
     | PStr s \<Rightarrow> (case json_loads s of None \<Rightarrow> Inl RuleParseError | Some v \<Rightarrow> Inr v)
     | _ \<Rightarrow> Inl TypeError)"

definition parse_watchdogvpn_json :: "(pyval \<Rightarrow> string) \<Rightarrow> pyval \<Rightarrow> rule list res" where
  "parse_watchdogvpn_json rp data =
     res_bind (load_json_payload data) (\<lambda>payload. case payload of
         PList items \<Rightarrow> res_except ENTRY_ERRORS RuleParseError (res_map (Rule_from_dict rp) items)
       | _ \<Rightarrow> Inl RuleParseError)"

definition export_watchdogvpn_json :: "rule list \<Rightarrow> string" where
  "export_watchdogvpn_json rules = json_dumps (PList (map (PDict \<circ> Rule_to_dict) rules)) @ [CHR 0x0A]"

definition build_rule :: "(pyval \<Rightarrow> string) \<Rightarrow> string \<Rightarrow> string \<Rightarrow> conditions \<Rightarrow> rule res" where
  "build_rule rp rule_id action conditions =
     res_except VALUE_ERRORS RuleParseError
       (Rule_init rp (PStr rule_id) (PStr action) (conditions_value conditions) True)"


section \<open>sing-box rule sets\<close>

definition SINGBOX_RULE_SET_FIELDS :: "(string \<times> string) list" where
  "SINGBOX_RULE_SET_FIELDS =
     [(''domain'', ''domain''), (''domain_suffix'', ''domain_suffix''), (''domain_keyword'', ''domain_keyword''),
      (''domain_regex'', ''domain_regex''), (''ip_cidr'', ''ip_cidr''), (''port'', ''port''),
      (''port_range'', ''port_range''), (''network'', ''network''), (''process_name'', ''process_name''),
      (''process_path'', ''process_path'')]"

definition as_string_list :: "(pyval \<Rightarrow> string) \<Rightarrow> pyval \<Rightarrow> string list" where
  "as_string_list rp v = (case v of PList items \<Rightarrow> map (py_str rp) items | _ \<Rightarrow> [py_str rp v])"

text \<open>\<open>conditions.setdefault(key, []).extend(values)\<close>.\<close>

definition conditions_extend :: "conditions \<Rightarrow> string \<Rightarrow> string list \<Rightarrow> conditions" where
  "conditions_extend cs k vs = dict_put cs k ((case map_of cs k of None \<Rightarrow> [] | Some old \<Rightarrow> old) @ vs)"

definition singbox_rule_entry_to_conditions :: "(pyval \<Rightarrow> string) \<Rightarrow> dict \<Rightarrow> conditions res" where
  "singbox_rule_entry_to_conditions rp entry =
     (if dict_get entry ''type'' PNone = PStr ''logical'' \<or> ''rules'' \<in> set (map fst entry) then Inl RuleParseError
      else
        let conditions = foldl (\<lambda>cs (f, k). case map_of entry f of
               None \<Rightarrow> cs
             | Some v \<Rightarrow> conditions_extend cs k (as_string_list rp v)) [] SINGBOX_RULE_SET_FIELDS;
            unknown = filter (\<lambda>k. k \<notin> set (map fst SINGBOX_RULE_SET_FIELDS) \<and> k \<noteq> ''invert'') (map fst entry)
        in if unknown \<noteq> [] then Inl RuleParseError
           else if conditions = [] then Inl RuleParseError
           else Inr conditions)"

fun singbox_rules :: "(pyval \<Rightarrow> string) \<Rightarrow> string \<Rightarrow> string \<Rightarrow> int \<Rightarrow> pyval list \<Rightarrow> rule list res" where
  "singbox_rules rp action id_prefix index [] = Inr []"
| "singbox_rules rp action id_prefix index (raw # rest) = (case raw of
       PDict entry \<Rightarrow>
         res_bind (singbox_rule_entry_to_conditions rp entry) (\<lambda>conditions.
         res_bind (build_rule rp (id_prefix @ ''-'' @ int_str index) action conditions) (\<lambda>r.
         res_bind (singbox_rules rp action id_prefix (index + 1) rest) (\<lambda>rs. Inr (r # rs))))
     | _ \<Rightarrow> Inl RuleParseError)"

definition parse_singbox_ruleset_json :: "(pyval \<Rightarrow> string) \<Rightarrow> pyval \<Rightarrow> string \<Rightarrow> string \<Rightarrow> rule list res" where
  "parse_singbox_ruleset_json rp data action id_prefix =
     res_bind (load_json_payload data) (\<lambda>payload. case payload of
         PDict d \<Rightarrow> (case map_of d ''rules'' of
             Some (PList raw_rules) \<Rightarrow>
               res_bind (singbox_rules rp action id_prefix 0 raw_rules) (\<lambda>rules.
                 if rules = [] then Inl RuleParseError else Inr rules)
           | _ \<Rightarrow> Inl RuleParseError)
       | _ \<Rightarrow> Inl RuleParseError)"

datatype decompile_run = BinaryMissing | DecompileFailed | Decompiled string

definition parse_singbox_ruleset_srs ::
  "(pyval \<Rightarrow> string) \<Rightarrow> bool \<Rightarrow> decompile_run \<Rightarrow> string \<Rightarrow> string \<Rightarrow> rule list res" where
  "parse_singbox_ruleset_srs rp file_exists run stem action =
     (if \<not> file_exists then Inl RuleParseError
      else case run of
          BinaryMissing \<Rightarrow> Inl RuleParseError
        | DecompileFailed \<Rightarrow> Inl RuleParseError
        | Decompiled text \<Rightarrow> parse_singbox_ruleset_json rp (PStr text) action stem)"


section \<open>Clash rule providers\<close>

definition CLASH_RULE_TYPE_MAP :: "(string \<times> string) list" where
  "CLASH_RULE_TYPE_MAP =
     [(''DOMAIN'', ''domain''), (''DOMAIN-SUFFIX'', ''domain_suffix''), (''DOMAIN-KEYWORD'', ''domain_keyword''),
      (''DOMAIN-REGEX'', ''domain_regex''), (''IP-CIDR'', ''ip_cidr''), (''IP-CIDR6'', ''ip_cidr''),
      (''DST-PORT'', ''port''), (''NETWORK'', ''network''), (''PROCESS-NAME'', ''process_name''),
      (''PROCESS-PATH'', ''process_path''), (''GEOIP'', ''ruleset_builtin''), (''GEOSITE'', ''ruleset_builtin''),
      (''RULE-SET'', ''ruleset_remote'')]"

definition CLASH_RULE_TYPES_SKIPPED :: "string list" where
  "CLASH_RULE_TYPES_SKIPPED = [''MATCH'']"

definition strip_quotes :: "string \<Rightarrow> string" where
  "strip_quotes value =
     (let v = py_strip value in
      if 2 \<le> length v \<and> hd v = last v \<and> hd v \<in> set [CHR 0x22, CHR 0x27] then butlast (tl v) else v)"

fun payload_entries :: "string list \<Rightarrow> string list" where
  "payload_entries [] = []"
| "payload_entries (line # rest) =
     (if py_strip line = [] then payload_entries rest
      else if \<not> py_startswith (py_lstrip line) ''- '' then []
      else strip_quotes (drop 2 (py_lstrip line)) # payload_entries rest)"

fun clash_payload :: "string list \<Rightarrow> string list res" where
  "clash_payload [] = Inl RuleParseError"
| "clash_payload (raw # rest) =
     (let stripped = py_strip raw in
      if py_startswith stripped ''payload:'' then
        (case after_char (CHR '':'') stripped of
           Some r \<Rightarrow> if py_strip r \<noteq> [] then Inl RuleParseError else Inr (payload_entries rest)
         | None \<Rightarrow> Inl IndexError)
      else clash_payload rest)"

definition load_clash_payload_entries :: "string \<Rightarrow> string list res" where
  "load_clash_payload_entries text = clash_payload (py_splitlines text)"

definition clash_parts :: "string \<Rightarrow> string list" where
  "clash_parts entry = map py_strip (py_split_char (CHR '','') entry)"

definition clash_value :: "string \<Rightarrow> string \<Rightarrow> string" where
  "clash_value rule_type value =
     (if rule_type = ''GEOIP'' then ''geoip:'' @ py_lower value
      else if rule_type = ''GEOSITE'' then ''geosite:'' @ py_lower value
      else value)"

fun clash_rules :: "(pyval \<Rightarrow> string) \<Rightarrow> string \<Rightarrow> string \<Rightarrow> int \<Rightarrow> string list \<Rightarrow> rule list res" where
  "clash_rules rp action id_prefix index [] = Inr []"
| "clash_rules rp action id_prefix index (entry # rest) =
     (let parts = clash_parts entry; rule_type = py_upper (hd parts) in
      if rule_type \<in> set CLASH_RULE_TYPES_SKIPPED then clash_rules rp action id_prefix (index + 1) rest
      else case map_of CLASH_RULE_TYPE_MAP rule_type of
          None \<Rightarrow> Inl RuleParseError
        | Some condition_key \<Rightarrow>
            if length parts < 2 \<or> parts ! 1 = [] then Inl RuleParseError
            else
              res_bind (build_rule rp (id_prefix @ ''-'' @ int_str index) action
                  [(condition_key, [clash_value rule_type (parts ! 1)])]) (\<lambda>r.
              res_bind (clash_rules rp action id_prefix (index + 1) rest) (\<lambda>rs. Inr (r # rs))))"

definition parse_clash_yaml_rules :: "(pyval \<Rightarrow> string) \<Rightarrow> string \<Rightarrow> string \<Rightarrow> string \<Rightarrow> rule list res" where
  "parse_clash_yaml_rules rp text action id_prefix =
     res_bind (load_clash_payload_entries text) (\<lambda>entries.
     res_bind (clash_rules rp action id_prefix 0 entries) (\<lambda>rules.
       if rules = [] then Inl RuleParseError else Inr rules))"


section \<open>Import plans\<close>

definition SUPPORTED_SINGBOX_MATCH_FIELDS :: "string list" where
  "SUPPORTED_SINGBOX_MATCH_FIELDS =
     [''domain'', ''domain_suffix'', ''domain_keyword'', ''domain_regex'', ''ip_cidr'', ''process_name'',
      ''process_path'', ''port'', ''port_range'', ''protocol'', ''network'']"

definition SINGBOX_UNSUPPORTED_STRUCTURAL_FIELDS :: "string list" where
  "SINGBOX_UNSUPPORTED_STRUCTURAL_FIELDS =
     [''type'', ''mode'', ''rules'', ''rule_set'', ''rule_set_ip_cidr_match_source'', ''source_ip_cidr'',
      ''source_port'', ''source_port_range'', ''user'', ''auth_user'', ''wifi_ssid'', ''wifi_bssid'', ''clash_mode'']"

definition CLASH_ACTION_MAP :: "(string \<times> string) list" where
  "CLASH_ACTION_MAP =
     [(''DIRECT'', ''direct''), (''REJECT'', ''block''), (''REJECT-DROP'', ''block''), (''BLOCK'', ''block''),
      (''PROXY'', ''current_profile''), (''GLOBAL'', ''current_profile'')]"

definition SINGBOX_ACTION_MAP :: "(string \<times> string) list" where
  "SINGBOX_ACTION_MAP =
     [(''direct'', ''direct''), (''block'', ''block''), (''reject'', ''block''), (''current'', ''current_profile''),
      (''current_profile'', ''current_profile''), (''proxy'', ''current_profile'')]"

record rejected_rule =
  rj_source :: string
  rj_reason :: string
  rj_item :: pyval

record rule_import_plan =
  ip_group :: rule_group
  ip_source_format :: string
  ip_rejected :: "rejected_rule list"
  ip_warnings :: "string list"

definition RejectedRule_to_dict :: "rejected_rule \<Rightarrow> dict" where
  "RejectedRule_to_dict r =
     [(''source'', PStr (rj_source r)), (''reason'', PStr (rj_reason r)), (''item'', rj_item r)]"

definition RuleImportPlan_to_dict :: "rule_import_plan \<Rightarrow> dict" where
  "RuleImportPlan_to_dict p =
     [(''source_format'', PStr (ip_source_format p)),
      (''group'', PDict (RuleGroup_to_dict (ip_group p))),
      (''accepted_rule_count'', PInt (int (length (rg_rules (ip_group p))))),
      (''rejected'', PList (map (PDict \<circ> RejectedRule_to_dict) (ip_rejected p))),
      (''warnings'', PList (map PStr (ip_warnings p)))]"

text \<open>\<open>_valid_domain\<close>: \<open>DOMAIN_RE\<close> asks for labels separated by dots; its \<open>$\<close> also matches before a final newline.\<close>

definition ascii_alnum :: "char \<Rightarrow> bool" where
  "ascii_alnum c = (let n = py_code c in (48 \<le> n \<and> n \<le> 57) \<or> (65 \<le> n \<and> n \<le> 90) \<or> (97 \<le> n \<and> n \<le> 122))"

definition domain_label :: "string \<Rightarrow> bool" where
  "domain_label s \<longleftrightarrow> s \<noteq> [] \<and> length s \<le> 63 \<and> ascii_alnum (hd s) \<and> ascii_alnum (last s) \<and>
     list_all (\<lambda>c. ascii_alnum c \<or> c = CHR ''-'') s"

definition domain_re :: "string \<Rightarrow> bool" where
  "domain_re s \<longleftrightarrow> list_all domain_label (py_split_char (CHR ''.'') s) \<or>
     (s \<noteq> [] \<and> last s = CHR 0x0A \<and> list_all domain_label (py_split_char (CHR ''.'') (butlast s)))"

definition valid_domain :: "string \<Rightarrow> bool" where
  "valid_domain v \<longleftrightarrow> v \<noteq> [] \<and> length v \<le> 253 \<and> CHR ''.'' \<in> set v \<and> domain_re v"

definition pad4 :: "int \<Rightarrow> string" where
  "pad4 n = (let s = int_str n in replicate (4 - length s) (CHR ''0'') @ s)"

definition import_rule_id :: "string \<Rightarrow> int \<Rightarrow> string" where
  "import_rule_id prefix index = prefix @ ''-'' @ pad4 index"

text \<open>\<open>SLUG_RE.sub("-", s)\<close>: each maximal run of other characters becomes one hyphen.\<close>

function slug_sub :: "string \<Rightarrow> string" where
  "slug_sub [] = []"
| "slug_sub (c # cs) =
     (if slug_char c then c # slug_sub cs
      else CHR ''-'' # slug_sub (dropWhile (\<lambda>x. \<not> slug_char x) cs))"
  by pat_completeness auto
termination by (relation "measure length") (auto simp: le_imp_less_Suc length_dropWhile_le)

definition strip_dashes :: "string \<Rightarrow> string" where
  "strip_dashes s = py_rstrip_chars ''-_'' (dropWhile (\<lambda>c. c \<in> set ''-_'') s)"

definition import_group_name :: "(pyval \<Rightarrow> string) \<Rightarrow> string option \<Rightarrow> string \<Rightarrow> string res" where
  "import_group_name rp name source_name =
     (if name \<noteq> None \<and> the name \<noteq> [] then validate_group_name rp (PStr (the name))
      else
        let slug = strip_dashes (slug_sub (py_lower source_name));
            slug' = (if slug = [] then ''imported'' else slug)
        in validate_group_name rp (PStr (take 64 slug')))"

definition import_rule :: "(pyval \<Rightarrow> string) \<Rightarrow> string \<Rightarrow> string \<Rightarrow> conditions \<Rightarrow> rule res" where
  "import_rule rp rule_id action conditions =
     res_except VALUE_ERRORS RuleImportError
       (Rule_init rp (PStr rule_id) (PStr action) (conditions_value conditions) True)"

definition import_plan ::
  "(pyval \<Rightarrow> string) \<Rightarrow> string option \<Rightarrow> string \<Rightarrow> string \<Rightarrow> rule list \<times> rejected_rule list \<Rightarrow> rule_import_plan res" where
  "import_plan rp name source_name fmt = (\<lambda>(rules, rejected).
     res_bind (import_group_name rp name source_name) (\<lambda>n.
     res_bind (RuleGroup_init rp (PStr n) True (map Inl rules) 100) (\<lambda>g.
       Inr \<lparr>ip_group = g, ip_source_format = fmt, ip_rejected = rejected, ip_warnings = []\<rparr>)))"

text \<open>
  The three loops over entries have one shape: each entry is either rejected with a reason or gives the
  action and conditions of a rule whose id is made from its position.
\<close>

type_synonym entry_reading = "rejected_rule + string \<times> conditions"

fun read_entries ::
  "(pyval \<Rightarrow> string) \<Rightarrow> string \<Rightarrow> (int \<Rightarrow> 'e \<Rightarrow> entry_reading) \<Rightarrow> int \<Rightarrow> 'e list \<Rightarrow> (rule list \<times> rejected_rule list) res" where
  "read_entries rp prefix read index [] = Inr ([], [])"
| "read_entries rp prefix read index (e # rest) = (case read index e of
       Inl rej \<Rightarrow> res_bind (read_entries rp prefix read (index + 1) rest) (\<lambda>(rs, js). Inr (rs, rej # js))
     | Inr (action, conditions) \<Rightarrow>
         res_bind (import_rule rp (import_rule_id prefix index) action conditions) (\<lambda>r.
         res_bind (read_entries rp prefix read (index + 1) rest) (\<lambda>(rs, js). Inr (r # rs, js))))"

definition simple_entry_condition :: "string \<Rightarrow> conditions option" where
  "simple_entry_condition entry =
     (let value = py_strip entry in
      if value = [] then None
      else case ip_network value of
          Some w \<Rightarrow> Some [(''ip_cidr'', [ip_net_str w])]
        | None \<Rightarrow>
            if py_startswith value ''.'' then
              (let domain = py_strip (drop 1 value) in
               if valid_domain domain then Some [(''domain_suffix'', [CHR ''.'' # py_lower domain])] else None)
            else if valid_domain value then Some [(''domain'', [py_lower value])]
            else None)"

definition read_simple_entry :: "string \<Rightarrow> int \<Rightarrow> string \<Rightarrow> entry_reading" where
  "read_simple_entry default_action index entry = (case simple_entry_condition entry of
       None \<Rightarrow> Inl \<lparr>rj_source = ''line:'' @ int_str index, rj_reason = ''not a supported domain or IP CIDR'', rj_item = PStr entry\<rparr>
     | Some c \<Rightarrow> Inr (default_action, c))"

definition plan_from_simple_entries ::
  "(pyval \<Rightarrow> string) \<Rightarrow> string list \<Rightarrow> string \<Rightarrow> string option \<Rightarrow> string \<Rightarrow> rule_import_plan res" where
  "plan_from_simple_entries rp entries source_name name default_action =
     res_bind (read_entries rp ''simple'' (read_simple_entry default_action) 1 entries)
       (import_plan rp name source_name ''simple-domain-ip-list'')"

definition simple_list_entries :: "string \<Rightarrow> string list" where
  "simple_list_entries text =
     filter (\<lambda>l. \<not> (l = [] \<or> py_startswith l ''#'' \<or> py_startswith l ''//'')) (map py_strip (py_splitlines text))"

definition plan_from_simple_list ::
  "(pyval \<Rightarrow> string) \<Rightarrow> string \<Rightarrow> string \<Rightarrow> string option \<Rightarrow> string \<Rightarrow> rule_import_plan res" where
  "plan_from_simple_list rp text source_name name default_action =
     plan_from_simple_entries rp (simple_list_entries text) source_name name default_action"

definition lstrip_dots :: "string \<Rightarrow> string" where
  "lstrip_dots s = dropWhile (\<lambda>c. c = CHR ''.'') s"

definition clash_condition :: "string \<Rightarrow> string \<Rightarrow> conditions option" where
  "clash_condition rule_type v =
     (let value = py_strip v in
      if rule_type = ''DOMAIN'' \<and> valid_domain value then Some [(''domain'', [py_lower value])]
      else if rule_type = ''DOMAIN-SUFFIX'' \<and> valid_domain (lstrip_dots value) then
        Some [(''domain_suffix'', [CHR ''.'' # py_lower (lstrip_dots value)])]
      else if rule_type = ''DOMAIN-KEYWORD'' \<and> value \<noteq> [] then Some [(''domain_keyword'', [py_lower value])]
      else if rule_type \<in> set [''IP-CIDR'', ''IP-CIDR6''] then
        map_option (\<lambda>w. [(''ip_cidr'', [ip_net_str w])]) (ip_network value)
      else if rule_type = ''PROCESS-NAME'' \<and> value \<noteq> [] then Some [(''process_name'', [value])]
      else None)"

definition reject_clash :: "int \<Rightarrow> string \<Rightarrow> string \<Rightarrow> rejected_rule" where
  "reject_clash index reason line = \<lparr>rj_source = ''clash:'' @ int_str index, rj_reason = reason, rj_item = PStr line\<rparr>"

definition read_clash_entry :: "int \<Rightarrow> string \<Rightarrow> entry_reading" where
  "read_clash_entry index line =
     (let parts = clash_parts line in
      if length parts < 3 then Inl (reject_clash index ''rule must have type,value,action'' line)
      else
        let rule_type = py_upper (parts ! 0); value = parts ! 1; action_token = py_upper (parts ! 2) in
        case map_of CLASH_ACTION_MAP action_token of
          None \<Rightarrow> Inl (reject_clash index (''unsupported action: '' @ action_token) line)
        | Some action \<Rightarrow>
            (case clash_condition rule_type value of
               None \<Rightarrow> Inl (reject_clash index (''unsupported rule type or value: '' @ rule_type) line)
             | Some c \<Rightarrow> Inr (action, c)))"

definition plan_from_clash_rules ::
  "(pyval \<Rightarrow> string) \<Rightarrow> string list \<Rightarrow> rejected_rule list \<Rightarrow> string \<Rightarrow> string option \<Rightarrow> rule_import_plan res" where
  "plan_from_clash_rules rp lines rejected source_name name =
     res_bind (read_entries rp ''clash'' read_clash_entry 1 lines) (\<lambda>(rules, rejs).
       import_plan rp name source_name ''clash-rule-list'' (rules, rejected @ rejs))"

definition looks_like_clash_line :: "string \<Rightarrow> bool" where
  "looks_like_clash_line line =
     (let parts = clash_parts line in
      \<not> length parts < 3 \<and>
      py_upper (hd parts) \<in> set [''DOMAIN'', ''DOMAIN-SUFFIX'', ''DOMAIN-KEYWORD'', ''IP-CIDR'', ''IP-CIDR6'', ''PROCESS-NAME''])"

definition import_string_list :: "(pyval \<Rightarrow> string) \<Rightarrow> pyval \<Rightarrow> string list" where
  "import_string_list rp v =
     (let items = (case v of PList xs \<Rightarrow> xs | _ \<Rightarrow> [v]) in
      filter (\<lambda>s. s \<noteq> []) (map (py_strip \<circ> py_str rp) items))"

text \<open>\<open>order\<close> is the iteration order of the set \<open>SUPPORTED_SINGBOX_MATCH_FIELDS\<close>.\<close>

definition singbox_conditions :: "(pyval \<Rightarrow> string) \<Rightarrow> string list \<Rightarrow> dict \<Rightarrow> conditions" where
  "singbox_conditions rp order item =
     foldl (\<lambda>cs k. let v = dict_get item k PNone in
              if v = PNone then cs
              else let values = import_string_list rp v in if values = [] then cs else dict_put cs k values) [] order"

definition singbox_action :: "(pyval \<Rightarrow> string) \<Rightarrow> dict \<Rightarrow> string \<Rightarrow> string option" where
  "singbox_action rp item default_action =
     (let a = dict_get item ''action'' PNone;
          o1 = dict_get item ''outbound'' PNone;
          raw = (if py_truthy a then a else if py_truthy o1 then o1 else PStr default_action);
          action = py_strip (py_str rp raw)
      in case map_of SINGBOX_ACTION_MAP action of
           Some x \<Rightarrow> Some x
         | None \<Rightarrow>
             if action \<in> set [''direct'', ''current_profile'', ''block'', ''auto_select''] \<or> py_startswith action ''group:''
             then Some action else None)"

definition reject_singbox :: "int \<Rightarrow> string \<Rightarrow> pyval \<Rightarrow> rejected_rule" where
  "reject_singbox index reason item = \<lparr>rj_source = ''sing-box:'' @ int_str index, rj_reason = reason, rj_item = item\<rparr>"

definition read_singbox_entry ::
  "(pyval \<Rightarrow> string) \<Rightarrow> string list \<Rightarrow> string \<Rightarrow> int \<Rightarrow> pyval \<Rightarrow> entry_reading" where
  "read_singbox_entry rp order default_action index v = (case v of
       PDict item \<Rightarrow>
         (let structural = sort (filter (\<lambda>k. k \<in> set SINGBOX_UNSUPPORTED_STRUCTURAL_FIELDS) (map fst item)) in
          if structural \<noteq> [] then
            Inl (reject_singbox index (''unsupported structural fields: '' @ py_join '', '' structural) v)
          else
            let conditions = singbox_conditions rp order item in
            if conditions = [] then Inl (reject_singbox index ''no supported match fields'' v)
            else case singbox_action rp item default_action of
                None \<Rightarrow> Inl (reject_singbox index ''unsupported action/outbound'' v)
              | Some action \<Rightarrow> Inr (action, conditions))
     | _ \<Rightarrow> Inl (reject_singbox index ''rule is not an object'' v))"

definition plan_from_singbox_rules ::
  "(pyval \<Rightarrow> string) \<Rightarrow> string list \<Rightarrow> pyval list \<Rightarrow> string \<Rightarrow> string option \<Rightarrow> string \<Rightarrow> string \<Rightarrow> rule_import_plan res" where
  "plan_from_singbox_rules rp order items source_name name default_action source_format =
     res_bind (read_entries rp ''singbox'' (read_singbox_entry rp order default_action) 1 items)
       (import_plan rp name source_name source_format)"

definition looks_like_watchdog_group :: "dict \<Rightarrow> bool" where
  "looks_like_watchdog_group raw \<longleftrightarrow> ''name'' \<in> set (map fst raw) \<and> ''rules'' \<in> set (map fst raw)"

fun str_of :: "pyval \<Rightarrow> string option" where
  "str_of (PStr s) = Some s"
| "str_of v = None"

definition plan_from_list ::
  "(pyval \<Rightarrow> string) \<Rightarrow> pyval list \<Rightarrow> string \<Rightarrow> string option \<Rightarrow> string \<Rightarrow> rule_import_plan res" where
  "plan_from_list rp raw source_name name default_action =
     (let lines = List.map_filter str_of raw in
      if list_all (\<lambda>v. str_of v \<noteq> None) raw then
        (if list_ex looks_like_clash_line lines then plan_from_clash_rules rp lines [] source_name name
         else plan_from_simple_entries rp lines source_name name default_action)
      else plan_from_clash_rules rp lines
        (map (\<lambda>v. \<lparr>rj_source = ''json-list'', rj_reason = ''list item is not a string'', rj_item = v\<rparr>)
          (filter (\<lambda>v. str_of v = None) raw))
        source_name name)"

definition list_item :: "dict \<Rightarrow> string \<Rightarrow> pyval list option" where
  "list_item d k = (case dict_get d k PNone of PList xs \<Rightarrow> Some xs | _ \<Rightarrow> None)"

text \<open>The items of \<open>raw["route"]["rules"]\<close> when both are there, else those of \<open>raw["rules"]\<close>.\<close>

definition route_items :: "dict \<Rightarrow> pyval list option" where
  "route_items d = (case dict_get d ''route'' PNone of
       PDict route \<Rightarrow> (case list_item route ''rules'' of Some xs \<Rightarrow> Some xs | None \<Rightarrow> list_item d ''rules'')
     | _ \<Rightarrow> list_item d ''rules'')"

definition plan_from_json ::
  "(pyval \<Rightarrow> string) \<Rightarrow> string list \<Rightarrow> pyval \<Rightarrow> string \<Rightarrow> string option \<Rightarrow> string \<Rightarrow> rule_import_plan res" where
  "plan_from_json rp order raw source_name name default_action = (case raw of
       PDict d \<Rightarrow>
         if looks_like_watchdog_group d then
           res_except GROUP_ERRORS RuleImportError
             (res_bind (RuleGroup_from_dict rp (case name of None \<Rightarrow> d | Some n \<Rightarrow> dict_put d ''name'' (PStr n))) (\<lambda>g.
               Inr \<lparr>ip_group = g, ip_source_format = ''watchdogvpn-rule-group'', ip_rejected = [], ip_warnings = []\<rparr>))
         else
           (case route_items d of
              Some items \<Rightarrow>
                plan_from_singbox_rules rp order items source_name name default_action ''sing-box-route-rules''
            | None \<Rightarrow> Inl RuleImportError)
     | PList xs \<Rightarrow> plan_from_list rp xs source_name name default_action
     | _ \<Rightarrow> Inl RuleImportError)"

definition build_rule_import_plan ::
  "(pyval \<Rightarrow> string) \<Rightarrow> string list \<Rightarrow> string res \<Rightarrow> string \<Rightarrow> string option \<Rightarrow> string \<Rightarrow> bool \<Rightarrow> rule_import_plan res" where
  "build_rule_import_plan rp order file stem name default_action allow_partial =
     res_bind (res_except [OSError] RuleImportError file) (\<lambda>text.
     let stripped = py_lstrip text in
     res_bind
       (if py_startswith stripped ''{'' \<or> py_startswith stripped ''['' then
          (case json_loads text of
             None \<Rightarrow> Inl RuleImportError
           | Some raw \<Rightarrow> plan_from_json rp order raw stem name default_action)
        else plan_from_simple_list rp text stem name default_action) (\<lambda>plan.
     if ip_rejected plan \<noteq> [] \<and> \<not> allow_partial then Inl RuleImportError
     else if rg_rules (ip_group plan) = [] then Inl RuleImportError
     else Inr plan))"


section \<open>Which errors escape\<close>

lemma res_except_Inr [simp]: "res_except caught e r = Inr y \<longleftrightarrow> r = Inr y"
  by (cases r) (auto simp: res_except_def)

lemma raises_except: "raises_only (set caught \<union> E) r \<Longrightarrow> e \<in> E \<Longrightarrow> raises_only E (res_except caught e r)"
  by (cases r) (auto simp: res_except_def)

lemma raises_conditions [raises_rules]: "ValueError \<in> E \<Longrightarrow> raises_only E (validate_rule_conditions rp v)"
proof -
  assume E: "ValueError \<in> E"
  have "raises_only E (validate_condition rp c)" for c
    using E by (cases c) (auto simp: validate_condition_def Let_def split: pyval.split list.split)
  then show ?thesis
    using E by (cases v) (auto simp: validate_rule_conditions_def intro!: raises_rules)
qed

lemma raises_group_name [raises_rules]: "ValueError \<in> E \<Longrightarrow> raises_only E (validate_group_name rp v)"
  by (auto simp: validate_group_name_def Let_def)

lemma raises_rule_action [raises_rules]:
  "ValueError \<in> E \<Longrightarrow> PersistentValidationError \<in> E \<Longrightarrow> raises_only E (validate_rule_action rp v)"
  unfolding validate_rule_action_def Let_def by (intro raises_rules)

lemma raises_rule_init [raises_rules]:
  "ValueError \<in> E \<Longrightarrow> PersistentValidationError \<in> E \<Longrightarrow> raises_only E (Rule_init rp i a c en)"
  unfolding Rule_init_def Let_def by (intro raises_rules)

lemma raises_object_fields [raises_rules]:
  "TypeError \<in> E \<Longrightarrow> PersistentValidationError \<in> E \<Longrightarrow> raises_only E (object_fields v ks)"
  unfolding object_fields_def by (cases v) (auto intro!: raises_rules)

lemma raises_rule_from_dict [raises_rules]:
  "{ValueError, TypeError, KeyError, PersistentValidationError} \<subseteq> E \<Longrightarrow> raises_only E (Rule_from_dict rp v)"
  unfolding Rule_from_dict_def by (intro raises_rules) auto

lemma raises_group_init [raises_rules]:
  "ValueError \<in> E \<Longrightarrow> raises_only E (RuleGroup_init rp n en (map Inl rs) p)"
  unfolding RuleGroup_init_def by (intro raises_rules) auto

lemma raises_group_from_dict [raises_rules]:
  "{ValueError, TypeError, KeyError, PersistentValidationError} \<subseteq> E \<Longrightarrow> raises_only E (RuleGroup_from_dict rp d)"
  unfolding RuleGroup_from_dict_def by (intro raises_rules) (auto split: pyval.split)

text \<open>An action that is not a chain action makes the constructor raise \<open>ValueError\<close> only.\<close>

definition no_chain :: "string \<Rightarrow> bool" where
  "no_chain a \<longleftrightarrow> \<not> py_startswith (py_strip a) ''chain:''"

lemma raises_rule_init_no_chain:
  assumes "no_chain a"
  shows "raises_only {ValueError} (Rule_init rp i (PStr a) c en)"
proof -
  have "raises_only {ValueError} (validate_rule_action rp (PStr a))"
    using assms by (auto simp: validate_rule_action_def no_chain_def chain_target_def Let_def)
  then show ?thesis by (auto simp: Rule_init_def Let_def intro!: raises_only_bind raises_conditions)
qed

lemma raises_import_rule: "no_chain a \<Longrightarrow> raises_only {RuleImportError} (import_rule rp i a cs)"
  unfolding import_rule_def
  by (rule raises_except, rule raises_only_mono[OF raises_rule_init_no_chain]) (auto simp: VALUE_ERRORS_def)

lemma raises_read_entries:
  assumes "\<And>k e a c. read k e = Inr (a, c) \<Longrightarrow> no_chain a"
  shows "raises_only {RuleImportError} (read_entries rp prefix read index es)"
  using assms
  by (induction es arbitrary: index)
    (auto intro!: raises_rules raises_import_rule split: sum.split prod.split)

lemma parser_escape: "build_rule rp ''r-0'' ''chain:Bad Id'' [(''port'', [''443''])] = Inl PersistentValidationError"
  by code_simp

text \<open>The \<open>invert\<close> field of a sing-box entry changes nothing in the conditions made from it.\<close>

lemma invert_dropped:
  "singbox_rule_entry_to_conditions rp ((''invert'', v) # entry) = singbox_rule_entry_to_conditions rp entry"
  by (simp add: singbox_rule_entry_to_conditions_def SINGBOX_RULE_SET_FIELDS_def dict_get_def Let_def)


section \<open>Names and ids\<close>

lemma slug_sub_chars: "c \<in> set (slug_sub s) \<Longrightarrow> slug_char c"
proof (induction s rule: slug_sub.induct)
  case (2 x xs)
  have "slug_char (CHR ''-'')" by code_simp
  then show ?case using 2 by (auto split: if_splits)
qed simp

lemma strip_both:
  fixes P :: "'a \<Rightarrow> bool" and s :: "'a list"
  defines "t \<equiv> rev (dropWhile P (rev (dropWhile P s)))"
  shows "set t \<subseteq> set s" and "t \<noteq> [] \<Longrightarrow> \<not> P (hd t)"
proof -
  show "set t \<subseteq> set s" by (auto simp: t_def dest!: set_dropWhileD)
  assume ne: "t \<noteq> []"
  then have "hd t = hd (dropWhile P s)" unfolding t_def by (rule dropWhile_rev_hd)
  moreover have "dropWhile P s \<noteq> []" using ne by (intro notI) (simp add: t_def)
  ultimately show "\<not> P (hd t)" using hd_dropWhile[of P s] by simp
qed

lemmas strip_dashes_facts = strip_both[where P = "\<lambda>c. c \<in> set ''-_''",
  folded py_rstrip_chars_def, folded strip_dashes_def]

lemma derived_name_slug: "is_slug (take 64 (if strip_dashes (slug_sub s) = [] then ''imported'' else strip_dashes (slug_sub s)))"
proof (cases "strip_dashes (slug_sub s)")
  case Nil
  have "is_slug ''imported''" by code_simp
  then show ?thesis by (simp add: Nil)
next
  case (Cons c cs)
  have all: "\<forall>x \<in> set (c # cs). slug_char x"
    using slug_sub_chars strip_dashes_facts(1)[of "slug_sub s"] unfolding Cons by blast
  have "c \<notin> set ''-_''" using strip_dashes_facts(2)[of "slug_sub s"] by (simp only: Cons list.sel) simp
  then have "slug_start c" using all by (auto simp: slug_char_def)
  then show ?thesis using all by (auto simp: Cons list_all_iff dest: in_set_takeD)
qed

lemma import_group_name_ok:
  assumes "case name of None \<Rightarrow> True | Some n \<Rightarrow> n = [] \<or> is_slug n"
  shows "\<exists>n. import_group_name rp name source_name = Inr n \<and> is_slug n"
  using assms derived_name_slug[of "py_lower source_name"]
  by (auto simp: import_group_name_def validate_group_name_def Let_def split: option.splits)

lemma digit_zero: "is_digit (CHR ''0'')"
  by code_simp

lemma pad4_digits: "0 \<le> n \<Longrightarrow> c \<in> set (pad4 n) \<Longrightarrow> is_digit c"
  using dec_digits_digit[of n c] digit_zero by (auto simp: pad4_def int_str_def Let_def)

lemma pad4_value: "0 \<le> n \<Longrightarrow> digits_val 10 (pad4 n) = n"
proof -
  have z: "digits_val 10 (replicate k (CHR ''0'') @ s) = digits_val 10 s" for k s
  proof (induction k)
    case (Suc k)
    have "digit_val (CHR ''0'') = 0" by code_simp
    then show ?case using Suc by (simp add: digits_val_def)
  qed simp
  assume "0 \<le> n"
  then show ?thesis by (simp add: pad4_def int_str_def Let_def z digits_val_dec_digits)
qed

lemma import_rule_id_inj: "0 \<le> m \<Longrightarrow> 0 \<le> n \<Longrightarrow> import_rule_id p m = import_rule_id p n \<longleftrightarrow> m = n"
  unfolding import_rule_id_def same_append_eq by (metis pad4_value)

lemma import_rule_id_strip:
  assumes "p \<noteq> []" and "\<not> py_isspace (hd p)" and "0 \<le> n"
  shows "py_strip (import_rule_id p n) = import_rule_id p n"
proof (rule py_strip_id)
  have "pad4 n \<noteq> []" by (simp add: pad4_def int_str_def Let_def)
  then have "last (import_rule_id p n) \<in> set (pad4 n)" by (simp add: import_rule_id_def)
  then have "\<not> py_isspace (last (import_rule_id p n))" using pad4_digits[OF assms(3)] digit_not_space by blast
  then show "import_rule_id p n = [] \<or> \<not> py_isspace (hd (import_rule_id p n)) \<and> \<not> py_isspace (last (import_rule_id p n))"
    using assms(1,2) by (simp add: import_rule_id_def)
qed

lemma Rule_init_id_field: "Rule_init rp (PStr i) a c en = Inr r \<Longrightarrow> r_id r = py_strip i \<and> r_enabled r = en"
  by (auto simp: Rule_init_def Let_def split: if_splits)


section \<open>Reading entries\<close>

lemma later_id: "\<exists>k\<ge>index + 1. i = import_rule_id p k \<Longrightarrow> \<exists>k\<ge>index. i = import_rule_id p k"
proof -
  assume "\<exists>k\<ge>index + 1. i = import_rule_id p k"
  then obtain k where "index + 1 \<le> k" and i: "i = import_rule_id p k" by blast
  then have "index \<le> k" by simp
  then show ?thesis using i by blast
qed

lemma read_entries_run:
  assumes "read_entries rp p read index es = Inr (rs, js)" and "p \<noteq> []" "\<not> py_isspace (hd p)" "0 \<le> index"
  shows "list_all rule_valid rs \<and> distinct (map r_id rs) \<and>
    (\<forall>r \<in> set rs. r_enabled r \<and> (\<exists>k\<ge>index. r_id r = import_rule_id p k)) \<and> length rs + length js = length es"
  using assms
proof (induction es arbitrary: index rs js)
  case (Cons e es)
  show ?case
  proof (cases "read index e")
    case (Inl rej)
    then obtain js' where js: "read_entries rp p read (index + 1) es = Inr (rs, js')" "js = rej # js'"
      using Cons.prems(1) by auto
    have ih: "list_all rule_valid rs" "distinct (map r_id rs)" "length rs + length js' = length es"
      "\<forall>x \<in> set rs. r_enabled x \<and> (\<exists>k\<ge>index + 1. r_id x = import_rule_id p k)"
      using Cons.IH[OF js(1)] Cons.prems(2-) by simp_all
    have "r_enabled x \<and> (\<exists>k\<ge>index. r_id x = import_rule_id p k)" if "x \<in> set rs" for x
      using bspec[OF ih(4) that] later_id by blast
    then show ?thesis using ih js(2) by simp
  next
    case (Inr ac)
    obtain a c where ac: "ac = (a, c)" by (cases ac)
    obtain r rs' where r: "import_rule rp (import_rule_id p index) a c = Inr r" "rs = r # rs'"
      "read_entries rp p read (index + 1) es = Inr (rs', js)"
      using Cons.prems(1) Inr ac by auto
    have ih: "list_all rule_valid rs'" "distinct (map r_id rs')" "length rs' + length js = length es"
      "\<forall>x \<in> set rs'. r_enabled x \<and> (\<exists>k\<ge>index + 1. r_id x = import_rule_id p k)"
      using Cons.IH[OF r(3)] Cons.prems(2-) by simp_all
    have id: "r_id r = import_rule_id p index" "r_enabled r" and v: "rule_valid r"
      using r(1) Rule_init_id_field[of rp "import_rule_id p index"] import_rule_id_strip[OF Cons.prems(2-)]
      by (auto simp: import_rule_def dest: Rule_init_valid)
    have "r_id r \<notin> r_id ` set rs'"
    proof
      assume "r_id r \<in> r_id ` set rs'"
      then obtain k where "index + 1 \<le> k" "import_rule_id p index = import_rule_id p k" using ih(4) id by auto
      then show False using import_rule_id_inj[of index k p] Cons.prems(4) by simp
    qed
    moreover have "r_enabled x \<and> (\<exists>k\<ge>index. r_id x = import_rule_id p k)" if "x \<in> set rs'" for x
      using bspec[OF ih(4) that] later_id by blast
    ultimately show ?thesis using r(2) id v ih(1-3) by auto
  qed
qed simp


section \<open>Parsed rules\<close>

text \<open>Rules of a parser that numbers them: well formed, each id its prefix and position, so no id occurs twice.\<close>

definition numbered :: "string \<Rightarrow> int \<Rightarrow> rule list \<Rightarrow> bool" where
  "numbered p index rs \<longleftrightarrow> list_all rule_valid rs \<and> distinct (map r_id rs) \<and>
     (\<forall>r \<in> set rs. \<exists>k\<ge>index. r_id r = py_lstrip (p @ ''-'') @ int_str k)"

lemma numbered_id:
  assumes "numbered p index rs" and "r \<in> set rs"
  obtains k where "index \<le> k" "r_id r = py_lstrip (p @ ''-'') @ int_str k"
proof -
  have "\<forall>r \<in> set rs. \<exists>k\<ge>index. r_id r = py_lstrip (p @ ''-'') @ int_str k"
    using assms(1) unfolding numbered_def by (elim conjE)
  from bspec[OF this assms(2)] show thesis using that by (elim exE conjE)
qed

lemma numbered_skip: "numbered p (index + 1) rs \<Longrightarrow> numbered p index rs"
proof -
  assume n: "numbered p (index + 1) rs"
  have "\<exists>k\<ge>index. r_id r = py_lstrip (p @ ''-'') @ int_str k" if r: "r \<in> set rs" for r
  proof (rule numbered_id[OF n r])
    fix k assume k: "index + 1 \<le> k" "r_id r = py_lstrip (p @ ''-'') @ int_str k"
    show ?thesis by (rule exI[of _ k]) (use k in simp)
  qed
  moreover have "list_all rule_valid rs \<and> distinct (map r_id rs)"
    using n unfolding numbered_def by (elim conjE) (intro conjI)
  ultimately show ?thesis unfolding numbered_def by (elim conjE) (intro conjI ballI)
qed

lemma numbered_Cons:
  assumes "build_rule rp (p @ ''-'' @ int_str index) a cs = Inr r" and "numbered p (index + 1) rs" and "0 \<le> index"
  shows "numbered p index (r # rs)"
proof -
  have init: "Rule_init rp (PStr (p @ ''-'' @ int_str index)) (PStr a) (conditions_value cs) True = Inr r"
    using assms(1) unfolding build_rule_def res_except_Inr .
  have r: "rule_valid r" "r_id r = py_lstrip (p @ ''-'') @ int_str index"
    using Rule_init_valid[OF init] Rule_init_id_field[OF init] unfolding strip_numbered[OF assms(3)] by blast+
  have "r_id r \<noteq> r_id x" if x: "x \<in> set rs" for x
  proof -
    obtain k where k: "index + 1 \<le> k" "r_id x = py_lstrip (p @ ''-'') @ int_str k"
      by (rule numbered_id[OF assms(2) x])
    then have "int_str index \<noteq> int_str k" using int_str_inj[of index k] assms(3) by simp
    then show ?thesis unfolding r(2) k(2) by simp
  qed
  then have "r_id r \<notin> set (map r_id rs)" by auto
  moreover have "\<exists>k\<ge>index. r_id r = py_lstrip (p @ ''-'') @ int_str k" by (rule exI[of _ index]) (simp add: r(2))
  ultimately show ?thesis
    using numbered_skip[OF assms(2)] r(1) unfolding numbered_def by (elim conjE) (intro conjI; simp only: list.map distinct.simps list.pred_inject list.set ball_simps not_False_eq_True simp_thms)
qed

lemma singbox_rules_numbered: "singbox_rules rp a p index raws = Inr rs \<Longrightarrow> 0 \<le> index \<Longrightarrow> numbered p index rs"
proof (induction raws arbitrary: index rs)
  case (Cons raw raws)
  then obtain entry where "raw = PDict entry" by (cases raw) auto
  with Cons.prems(1) obtain cs r rs' where "build_rule rp (p @ ''-'' @ int_str index) a cs = Inr r"
    "singbox_rules rp a p (index + 1) raws = Inr rs'" "rs = r # rs'" by auto
  then show ?case using Cons.IH[of "index + 1" rs'] Cons.prems(2) numbered_Cons by simp
qed (simp add: numbered_def)

lemma clash_rules_numbered: "clash_rules rp a p index es = Inr rs \<Longrightarrow> 0 \<le> index \<Longrightarrow> numbered p index rs"
proof (induction es arbitrary: index rs)
  case (Cons e es)
  show ?case
  proof (cases "py_upper (hd (clash_parts e)) \<in> set CLASH_RULE_TYPES_SKIPPED")
    case True
    then have "clash_rules rp a p (index + 1) es = Inr rs" using Cons.prems(1) by (simp add: Let_def)
    then show ?thesis using Cons.IH[of "index + 1" rs] Cons.prems(2) numbered_skip by simp
  next
    case False
    with Cons.prems(1) obtain cs r rs' where "build_rule rp (p @ ''-'' @ int_str index) a cs = Inr r"
      "clash_rules rp a p (index + 1) es = Inr rs'" "rs = r # rs'"
      by (auto simp: Let_def split: option.splits if_splits)
    then show ?thesis using Cons.IH[of "index + 1" rs'] Cons.prems(2) numbered_Cons by simp
  qed
qed (simp add: numbered_def)

lemma singbox_parsed:
  assumes "parse_singbox_ruleset_json rp data a p = Inr rs"
  shows "rs \<noteq> [] \<and> numbered p 0 rs"
proof -
  obtain v where v: "load_json_payload data = Inr v"
    using assms by (cases "load_json_payload data") (simp_all add: parse_singbox_ruleset_json_def)
  obtain d where d: "v = PDict d" using assms v by (cases v) (simp_all add: parse_singbox_ruleset_json_def)
  obtain x where x: "map_of d ''rules'' = Some x"
    using assms v d by (cases "map_of d ''rules''") (simp_all add: parse_singbox_ruleset_json_def)
  obtain raws where "x = PList raws" using assms v d x by (cases x) (simp_all add: parse_singbox_ruleset_json_def)
  then have "singbox_rules rp a p 0 raws = Inr rs" "rs \<noteq> []"
    using assms v d x by (cases "singbox_rules rp a p 0 raws"; simp add: parse_singbox_ruleset_json_def split: if_splits)+
  then show ?thesis using singbox_rules_numbered by simp
qed

lemma clash_parsed:
  assumes "parse_clash_yaml_rules rp txt a p = Inr rs"
  shows "rs \<noteq> [] \<and> numbered p 0 rs"
proof -
  obtain es where "clash_rules rp a p 0 es = Inr rs" "rs \<noteq> []"
    using assms by (auto simp: parse_clash_yaml_rules_def split: if_splits)
  then show ?thesis using clash_rules_numbered by simp
qed

section \<open>Plans\<close>

definition plan_valid :: "rule_import_plan \<Rightarrow> bool" where
  "plan_valid p \<longleftrightarrow> group_valid (ip_group p)"

definition name_ok :: "string option \<Rightarrow> bool" where
  "name_ok name = (case name of None \<Rightarrow> True | Some n \<Rightarrow> n = [] \<or> is_slug n)"

definition plan_typed :: "rule_import_plan res \<Rightarrow> bool" where
  "plan_typed r = (case r of Inl e \<Rightarrow> e = RuleImportError | Inr p \<Rightarrow> plan_valid p)"

lemma import_plan_ok:
  assumes "name_ok name" and "list_all rule_valid rs" and "distinct (map r_id rs)"
  shows "\<exists>p. import_plan rp name source_name fmt (rs, js) = Inr p \<and> plan_valid p \<and>
    rg_rules (ip_group p) = rs \<and> ip_rejected p = js"
proof -
  obtain n where n: "import_group_name rp name source_name = Inr n" "is_slug n"
    using import_group_name_ok assms(1) unfolding name_ok_def by blast
  define g where "g = \<lparr>rg_name = n, rg_enabled = True, rg_rules = rs, rg_priority = 100\<rparr>"
  have gv: "group_valid g" using n assms by (simp add: g_def group_valid_def)
  have "RuleGroup_init rp (PStr n) True (map Inl rs) 100 = Inr g" using RuleGroup_init_id[OF gv] by (simp add: g_def)
  moreover have "rg_rules g = rs" by (simp add: g_def)
  ultimately show ?thesis using n gv by (simp add: import_plan_def plan_valid_def)
qed

lemma entries_plan_typed:
  assumes "name_ok name" and "p \<noteq> []" "\<not> py_isspace (hd p)" and "\<And>k e a c. read k e = Inr (a, c) \<Longrightarrow> no_chain a"
  shows "plan_typed (res_bind (read_entries rp p read 1 es)
    (\<lambda>(rs, js). import_plan rp name source_name fmt (rs, rejected @ js)))"
proof (cases "read_entries rp p read 1 es")
  case (Inl e)
  then show ?thesis using raises_read_entries[where read = read, OF assms(4)] by (simp add: plan_typed_def raises_only_def)
next
  case (Inr x)
  obtain rs js where x: "x = (rs, js)" by (cases x)
  have "list_all rule_valid rs" "distinct (map r_id rs)"
    using read_entries_run[OF Inr[unfolded x] assms(2,3)] by simp_all
  from import_plan_ok[OF assms(1) this, of rp source_name fmt "rejected @ js"] show ?thesis
    by (auto simp: Inr x plan_typed_def)
qed

lemma simple_no_chain: "a \<in> set SIMPLE_RULE_ACTIONS \<Longrightarrow> no_chain a"
proof -
  have "\<forall>a \<in> set SIMPLE_RULE_ACTIONS. no_chain a" by code_simp
  then show "a \<in> set SIMPLE_RULE_ACTIONS \<Longrightarrow> no_chain a" by blast
qed

lemma clash_entry_no_chain: "read_clash_entry k e = Inr (a, c) \<Longrightarrow> no_chain a"
proof -
  assume "read_clash_entry k e = Inr (a, c)"
  then obtain t where "map_of CLASH_ACTION_MAP t = Some a"
    by (auto simp: read_clash_entry_def Let_def split: if_splits option.splits)
  then have "a \<in> set (map snd CLASH_ACTION_MAP)" by (force dest: map_of_SomeD)
  moreover have "\<forall>a \<in> set (map snd CLASH_ACTION_MAP). no_chain a" by code_simp
  ultimately show ?thesis by blast
qed

lemma singbox_entry_no_chain: "read_singbox_entry rp order d k e = Inr (a, c) \<Longrightarrow> no_chain a"
proof -
  assume "read_singbox_entry rp order d k e = Inr (a, c)"
  then obtain item where "singbox_action rp item d = Some a"
    by (auto simp: read_singbox_entry_def Let_def split: pyval.splits if_splits option.splits)
  then obtain t where "map_of SINGBOX_ACTION_MAP t = Some a \<or>
      a \<in> set [''direct'', ''current_profile'', ''block'', ''auto_select''] \<or> (py_startswith a ''group:'' \<and> py_strip a = a)"
    unfolding singbox_action_def Let_def by (auto simp del: list.set split: option.splits if_splits)
  moreover have "a \<in> set (map snd SINGBOX_ACTION_MAP)" if "map_of SINGBOX_ACTION_MAP t = Some a"
    using that by (force dest: map_of_SomeD)
  moreover have "\<forall>a \<in> set (map snd SINGBOX_ACTION_MAP). no_chain a"
    "\<forall>a \<in> set [''direct'', ''current_profile'', ''block'', ''auto_select'']. no_chain a" by code_simp+
  moreover have "no_chain a" if "py_startswith a ''group:''" "py_strip a = a"
    using that by (cases a) (auto simp: no_chain_def py_startswith_def)
  ultimately show ?thesis by blast
qed

lemma simple_entries_typed:
  assumes "name_ok name" and "no_chain default_action"
  shows "plan_typed (plan_from_simple_entries rp es source_name name default_action)"
proof -
  have "\<not> py_isspace (hd ''simple'')" by code_simp
  moreover have "no_chain a" if "read_simple_entry default_action k e = Inr (a, c)" for k e a c
    using that assms(2) by (auto simp: read_simple_entry_def split: option.splits)
  ultimately show ?thesis
    using entries_plan_typed[OF assms(1), of "''simple''" "read_simple_entry default_action" rp es source_name
        "''simple-domain-ip-list''" "[]"]
    by (simp add: plan_from_simple_entries_def case_prod_eta)
qed

lemma clash_rules_typed:
  assumes "name_ok name"
  shows "plan_typed (plan_from_clash_rules rp es rejected source_name name)"
proof -
  have "\<not> py_isspace (hd ''clash'')" by code_simp
  then show ?thesis
    using entries_plan_typed[OF assms, of "''clash''" read_clash_entry rp es source_name "''clash-rule-list''" rejected]
      clash_entry_no_chain
    by (simp add: plan_from_clash_rules_def)
qed

lemma singbox_rules_typed:
  assumes "name_ok name"
  shows "plan_typed (plan_from_singbox_rules rp order es source_name name default_action fmt)"
proof -
  have "\<not> py_isspace (hd ''singbox'')" by code_simp
  then show ?thesis
    using entries_plan_typed[OF assms, of "''singbox''" "read_singbox_entry rp order default_action" rp es source_name fmt "[]"]
      singbox_entry_no_chain
    by (simp add: plan_from_singbox_rules_def case_prod_eta)
qed

lemma watchdog_group_typed:
  "plan_typed (res_except GROUP_ERRORS RuleImportError (res_bind (RuleGroup_from_dict rp d) (\<lambda>g.
     Inr \<lparr>ip_group = g, ip_source_format = fmt, ip_rejected = [], ip_warnings = []\<rparr>)))"
proof -
  have "raises_only (set GROUP_ERRORS \<union> {RuleImportError}) (RuleGroup_from_dict rp d)"
    by (rule raises_group_from_dict) (simp add: GROUP_ERRORS_def VALUE_ERRORS_def)
  then show ?thesis
    by (cases "RuleGroup_from_dict rp d")
      (auto simp: plan_typed_def plan_valid_def res_except_def dest: RuleGroup_from_dict_valid)
qed

lemma json_plan_typed:
  assumes "name_ok name" and "no_chain default_action"
  shows "plan_typed (plan_from_json rp order raw source_name name default_action)"
proof -
  have "plan_typed (Inl RuleImportError)" by (simp add: plan_typed_def)
  then show ?thesis
    using simple_entries_typed[OF assms] clash_rules_typed[OF assms(1)] singbox_rules_typed[OF assms(1)] watchdog_group_typed
    by (auto simp: plan_from_json_def plan_from_list_def Let_def split: pyval.split option.split)
qed


definition sample_list_text :: string where
  "sample_list_text = ''# blocked'' @ [CHR 0x0A] @ ''ads.example.com'' @ [CHR 0x0A] @ ''10.0.0.0/8'' @ [CHR 0x0A]"




section \<open>Exported rules\<close>

text \<open>A rule as a Python value: its conditions have no duplicate key. Their order in the dict is immaterial.\<close>

definition conditions_sorted :: "rule \<Rightarrow> rule" where
  "conditions_sorted r = r\<lparr>r_conditions := sort_key fst (r_conditions r)\<rparr>"

lemma sorted_conditions_value: "sort_keys (conditions_value cs) = conditions_value (sort_key fst cs)"
proof -
  have list: "sort_keys_list (map PStr vs) = map PStr vs" for vs by (simp add: sort_keys_list_map)
  have "sort_keys_members (map (\<lambda>(k, vs). (k, PList (map PStr vs))) cs) = map (\<lambda>(k, vs). (k, PList (map PStr vs))) cs"
    by (simp add: sort_keys_members_map list case_prod_unfold)
  then show ?thesis
    by (simp add: conditions_value_def sort_key_map case_prod_unfold)
qed

lemma sorted_rule_dict:
  "sort_keys (PDict (Rule_to_dict r)) = PDict
     [(''action'', PStr (r_action r)),
      (''conditions'', conditions_value (sort_key fst (r_conditions r))),
      (''enabled'', PBool (r_enabled r)),
      (''id'', PStr (r_id r))]"
  by (simp add: Rule_to_dict_def sorted_conditions_value)

lemma conditions_sorted_valid: "rule_valid r \<Longrightarrow> rule_valid (conditions_sorted r)"
proof -
  have "sort_key fst cs = [] \<longleftrightarrow> cs = []" for cs :: conditions by (metis length_0_conv length_sort)
  then show "rule_valid r \<Longrightarrow> rule_valid (conditions_sorted r)"
    by (simp add: rule_valid_def conditions_sorted_def list_all_iff)
qed

lemma read_sorted_rule: "rule_valid r \<Longrightarrow> Rule_from_dict rp (sort_keys (PDict (Rule_to_dict r))) = Inr (conditions_sorted r)"
proof -
  assume r: "rule_valid r"
  have "object_fields (sort_keys (PDict (Rule_to_dict r))) RULE_FIELDS = Inr
     [(''action'', PStr (r_action r)), (''conditions'', conditions_value (sort_key fst (r_conditions r))),
      (''enabled'', PBool (r_enabled r)), (''id'', PStr (r_id r))]"
    unfolding sorted_rule_dict by (simp add: object_fields_Inr RULE_FIELDS_def)
  then show ?thesis
    using Rule_init_id[OF conditions_sorted_valid[OF r], of rp "r_enabled r"]
    by (simp add: Rule_from_dict_def dict_item_def dict_get_def conditions_sorted_def)
qed

lemma rule_dict_ok: "distinct (map fst (r_conditions r)) \<Longrightarrow> json_ok (PDict (Rule_to_dict r))"
  by (auto simp: Rule_to_dict_def conditions_value_def json_ok_members_iff json_ok_list_iff case_prod_unfold comp_def)

text \<open>
  C0. Exported rules are read back. Whatever well-formed rules \<open>export_watchdogvpn_json\<close> writes as a JSON text,
  \<open>parse_watchdogvpn_json\<close> returns from that text, character by character through the encoder and the decoder: the
  same rules in the same order, their conditions listed by key, and each matching exactly the same traffic.
\<close>

theorem exported_rules_read_back:
  assumes "list_all rule_valid rules" and "list_all (\<lambda>r. distinct (map fst (r_conditions r))) rules"
  shows "parse_watchdogvpn_json rp (PStr (export_watchdogvpn_json rules)) = Inr (map conditions_sorted rules) \<and>
    (\<forall>rs t r. rule_holds rs t (conditions_sorted r) = rule_holds rs t r)"
proof
  define v where "v = PList (map (PDict \<circ> Rule_to_dict) rules)"
  have "json_ok v" using assms(2) by (auto simp: v_def json_ok_list_iff list_all_iff rule_dict_ok simp del: json_ok.simps(3))
  then have "json_loads (export_watchdogvpn_json rules) = Some (sort_keys v)"
    unfolding export_watchdogvpn_json_def v_def[symmetric] by (rule json_dumps_round_trip)
  moreover have "sort_keys v = PList (map (\<lambda>r. sort_keys (PDict (Rule_to_dict r))) rules)"
    by (simp add: v_def sort_keys_list_map del: sort_keys.simps(2))
  moreover have "res_map (Rule_from_dict rp) (map (\<lambda>r. sort_keys (PDict (Rule_to_dict r))) rules) = Inr (map conditions_sorted rules)"
    using assms(1) by (induction rules) (simp_all add: read_sorted_rule del: sort_keys.simps)
  ultimately show "parse_watchdogvpn_json rp (PStr (export_watchdogvpn_json rules)) = Inr (map conditions_sorted rules)"
    by (simp add: parse_watchdogvpn_json_def load_json_payload_def res_except_def)
  show "\<forall>rs t r. rule_holds rs t (conditions_sorted r) = rule_holds rs t r"
    by (simp add: rule_holds_def conditions_sorted_def)
qed

theorem exported_rules_read_back_witness:
  "parse_watchdogvpn_json (\<lambda>v. []) (PStr (export_watchdogvpn_json [sample_rule ''r0'' ''direct'' ''domain'' ''a.example''])) =
     Inr [sample_rule ''r0'' ''direct'' ''domain'' ''a.example'']"
proof -
  have "list_all rule_valid [sample_rule ''r0'' ''direct'' ''domain'' ''a.example'']" by code_simp
  moreover have "list_all (\<lambda>r. distinct (map fst (r_conditions r))) [sample_rule ''r0'' ''direct'' ''domain'' ''a.example'']"
    by code_simp
  moreover have "conditions_sorted (sample_rule ''r0'' ''direct'' ''domain'' ''a.example'') = sample_rule ''r0'' ''direct'' ''domain'' ''a.example''"
    by (simp add: conditions_sorted_def sample_rule_def)
  ultimately show ?thesis using exported_rules_read_back[of "[sample_rule ''r0'' ''direct'' ''domain'' ''a.example'']" "\<lambda>v. []"] by simp
qed

end
