(* ===== verification/App_Config.thy ===== *)
theory App_Config
  imports Health Error_Classes Py_Text "HOL-Library.List_Lexorder" "HOL-Library.Char_ord"
begin

text \<open>
  \<open>src/config/app_config.py\<close>: the configuration file, its defaults, migrations and validation, and
  \<open>validate_targets\<close> of \<open>src/rotation/health_targets.py\<close>. The TOML text is seen as its parsed table of tables;
  dates and times, which TOML has and JSON has not, are left out. The environment variable that admits a wildcard
  bind address is the parameter \<open>wild\<close>. IPv4-mapped IPv6 addresses are judged as IPv6 addresses, as Python did
  before version 3.13.
\<close>

section \<open>Health targets\<close>

definition LEGACY_UNRELIABLE_HEALTH_TARGETS :: "string list" where
  "LEGACY_UNRELIABLE_HEALTH_TARGETS =
     [''https://www.cloudflare.com/cdn-cgi/trace'', ''https://www.ietf.org/'', ''https://www.wikipedia.org/'']"

definition DEFAULT_HEALTH_TARGETS :: "string list" where
  "DEFAULT_HEALTH_TARGETS =
     [''https://www.facebook.com/'', ''https://www.instagram.com/'', ''https://www.youtube.com/'']"

text \<open>
  \<open>urllib.parse.urlsplit\<close>, as far as the check reads it: leading control characters and spaces and all tabs and
  line breaks are removed, the scheme ends at the first colon, the network location runs to the next slash,
  question mark or hash, and the fragment follows the first hash. A bracketed host must be an IPv6 or
  future address, else \<open>ValueError\<close> is raised.
\<close>

record split_url =
  su_scheme :: string
  su_netloc :: string
  su_fragment :: string

definition url_clean :: "string \<Rightarrow> string" where
  "url_clean s = filter (\<lambda>c. c \<notin> set [CHR 0x09, CHR 0x0A, CHR 0x0D]) (dropWhile (\<lambda>c. py_code c \<le> 32) s)"

definition ascii_letter :: "char \<Rightarrow> bool" where
  "ascii_letter c = (let n = py_code c in (65 \<le> n \<and> n \<le> 90) \<or> (97 \<le> n \<and> n \<le> 122))"

definition scheme_char :: "char \<Rightarrow> bool" where
  "scheme_char c \<longleftrightarrow> ascii_letter c \<or> is_digit c \<or> c \<in> set ''+-.''"

definition url_scheme :: "string \<Rightarrow> string \<times> string" where
  "url_scheme s =
     (let p = before_char (CHR '':'') s in
      case after_char (CHR '':'') s of
        Some rest \<Rightarrow> if p \<noteq> [] \<and> ascii_letter (hd p) \<and> list_all scheme_char p then (py_lower p, rest) else ([], s)
      | None \<Rightarrow> ([], s))"

definition after_at :: "string \<Rightarrow> string" where
  "after_at s = rev (takeWhile (\<lambda>c. c \<noteq> CHR ''@'') (rev s))"

definition bracketed_host_ok :: "string \<Rightarrow> bool" where
  "bracketed_host_ok h =
     (if py_startswith h ''v'' then
        (let ds = takeWhile is_hex (drop 1 h); rest = dropWhile is_hex (drop 1 h) in
         ds \<noteq> [] \<and> py_startswith rest ''.'' \<and> drop 1 rest \<noteq> [])
      else case ip_address h of Some (IPv6 n z) \<Rightarrow> True | _ \<Rightarrow> False)"

definition netloc_ok :: "string \<Rightarrow> bool" where
  "netloc_ok n =
     (let opened = CHR ''['' \<in> set n; closed = CHR '']'' \<in> set n in
      if opened \<noteq> closed then False
      else if \<not> opened then True
      else case after_char (CHR ''['') (after_at n) of
          None \<Rightarrow> True
        | Some rest \<Rightarrow>
            before_char (CHR ''['') (after_at n) = [] \<and>
            (case after_char (CHR '']'') rest of None \<Rightarrow> True | Some port \<Rightarrow> port = [] \<or> hd port = CHR '':'') \<and>
            bracketed_host_ok (before_char (CHR '']'') rest))"

definition urlsplit :: "string \<Rightarrow> split_url res" where
  "urlsplit s =
     (let (scheme, rest) = url_scheme (url_clean s);
          (netloc, rest') =
            (if py_startswith rest ''//'' then
               (let u = drop 2 rest; stop = (\<lambda>c. c \<notin> set ''/?#'') in (takeWhile stop u, dropWhile stop u))
             else ([], rest));
          fragment = (case after_char (CHR ''#'') rest' of None \<Rightarrow> [] | Some f \<Rightarrow> f)
      in if netloc_ok netloc then Inr \<lparr>su_scheme = scheme, su_netloc = netloc, su_fragment = fragment\<rparr>
         else Inl ValueError)"

definition target_ok :: "string \<Rightarrow> bool res" where
  "target_ok t = res_bind (urlsplit t) (\<lambda>u.
     Inr (su_scheme u = ''https'' \<and> su_netloc u \<noteq> [] \<and> CHR ''@'' \<notin> set (su_netloc u) \<and> su_fragment u = []))"

fun targets_from :: "string list \<Rightarrow> pyval list \<Rightarrow> string list res" where
  "targets_from seen [] = Inr seen"
| "targets_from seen (item # rest) = (case item of
       PStr s \<Rightarrow>
         (let t = py_strip s in
          res_bind (target_ok t) (\<lambda>ok.
            if \<not> ok then Inl ValueError
            else if t \<in> set seen then Inl ValueError
            else targets_from (seen @ [t]) rest))
     | _ \<Rightarrow> Inl ValueError)"

definition validate_targets :: "pyval \<Rightarrow> string list res" where
  "validate_targets v = (case v of
       PList xs \<Rightarrow> if 2 \<le> length xs \<and> length xs \<le> 8 then targets_from [] xs else Inl ValueError
     | _ \<Rightarrow> Inl ValueError)"


section \<open>Defaults and fields\<close>

type_synonym config = "(string \<times> dict) list"

definition DEFAULT_CONFIG :: config where
  "DEFAULT_CONFIG =
     [(''watchdog'',
        [(''check_interval_seconds'', PInt 30), (''reconnect_attempts'', PInt 3), (''reconnect_backoff_seconds'', PInt 10)]),
      (''kill_switch'',
        [(''enabled'', PBool False), (''block_ipv6'', PBool True), (''allow_lan'', PBool True),
         (''tunnel_interface'', PStr ''wdvpn-tun0''), (''on_manual_disconnect'', PStr ''disable'')]),
      (''dns'', [(''mode'', PStr ''auto'')]),
      (''rotation'',
        [(''enabled'', PBool False), (''health_status_cooldown_seconds'', PInt 300),
         (''max_backoff_interval_seconds'', PInt 300), (''scheduled_interval_hours'', PInt 0),
         (''health_targets'', PList (map PStr DEFAULT_HEALTH_TARGETS)), (''health_success_quorum'', PInt 2),
         (''test_timeout_seconds'', PInt 5), (''latency_max_stale_seconds'', PInt 300)]),
      (''lan_sharing'',
        [(''enabled'', PBool False), (''mode'', PStr ''disabled''), (''bind_address'', PStr []),
         (''socks_port'', PInt 2080), (''http_port'', PInt 2081), (''authentication_required'', PBool True),
         (''firewall_managed'', PBool False), (''gateway_interface'', PStr []), (''gateway_client_cidr'', PStr []),
         (''gateway_dns_mode'', PStr ''manual'')])]"

definition CONFIG_BOOL_FIELDS :: "(string \<times> string) list" where
  "CONFIG_BOOL_FIELDS =
     [(''kill_switch'', ''enabled''), (''kill_switch'', ''block_ipv6''), (''kill_switch'', ''allow_lan''),
      (''rotation'', ''enabled''), (''lan_sharing'', ''enabled''), (''lan_sharing'', ''authentication_required''),
      (''lan_sharing'', ''firewall_managed'')]"

definition CONFIG_INT_FIELDS :: "(string \<times> string) list" where
  "CONFIG_INT_FIELDS =
     [(''watchdog'', ''check_interval_seconds''), (''watchdog'', ''reconnect_attempts''),
      (''watchdog'', ''reconnect_backoff_seconds''), (''rotation'', ''health_status_cooldown_seconds''),
      (''rotation'', ''max_backoff_interval_seconds''), (''rotation'', ''scheduled_interval_hours''),
      (''rotation'', ''test_timeout_seconds''), (''rotation'', ''health_success_quorum''),
      (''rotation'', ''latency_max_stale_seconds''), (''lan_sharing'', ''socks_port''), (''lan_sharing'', ''http_port'')]"

definition CONFIG_STRING_FIELDS :: "(string \<times> string) list" where
  "CONFIG_STRING_FIELDS =
     [(''kill_switch'', ''tunnel_interface''), (''kill_switch'', ''on_manual_disconnect''), (''dns'', ''mode''),
      (''lan_sharing'', ''mode''), (''lan_sharing'', ''bind_address''), (''lan_sharing'', ''gateway_interface''),
      (''lan_sharing'', ''gateway_client_cidr''), (''lan_sharing'', ''gateway_dns_mode'')]"

definition CONFIG_STRING_LIST_FIELDS :: "(string \<times> string) list" where
  "CONFIG_STRING_LIST_FIELDS = [(''rotation'', ''health_targets'')]"

definition validate_field :: "string \<Rightarrow> string \<Rightarrow> pyval \<Rightarrow> pyval res" where
  "validate_field section key v =
     (if (section, key) \<in> set CONFIG_BOOL_FIELDS then res_bind (strict_bool v) (\<lambda>b. Inr (PBool b))
      else if (section, key) \<in> set CONFIG_INT_FIELDS then
        res_bind (strict_int v) (\<lambda>n. if n < 0 then Inl PersistentValidationError else Inr (PInt n))
      else if (section, key) \<in> set CONFIG_STRING_FIELDS then
        (case v of PStr s \<Rightarrow> Inr (PStr s) | _ \<Rightarrow> Inl PersistentValidationError)
      else if (section, key) \<in> set CONFIG_STRING_LIST_FIELDS then
        (case validate_targets v of Inl e \<Rightarrow> Inl PersistentValidationError | Inr ts \<Rightarrow> Inr (PList (map PStr ts)))
      else Inr v)"

fun validate_entry :: "string \<Rightarrow> dict \<Rightarrow> string \<times> pyval \<Rightarrow> (string \<times> pyval) res" where
  "validate_entry section defaults (k, v) =
     (if k \<notin> set (map fst defaults) then Inl PersistentValidationError
      else res_bind (validate_field section k v) (\<lambda>w. Inr (k, w)))"

fun validate_section :: "string \<times> dict \<Rightarrow> (string \<times> dict) res" where
  "validate_section (section, values) = (case map_of DEFAULT_CONFIG section of
       None \<Rightarrow> Inl PersistentValidationError
     | Some defaults \<Rightarrow> res_bind (res_map (validate_entry section defaults) values) (\<lambda>d. Inr (section, d)))"


section \<open>Checks across fields\<close>

text \<open>\<open>validated[section][key]\<close>, a field of a known type once the sections are validated.\<close>

definition cfg_item :: "config \<Rightarrow> string \<Rightarrow> string \<Rightarrow> pyval res" where
  "cfg_item c section key = (case map_of c section of None \<Rightarrow> Inl KeyError | Some d \<Rightarrow> dict_item d key)"

definition cfg_int :: "config \<Rightarrow> string \<Rightarrow> string \<Rightarrow> int res" where
  "cfg_int c section key = res_bind (cfg_item c section key) (\<lambda>v. case v of PInt n \<Rightarrow> Inr n | _ \<Rightarrow> Inl TypeError)"

definition cfg_str :: "config \<Rightarrow> string \<Rightarrow> string \<Rightarrow> string res" where
  "cfg_str c section key = res_bind (cfg_item c section key) (\<lambda>v. case v of PStr s \<Rightarrow> Inr s | _ \<Rightarrow> Inl TypeError)"

definition cfg_bool :: "config \<Rightarrow> string \<Rightarrow> string \<Rightarrow> bool res" where
  "cfg_bool c section key = res_bind (cfg_item c section key) (\<lambda>v. case v of PBool b \<Rightarrow> Inr b | _ \<Rightarrow> Inl TypeError)"

definition cfg_put :: "config \<Rightarrow> string \<Rightarrow> string \<Rightarrow> pyval \<Rightarrow> config" where
  "cfg_put c section key v = map (\<lambda>(s, d). if s = section then (s, dict_put d key v) else (s, d)) c"

fun addr_unspecified :: "ip_addr \<Rightarrow> bool" where
  "addr_unspecified (IPv4 n) = (n = 0)"
| "addr_unspecified (IPv6 n z) = (n = 0)"

fun addr_loopback :: "ip_addr \<Rightarrow> bool" where
  "addr_loopback (IPv4 n) = (n div 2 ^ 24 = 127)"
| "addr_loopback (IPv6 n z) = (n = 1)"

fun addr_multicast :: "ip_addr \<Rightarrow> bool" where
  "addr_multicast (IPv4 n) = (n div 2 ^ 28 = 14)"
| "addr_multicast (IPv6 n z) = (n div 2 ^ 120 = 255)"

definition validate_lan_bind_address :: "bool \<Rightarrow> string \<Rightarrow> unit res" where
  "validate_lan_bind_address wild s = (case ip_address s of
       None \<Rightarrow> Inl PersistentValidationError
     | Some a \<Rightarrow>
         if addr_unspecified a then res_guard wild PersistentValidationError
         else res_guard (\<not> addr_multicast a) PersistentValidationError)"

definition validate_gateway_interface :: "string \<Rightarrow> unit res" where
  "validate_gateway_interface s =
     (if s \<in> set [''lo'', ''all'', ''*''] then Inl PersistentValidationError
      else if list_ex py_isspace s then Inl PersistentValidationError
      else res_guard (CHR ''/'' \<notin> set s \<and> CHR 0x00 \<notin> set s) PersistentValidationError)"

text \<open>A network is loopback or multicast when its first and its last address are.\<close>

definition validate_gateway_client_cidr :: "string \<Rightarrow> unit res" where
  "validate_gateway_client_cidr s = (case ip_network s of
       Some (IPv4Net n p) \<Rightarrow>
         (let first = IPv4 n; final = IPv4 (n + 2 ^ (32 - p) - 1) in
          res_guard (p \<noteq> 0 \<and> \<not> (addr_loopback first \<and> addr_loopback final) \<and>
                     \<not> (addr_multicast first \<and> addr_multicast final)) PersistentValidationError)
     | _ \<Rightarrow> Inl PersistentValidationError)"

definition validate_enabled_lan_proxy :: "config \<Rightarrow> string \<Rightarrow> unit res" where
  "validate_enabled_lan_proxy c bind =
     (if bind = [] then Inl PersistentValidationError
      else case ip_address bind of
          None \<Rightarrow> Inl ValueError
        | Some a \<Rightarrow>
            if addr_loopback a then Inl PersistentValidationError
            else res_bind (cfg_bool c ''lan_sharing'' ''authentication_required'') (\<lambda>auth.
              res_guard auth PersistentValidationError))"

definition validate_enabled_lan_gateway :: "config \<Rightarrow> string \<Rightarrow> string \<Rightarrow> unit res" where
  "validate_enabled_lan_gateway c interface cidr =
     (if interface = [] then Inl PersistentValidationError
      else if cidr = [] then Inl PersistentValidationError
      else res_bind (cfg_bool c ''lan_sharing'' ''firewall_managed'') (\<lambda>m. res_guard m PersistentValidationError))"

definition check_ports :: "int \<Rightarrow> int \<Rightarrow> unit res" where
  "check_ports socks http =
     res_guard (1 \<le> socks \<and> socks \<le> 65535 \<and> 1 \<le> http \<and> http \<le> 65535 \<and> socks \<noteq> http) PersistentValidationError"

definition res_when :: "bool \<Rightarrow> unit res \<Rightarrow> unit res" where
  "res_when b r = (if b then r else Inr ())"

text \<open>The string fields are written back without surrounding white space.\<close>

definition strip_lan :: "config \<Rightarrow> string \<Rightarrow> (string \<times> config) res" where
  "strip_lan c key = res_bind (cfg_str c ''lan_sharing'' key) (\<lambda>s.
     Inr (py_strip s, cfg_put c ''lan_sharing'' key (PStr (py_strip s))))"

definition validate_lan_sharing :: "bool \<Rightarrow> config \<Rightarrow> config res" where
  "validate_lan_sharing wild c =
     res_bind (cfg_str c ''lan_sharing'' ''mode'') (\<lambda>mode.
     if mode \<notin> set [''disabled'', ''proxy'', ''gateway''] then Inl PersistentValidationError
     else
       res_bind (cfg_int c ''lan_sharing'' ''socks_port'') (\<lambda>socks.
       res_bind (cfg_int c ''lan_sharing'' ''http_port'') (\<lambda>http.
       res_bind (check_ports socks http) (\<lambda>_.
       res_bind (strip_lan c ''bind_address'') (\<lambda>(bind, c1).
       res_bind (res_when (bind \<noteq> []) (validate_lan_bind_address wild bind)) (\<lambda>_.
       res_bind (strip_lan c1 ''gateway_interface'') (\<lambda>(interface, c2).
       res_bind (res_when (interface \<noteq> []) (validate_gateway_interface interface)) (\<lambda>_.
       res_bind (strip_lan c2 ''gateway_client_cidr'') (\<lambda>(cidr, c3).
       res_bind (res_when (cidr \<noteq> []) (validate_gateway_client_cidr cidr)) (\<lambda>_.
       res_bind (strip_lan c3 ''gateway_dns_mode'') (\<lambda>(dns, c4).
       if dns \<notin> set [''manual''] then Inl PersistentValidationError
       else
         res_bind (cfg_bool c4 ''lan_sharing'' ''enabled'') (\<lambda>enabled.
         if \<not> enabled then Inr c4
         else if mode = ''proxy'' then res_bind (validate_enabled_lan_proxy c4 bind) (\<lambda>_. Inr c4)
         else if mode = ''gateway'' then res_bind (validate_enabled_lan_gateway c4 interface cidr) (\<lambda>_. Inr c4)
         else Inl PersistentValidationError))))))))))))"

definition check_intervals :: "config \<Rightarrow> unit res" where
  "check_intervals c =
     res_bind (cfg_int c ''watchdog'' ''check_interval_seconds'') (\<lambda>check.
     if check < 5 then Inl PersistentValidationError
     else
       res_bind (cfg_int c ''watchdog'' ''reconnect_backoff_seconds'') (\<lambda>backoff.
       res_bind (cfg_int c ''rotation'' ''max_backoff_interval_seconds'') (\<lambda>max_backoff.
       if \<not> (1 \<le> backoff \<and> backoff \<le> 86400) then Inl PersistentValidationError
       else if \<not> (1 \<le> max_backoff \<and> max_backoff \<le> 86400) then Inl PersistentValidationError
       else res_guard (backoff \<le> max_backoff) PersistentValidationError)))"

fun str_values :: "pyval \<Rightarrow> string list res" where
  "str_values (PList xs) = res_map (\<lambda>v. case v of PStr s \<Rightarrow> Inr s | _ \<Rightarrow> Inl TypeError) xs"
| "str_values v = Inl TypeError"

definition check_quorum :: "config \<Rightarrow> unit res" where
  "check_quorum c =
     res_bind (cfg_item c ''rotation'' ''health_success_quorum'') (\<lambda>q.
     res_bind (cfg_item c ''rotation'' ''health_targets'') (\<lambda>v.
     res_bind (str_values v) (\<lambda>ts.
       case validate_success_quorum q ts of
         Inl e \<Rightarrow> Inl PersistentValidationError
       | Inr n \<Rightarrow> Inr ())))"

definition check_policies :: "config \<Rightarrow> unit res" where
  "check_policies c =
     res_bind (cfg_str c ''kill_switch'' ''on_manual_disconnect'') (\<lambda>policy.
     if policy \<notin> set [''disable'', ''keep''] then Inl PersistentValidationError
     else res_bind (cfg_str c ''dns'' ''mode'') (\<lambda>mode.
       res_guard (mode \<in> set [''auto'', ''off'', ''custom'', ''advanced'']) PersistentValidationError))"

definition check_timeout :: "config \<Rightarrow> unit res" where
  "check_timeout c = res_bind (cfg_int c ''rotation'' ''test_timeout_seconds'') (\<lambda>t.
     res_guard (1 \<le> t) PersistentValidationError)"

definition validate_config :: "bool \<Rightarrow> config \<Rightarrow> config res" where
  "validate_config wild c =
     res_bind (res_map validate_section c) (\<lambda>v.
     res_bind (check_policies v) (\<lambda>_.
     res_bind (check_intervals v) (\<lambda>_.
     res_bind (check_quorum v) (\<lambda>_.
     res_bind (check_timeout v) (\<lambda>_.
       validate_lan_sharing wild v)))))"


section \<open>Load and save\<close>

text \<open>\<open>dict.update\<close>, and \<open>merged.setdefault(section, {}).update(values)\<close> for each table of the file.\<close>

fun put_all :: "dict \<Rightarrow> dict \<Rightarrow> dict" where
  "put_all d [] = d"
| "put_all d ((k, v) # values) = put_all (dict_put d k v) values"

fun merge_section :: "config \<Rightarrow> string \<Rightarrow> dict \<Rightarrow> config" where
  "merge_section [] section values = [(section, put_all [] values)]"
| "merge_section ((s, d) # c) section values =
     (if s = section then (s, put_all d values) # c
      else (s, d) # merge_section c section values)"

fun merge_tables :: "config \<Rightarrow> dict \<Rightarrow> config res" where
  "merge_tables c [] = Inr c"
| "merge_tables c ((section, v) # rest) = (case v of
       PDict values \<Rightarrow> merge_tables (merge_section c section values) rest
     | _ \<Rightarrow> Inl PersistentValidationError)"

text \<open>The migrations of the rotation table: the single legacy test address, and the old default targets.\<close>

definition migrate_test_url :: "dict \<Rightarrow> dict" where
  "migrate_test_url rotation = (case map_of rotation ''test_url'' of
       None \<Rightarrow> rotation
     | Some legacy \<Rightarrow>
         (let rest = filter (\<lambda>p. fst p \<noteq> ''test_url'') rotation in
          if ''health_targets'' \<in> set (map fst rest) then rest
          else dict_put rest ''health_targets''
            (PList (legacy # filter (\<lambda>t. t \<noteq> legacy) (map PStr DEFAULT_HEALTH_TARGETS)))))"

definition migrate_targets :: "dict \<Rightarrow> dict" where
  "migrate_targets rotation =
     (if map_of rotation ''health_targets'' = Some (PList (map PStr LEGACY_UNRELIABLE_HEALTH_TARGETS))
      then dict_put rotation ''health_targets'' (PList (map PStr DEFAULT_HEALTH_TARGETS))
      else rotation)"

definition migrate_rotation :: "dict \<Rightarrow> dict" where
  "migrate_rotation data = (case map_of data ''rotation'' of
       Some (PDict rotation) \<Rightarrow> dict_put data ''rotation'' (PDict (migrate_targets (migrate_test_url rotation)))
     | _ \<Rightarrow> data)"

definition AppConfig_load :: "bool \<Rightarrow> json_file \<Rightarrow> config res" where
  "AppConfig_load wild f = (case f of
       FMissing \<Rightarrow> Inr DEFAULT_CONFIG
     | FMalformed \<Rightarrow> Inl PersistentStoreError
     | FJson (PDict data) \<Rightarrow>
         res_bind (merge_tables DEFAULT_CONFIG (migrate_rotation data)) (validate_config wild)
     | FJson _ \<Rightarrow> Inl PersistentValidationError)"

definition config_value :: "config \<Rightarrow> dict" where
  "config_value c = map (\<lambda>(s, d). (s, PDict d)) c"

definition AppConfig_save :: "bool \<Rightarrow> dict \<Rightarrow> json_file res" where
  "AppConfig_save wild data =
     res_bind (merge_tables DEFAULT_CONFIG data) (\<lambda>payload.
     res_bind (validate_config wild payload) (\<lambda>v. Inr (FJson (PDict (config_value v)))))"


section \<open>The shape of a configuration\<close>

definition config_shape :: "config \<Rightarrow> (string \<times> string list) list" where
  "config_shape c = map (\<lambda>(s, d). (s, map fst d)) c"

definition config_fields :: "config \<Rightarrow> bool" where
  "config_fields c \<longleftrightarrow> config_shape c = config_shape DEFAULT_CONFIG \<and>
     (\<forall>(s, d) \<in> set c. \<forall>(k, v) \<in> set d. validate_field s k v = Inr v)"

lemma default_shape_distinct:
  "distinct (map fst (config_shape DEFAULT_CONFIG)) \<and> (\<forall>(s, ks) \<in> set (config_shape DEFAULT_CONFIG). distinct ks)"
  by code_simp

lemma field_tables:
  "\<forall>(s, k) \<in> set (CONFIG_BOOL_FIELDS @ CONFIG_INT_FIELDS @ CONFIG_STRING_FIELDS @ CONFIG_STRING_LIST_FIELDS).
     (case map_of (config_shape DEFAULT_CONFIG) s of None \<Rightarrow> False | Some ks \<Rightarrow> k \<in> set ks)"
  "\<forall>f \<in> set CONFIG_INT_FIELDS. f \<notin> set CONFIG_BOOL_FIELDS"
  "\<forall>f \<in> set CONFIG_STRING_FIELDS. f \<notin> set CONFIG_BOOL_FIELDS \<and> f \<notin> set CONFIG_INT_FIELDS"
  "\<forall>f \<in> set CONFIG_STRING_LIST_FIELDS. f \<notin> set CONFIG_BOOL_FIELDS \<and> f \<notin> set CONFIG_INT_FIELDS \<and> f \<notin> set CONFIG_STRING_FIELDS"
  by code_simp+

lemma map_of_shape: "map_of (config_shape c) s = map_option (map fst) (map_of c s)"
  by (induction c) (auto simp: config_shape_def)

lemma shape_keys: "map fst (config_shape c) = map fst c"
  by (induction c) (auto simp: config_shape_def)

lemma cfg_item_field:
  assumes c: "config_fields c"
    and f: "(s, k) \<in> set (CONFIG_BOOL_FIELDS @ CONFIG_INT_FIELDS @ CONFIG_STRING_FIELDS @ CONFIG_STRING_LIST_FIELDS)"
  obtains v where "cfg_item c s k = Inr v" "validate_field s k v = Inr v"
proof -
  have sh: "config_shape c = config_shape DEFAULT_CONFIG"
    and all: "\<forall>(s, d) \<in> set c. \<forall>(k, v) \<in> set d. validate_field s k v = Inr v"
    using c unfolding config_fields_def by - (erule conjE, assumption)+
  obtain ks where ks: "map_of (config_shape c) s = Some ks" "k \<in> set ks"
    using bspec[OF field_tables(1) f] unfolding sh by (auto split: option.splits)
  obtain d where d: "map_of c s = Some d" "ks = map fst d" using ks(1) by (auto simp: map_of_shape)
  have "map_of d k \<noteq> None" using ks(2) unfolding d(2) map_of_eq_None_iff by simp
  then obtain v where v: "map_of d k = Some v" by blast
  have "validate_field s k v = Inr v" using bspec[OF all map_of_SomeD[OF d(1)]] map_of_SomeD[OF v] by auto
  then show thesis using that d v by (simp add: cfg_item_def dict_item_def)
qed

lemma validate_field_kinds:
  "f \<in> set CONFIG_BOOL_FIELDS \<Longrightarrow> validate_field (fst f) (snd f) v = res_bind (strict_bool v) (\<lambda>b. Inr (PBool b))"
  "f \<in> set CONFIG_INT_FIELDS \<Longrightarrow> validate_field (fst f) (snd f) v =
     res_bind (strict_int v) (\<lambda>n. if n < 0 then Inl PersistentValidationError else Inr (PInt n))"
  "f \<in> set CONFIG_STRING_FIELDS \<Longrightarrow> validate_field (fst f) (snd f) v = (case v of PStr s \<Rightarrow> Inr (PStr s) | _ \<Rightarrow> Inl PersistentValidationError)"
  "f \<in> set CONFIG_STRING_LIST_FIELDS \<Longrightarrow> validate_field (fst f) (snd f) v =
     (case validate_targets v of Inl e \<Rightarrow> Inl PersistentValidationError | Inr ts \<Rightarrow> Inr (PList (map PStr ts)))"
  using bspec[OF field_tables(2), of f] bspec[OF field_tables(3), of f] bspec[OF field_tables(4), of f]
  unfolding validate_field_def prod.collapse by (simp_all only: if_True if_False not_False_eq_True simp_thms)

lemma field_value:
  assumes "config_fields c" "f \<in> set (CONFIG_BOOL_FIELDS @ CONFIG_INT_FIELDS @ CONFIG_STRING_FIELDS @ CONFIG_STRING_LIST_FIELDS)"
  obtains v where "cfg_item c (fst f) (snd f) = Inr v" "validate_field (fst f) (snd f) v = Inr v"
  by (rule cfg_item_field[OF assms(1), of "fst f" "snd f"]) (use assms(2) that in \<open>simp_all only: prod.collapse\<close>)

lemma cfg_bool_field:
  assumes "config_fields c" "f \<in> set CONFIG_BOOL_FIELDS"
  obtains b where "cfg_bool c (fst f) (snd f) = Inr b"
proof -
  obtain v where v: "cfg_item c (fst f) (snd f) = Inr v" "validate_field (fst f) (snd f) v = Inr v"
    by (rule field_value[OF assms(1), of f]) (use assms(2) in simp_all)
  then obtain b where "v = PBool b" using validate_field_kinds(1)[OF assms(2), of v] by auto
  then show thesis using that v by (simp add: cfg_bool_def)
qed

lemma cfg_int_field:
  assumes "config_fields c" "f \<in> set CONFIG_INT_FIELDS"
  obtains n where "cfg_int c (fst f) (snd f) = Inr n" "0 \<le> n"
proof -
  obtain v where v: "cfg_item c (fst f) (snd f) = Inr v" "validate_field (fst f) (snd f) v = Inr v"
    by (rule field_value[OF assms(1), of f]) (use assms(2) in simp_all)
  then obtain n where "v = PInt n" "0 \<le> n" using validate_field_kinds(2)[OF assms(2), of v] by (auto split: if_splits)
  then show thesis using that v by (simp add: cfg_int_def)
qed

lemma cfg_str_field:
  assumes "config_fields c" "f \<in> set CONFIG_STRING_FIELDS"
  obtains t where "cfg_str c (fst f) (snd f) = Inr t"
proof -
  obtain v where v: "cfg_item c (fst f) (snd f) = Inr v" "validate_field (fst f) (snd f) v = Inr v"
    by (rule field_value[OF assms(1), of f]) (use assms(2) in simp_all)
  then obtain t where "v = PStr t" using validate_field_kinds(3)[OF assms(2), of v] by (cases v) auto
  then show thesis using that v by (simp add: cfg_str_def)
qed

lemma cfg_targets_field:
  assumes "config_fields c"
  obtains ts where "cfg_item c ''rotation'' ''health_targets'' = Inr (PList (map PStr ts))" "validate_targets (PList (map PStr ts)) = Inr ts"
proof -
  have f: "(''rotation'', ''health_targets'') \<in> set CONFIG_STRING_LIST_FIELDS" by (simp add: CONFIG_STRING_LIST_FIELDS_def)
  obtain v where v: "cfg_item c ''rotation'' ''health_targets'' = Inr v" "validate_field ''rotation'' ''health_targets'' v = Inr v"
    by (rule field_value[OF assms, of "(''rotation'', ''health_targets'')"]) (use f in simp_all)
  then obtain ts where "validate_targets v = Inr ts" "v = PList (map PStr ts)"
    using validate_field_kinds(4)[OF f, of v] by (cases "validate_targets v") auto
  then show thesis using that v by simp
qed


section \<open>Validation settles in one step\<close>

lemma targets_from_again: "targets_from seen xs = Inr ts \<Longrightarrow> \<exists>us. ts = seen @ us \<and> length us = length xs \<and> targets_from seen (map PStr us) = Inr ts"
proof (induction seen xs arbitrary: ts rule: targets_from.induct)
  case (2 seen item rest)
  then obtain s where s: "item = PStr s" "target_ok (py_strip s) = Inr True" "py_strip s \<notin> set seen"
    "targets_from (seen @ [py_strip s]) rest = Inr ts"
    by (auto simp: Let_def split: pyval.splits if_splits)
  then obtain us where "ts = (seen @ [py_strip s]) @ us" "length us = length rest" "targets_from (seen @ [py_strip s]) (map PStr us) = Inr ts"
    using "2.IH"[OF s(1) refl] by fastforce
  then show ?case using s by (intro exI[of _ "py_strip s # us"]) (simp add: Let_def)
qed simp

lemma validate_targets_again: "validate_targets v = Inr ts \<Longrightarrow> validate_targets (PList (map PStr ts)) = Inr ts \<and> 2 \<le> length ts \<and> length ts \<le> 8"
  using targets_from_again[of "[]"] by (fastforce simp: validate_targets_def split: pyval.splits if_splits)

lemma validate_field_again: "validate_field s k v = Inr w \<Longrightarrow> validate_field s k w = Inr w"
  by (auto simp: validate_field_def split: if_splits pyval.splits sum.splits dest: validate_targets_again)

lemma entries_validated:
  assumes "res_map (validate_entry s d0) d = Inr d'"
  shows "map fst d' = map fst d \<and> set (map fst d) \<subseteq> set (map fst d0) \<and> (\<forall>(k, v) \<in> set d'. validate_field s k v = Inr v) \<and>
    res_map (validate_entry s d0) d' = Inr d'"
  using assms unfolding res_map_Inr_iff
proof (induction d d' rule: list_all2_induct)
  case (Cons x xs y ys)
  obtain k v where x: "x = (k, v)" by (cases x)
  then obtain w where y: "y = (k, w)" "k \<in> set (map fst d0)" "validate_field s k v = Inr w"
    using Cons(1) by (auto split: if_splits)
  then show ?case using Cons validate_field_again[OF y(3)] by (simp add: x)
qed simp

lemma validate_section_shape:
  assumes "validate_section (s, d) = Inr (s', d')"
  shows "s' = s \<and> map fst d' = map fst d \<and> (\<exists>d0. map_of DEFAULT_CONFIG s = Some d0 \<and> set (map fst d) \<subseteq> set (map fst d0)) \<and>
    (\<forall>(k, v) \<in> set d'. validate_field s k v = Inr v) \<and> validate_section (s, d') = Inr (s, d')"
proof (cases "map_of DEFAULT_CONFIG s")
  case (Some d0)
  with assms have r: "s' = s" "res_map (validate_entry s d0) d = Inr d'" by auto
  show ?thesis using entries_validated[OF r(2)] by (simp add: r(1) Some)
qed (use assms in simp)

lemma validate_sections_shape:
  assumes "res_map validate_section c = Inr v"
  shows "config_shape v = config_shape c \<and> (\<forall>(s, d) \<in> set v. \<forall>(k, w) \<in> set d. validate_field s k w = Inr w) \<and>
    res_map validate_section v = Inr v \<and>
    (\<forall>(s, d) \<in> set c. \<exists>d0. map_of DEFAULT_CONFIG s = Some d0 \<and> set (map fst d) \<subseteq> set (map fst d0))"
  using assms unfolding res_map_Inr_iff
proof (induction c v rule: list_all2_induct)
  case (Cons x xs y ys)
  obtain s d s' d' where x: "x = (s, d)" "y = (s', d')" by (cases x, cases y)
  show ?case using Cons validate_section_shape[of s d s' d'] by (simp add: x config_shape_def del: validate_section.simps)
qed (simp add: config_shape_def)


section \<open>Merging over the defaults\<close>

lemma keys_put: "\<exists>r. map fst (dict_put d k v) = map fst d @ r"
proof (induction d)
  case (Cons p d)
  then show ?case by (cases p) auto
qed simp

lemma keys_put_all:
  "distinct (map fst d) \<Longrightarrow> distinct (map fst (put_all d vs)) \<and> (\<exists>r. map fst (put_all d vs) = map fst d @ r)"
proof (induction d vs rule: put_all.induct)
  case (2 d k v vs)
  obtain r where r: "map fst (dict_put d k v) = map fst d @ r" using keys_put[of d k v] by (rule exE)
  show ?case using "2.IH"[OF distinct_dict_put[OF "2.prems", of k v]] unfolding put_all.simps r by auto
qed simp

fun table_extends :: "string \<times> dict \<Rightarrow> string \<times> dict \<Rightarrow> bool" where
  "table_extends (s, d) (s', d') \<longleftrightarrow> s = s' \<and> distinct (map fst d) \<and> distinct (map fst d') \<and> (\<exists>r. map fst d' = map fst d @ r)"

definition config_extends :: "config \<Rightarrow> config \<Rightarrow> bool" where
  "config_extends c0 c \<longleftrightarrow> (\<exists>c1 c2. c = c1 @ c2 \<and> list_all2 table_extends c0 c1)"

lemma table_extends_trans: "table_extends x y \<Longrightarrow> table_extends y z \<Longrightarrow> table_extends x z"
  by (cases x; cases y; cases z) auto

lemma config_extends_trans:
  assumes "config_extends a b" "config_extends b c"
  shows "config_extends a c"
proof -
  obtain b1 b2 c1 c2 where *: "b = b1 @ b2" "list_all2 table_extends a b1" "c = c1 @ c2" "list_all2 table_extends (b1 @ b2) c1"
    using assms unfolding config_extends_def by blast
  then obtain u v where "c1 = u @ v" "list_all2 table_extends b1 u" by (auto simp: list_all2_append1)
  then have "c = u @ (v @ c2)" "list_all2 table_extends a u"
    using * list_all2_trans[of table_extends table_extends table_extends a b1 u] table_extends_trans by auto
  then show ?thesis unfolding config_extends_def by (intro exI conjI)
qed

lemma merge_section_extends:
  assumes "\<forall>(s, d) \<in> set c. distinct (map fst d)"
  shows "config_extends c (merge_section c sec vs) \<and> (\<forall>(s, d) \<in> set (merge_section c sec vs). distinct (map fst d)) \<and>
    (distinct (map fst c) \<longrightarrow> distinct (map fst (merge_section c sec vs))) \<and>
    set (map fst (merge_section c sec vs)) \<subseteq> insert sec (set (map fst c))"
  using assms
proof (induction c sec vs rule: merge_section.induct)
  case (1 sec vs)
  then show ?case using keys_put_all[of "[]" vs] by (auto simp: config_extends_def)
next
  case (2 s d c sec vs)
  have refl: "list_all2 table_extends c c" using "2.prems" by (auto simp: list_all2_same)
  show ?case
  proof (cases "s = sec")
    case True
    have "config_extends ((s, d) # c) ((s, put_all d vs) # c)"
      unfolding config_extends_def using keys_put_all[of d vs] refl "2.prems"
      by (intro exI[of _ "(s, put_all d vs) # c"] exI[of _ "[]"]) simp
    then show ?thesis using True keys_put_all[of d vs] "2.prems" by auto
  next
    case False
    note IH = "2.IH"[OF False]
    then obtain c1 c2 where "merge_section c sec vs = c1 @ c2" "list_all2 table_extends c c1"
      using "2.prems" unfolding config_extends_def by auto
    then have "config_extends ((s, d) # c) ((s, d) # merge_section c sec vs)"
      unfolding config_extends_def using "2.prems" by (intro exI[of _ "(s, d) # c1"] exI[of _ c2]) auto
    then show ?thesis using False IH "2.prems" by auto
  qed
qed

lemma merge_tables_extends:
  assumes "merge_tables c data = Inr m" "\<forall>(s, d) \<in> set c. distinct (map fst d)" "distinct (map fst c)"
  shows "config_extends c m \<and> distinct (map fst m)"
  using assms
proof (induction c data rule: merge_tables.induct)
  case (1 c)
  then have "list_all2 table_extends c c" by (auto simp: list_all2_same)
  then show ?case using 1 unfolding config_extends_def by (intro conjI exI[of _ c] exI[of _ "[]"]) simp_all
next
  case (2 c sec v rest)
  then obtain d where v: "v = PDict d" by (cases v) auto
  note step = merge_section_extends[OF "2.prems"(2), of sec d]
  have "config_extends (merge_section c sec d) m \<and> distinct (map fst m)"
    using "2.IH"[OF v] "2.prems" step by (simp add: v)
  then show ?case using step config_extends_trans by blast
qed

lemma extends_same_shape:
  assumes "config_extends c0 c" "distinct (map fst c)" "distinct (map fst c0)"
    and "\<forall>(s, d) \<in> set c. \<exists>d0. map_of c0 s = Some d0 \<and> set (map fst d) \<subseteq> set (map fst d0)"
  shows "config_shape c = config_shape c0"
proof -
  obtain c1 c2 where c: "c = c1 @ c2" "list_all2 table_extends c0 c1" using assms(1) unfolding config_extends_def by blast
  have "list_all2 (\<lambda>x y. fst x = fst y) c0 c1" using c(2) by (rule list_all2_mono) auto
  then have keys: "map fst c1 = map fst c0" by (induction rule: list_all2_induct) auto
  have "c2 = []"
  proof (cases c2)
    case (Cons p c')
    obtain s d where p: "p = (s, d)" by (cases p)
    have "(s, d) \<in> set c" using c(1) Cons p by simp
    then have "map_of c0 s \<noteq> None" using bspec[OF assms(4), of "(s, d)"] by auto
    then have "s \<in> set (map fst c1)" unfolding keys map_of_eq_None_iff by simp
    then show ?thesis using assms(2) c(1) Cons p by simp
  qed simp
  have "config_shape c1 = config_shape c0"
  proof (rule nth_equalityI)
    show "length (config_shape c1) = length (config_shape c0)" using c(2) by (simp add: config_shape_def list_all2_lengthD)
    fix i assume "i < length (config_shape c1)"
    then have i: "i < length c1" "i < length c0" using c(2) by (simp_all add: config_shape_def list_all2_lengthD)
    obtain s d d' where sd: "c0 ! i = (s, d)" "c1 ! i = (s, d')" "distinct (map fst d')" and r: "\<exists>r. map fst d' = map fst d @ r"
      using list_all2_nthD2[OF c(2) i(1)] by (cases "c0 ! i"; cases "c1 ! i") auto
    have "map_of c0 s = Some d" using nth_mem[OF i(2)] unfolding sd(1) by (rule map_of_is_SomeI[OF assms(3)])
    moreover have "(s, d') \<in> set c" using nth_mem[OF i(1)] unfolding sd(2) c(1) by simp
    ultimately have "set (map fst d') \<subseteq> set (map fst d)" using bspec[OF assms(4), of "(s, d')"] by simp
    moreover obtain r where r: "map fst d' = map fst d @ r" using r by (rule exE)
    ultimately have "set r \<subseteq> set (map fst d)" "set (map fst d) \<inter> set r = {}" using sd(3) by simp_all
    then have "r = []" by (cases r) auto
    then have "map fst d' = map fst d" using r by simp
    then show "config_shape c1 ! i = config_shape c0 ! i" using i sd by (simp add: config_shape_def)
  qed
  then show ?thesis using c(1) \<open>c2 = []\<close> by simp
qed

lemma dict_put_prefix: "k \<notin> set (map fst e) \<Longrightarrow> dict_put (e @ (k, u) # d) k v = e @ (k, v) # d"
  by (induction e) auto

lemma put_all_same:
  "map fst d = map fst d0 \<Longrightarrow> distinct (map fst (e @ d0)) \<Longrightarrow> put_all (e @ d0) d = e @ d"
proof (induction d arbitrary: e d0)
  case (Cons p d)
  obtain k v where p: "p = (k, v)" by (cases p)
  obtain u d' where d0: "d0 = (k, u) # d'" "map fst d = map fst d'" using Cons.prems(1) by (cases d0) (auto simp: p)
  have "put_all (e @ d0) (p # d) = put_all ((e @ [(k, v)]) @ d') d"
    using Cons.prems(2) by (simp add: p d0(1) dict_put_prefix)
  also have "\<dots> = (e @ [(k, v)]) @ d" by (rule Cons.IH[OF d0(2)]) (use Cons.prems(2) d0(1) in simp)
  finally show ?case by (simp add: p)
qed simp

lemma merge_section_prefix:
  "s \<notin> set (map fst e) \<Longrightarrow> merge_section (e @ (s, d0) # c) s d = e @ (s, put_all d0 d) # c"
  by (induction e) auto

lemma merge_tables_same:
  assumes "config_shape c = config_shape c0" "distinct (map fst (e @ c0))" "\<forall>(s, d) \<in> set c0. distinct (map fst d)"
  shows "merge_tables (e @ c0) (config_value c) = Inr (e @ c)"
  using assms
proof (induction c arbitrary: e c0)
  case Nil
  then show ?case by (simp add: config_shape_def config_value_def)
next
  case (Cons p c)
  obtain s d where p: "p = (s, d)" by (cases p)
  obtain d0 c' where c0: "c0 = (s, d0) # c'" "map fst d = map fst d0" "config_shape c = config_shape c'"
    using Cons.prems(1) by (cases c0) (auto simp: p config_shape_def)
  have "put_all d0 d = d" using put_all_same[OF c0(2), of "[]"] Cons.prems(3) by (simp add: c0(1))
  then have "merge_tables (e @ c0) (config_value (p # c)) = merge_tables ((e @ [(s, d)]) @ c') (config_value c)"
    using merge_section_prefix[of s e d0 c' d] Cons.prems(2) by (simp add: p c0(1) config_value_def)
  also have "\<dots> = Inr ((e @ [(s, d)]) @ c)"
    by (rule Cons.IH[OF c0(3)]) (use Cons.prems c0(1) in simp_all)
  finally show ?case by (simp add: p)
qed


section \<open>Reading and writing single fields\<close>

lemma cfg_item_put:
  "cfg_item (cfg_put c s k v) s' k' =
     (if s' = s \<and> k' = k \<and> s \<in> set (map fst c) then Inr v else cfg_item c s' k')"
proof -
  have "map_of (cfg_put c s k v) s' = map_option (\<lambda>d. if s' = s then dict_put d k v else d) (map_of c s')"
    by (induction c) (auto simp: cfg_put_def)
  moreover have "s \<in> set (map fst c) \<longleftrightarrow> map_of c s \<noteq> None" by (simp add: map_of_eq_None_iff)
  ultimately show ?thesis
    by (cases "map_of c s'"; cases "s' = s") (simp_all add: cfg_item_def dict_item_def map_of_dict_put)
qed

lemma cfg_put_same:
  assumes "distinct (map fst c)" "cfg_item c s k = Inr v"
  shows "cfg_put c s k v = c"
proof -
  obtain d where d: "map_of c s = Some d" "map_of d k = Some v"
    using assms(2) by (auto simp: cfg_item_def dict_item_def split: option.splits)
  have "e = d" if "(s, e) \<in> set c" for e using map_of_is_SomeI[OF assms(1) that] d(1) by simp
  then have "(case x of (s', d) \<Rightarrow> if s' = s then (s', dict_put d k v) else (s', d)) = x" if "x \<in> set c" for x
    using that dict_put_same[OF d(2)] by (cases x) auto
  then show ?thesis unfolding cfg_put_def by (simp add: map_idI)
qed

lemma set_dict_put: "x \<in> set (dict_put d k v) \<Longrightarrow> x = (k, v) \<or> x \<in> set d"
proof (induction d)
  case (Cons p d)
  then show ?case by (cases p) (auto split: if_splits)
qed simp

lemma config_fields_put_valid:
  assumes c: "config_fields c"
    and f: "(s, k) \<in> set (CONFIG_BOOL_FIELDS @ CONFIG_INT_FIELDS @ CONFIG_STRING_FIELDS @ CONFIG_STRING_LIST_FIELDS)"
    and v: "validate_field s k w = Inr w"
  shows "config_fields (cfg_put c s k w)"
proof -
  have sh: "config_shape c = config_shape DEFAULT_CONFIG"
    and all: "\<forall>(s, d) \<in> set c. \<forall>(k, v) \<in> set d. validate_field s k v = Inr v"
    using c unfolding config_fields_def by - (erule conjE, assumption)+
  have keys: "k \<in> set (map fst d)" if "(s, d) \<in> set c" for d
  proof -
    have "distinct (map fst c)" using default_shape_distinct unfolding sh[symmetric] shape_keys by simp
    then have "map_of (config_shape c) s = Some (map fst d)" using that by (simp add: map_of_shape)
    then show ?thesis using bspec[OF field_tables(1), of "(s, k)"] f unfolding sh by simp
  qed
  have "config_shape (cfg_put c s k w) = config_shape c"
    unfolding config_shape_def cfg_put_def map_map
    by (rule map_cong[OF refl]) (auto simp: dict_put_keys[OF keys])
  moreover have "\<forall>(k', u) \<in> set d'. validate_field s' k' u = Inr u" if "(s', d') \<in> set (cfg_put c s k w)" for s' d'
  proof -
    obtain d where "(s', d) \<in> set c" "d' = (if s' = s then dict_put d k w else d)"
      using \<open>(s', d') \<in> set _\<close> by (auto simp: cfg_put_def split: if_splits)
    then show ?thesis using bspec[OF all, of "(s', d)"] v by (auto split: if_splits dest!: set_dict_put)
  qed
  ultimately show ?thesis using sh unfolding config_fields_def by (intro conjI ballI) (simp, blast)
qed

lemma config_fields_put:
  assumes c: "config_fields c" and f: "(s, k) \<in> set CONFIG_STRING_FIELDS"
  shows "config_fields (cfg_put c s k (PStr t))"
  by (rule config_fields_put_valid[OF c]) (use f validate_field_kinds(3)[OF f] in simp_all)

lemma config_fields_distinct: "config_fields c \<Longrightarrow> distinct (map fst c)"
  using default_shape_distinct shape_keys[of c] unfolding config_fields_def by simp

lemma lan_section: "config_fields c \<Longrightarrow> ''lan_sharing'' \<in> set (map fst c)"
  unfolding config_fields_def shape_keys[symmetric] by (elim conjE) (simp only:, code_simp)

lemma lan_string_fields:
  "\<forall>k \<in> set [''mode'', ''bind_address'', ''gateway_interface'', ''gateway_client_cidr'', ''gateway_dns_mode''].
     (''lan_sharing'', k) \<in> set CONFIG_STRING_FIELDS"
  "\<forall>k \<in> set [''socks_port'', ''http_port'']. (''lan_sharing'', k) \<in> set CONFIG_INT_FIELDS"
  "\<forall>k \<in> set [''enabled'', ''authentication_required'', ''firewall_managed'']. (''lan_sharing'', k) \<in> set CONFIG_BOOL_FIELDS"
  by code_simp+

lemma cfg_str_put:
  "config_fields c \<Longrightarrow> cfg_str (cfg_put c ''lan_sharing'' k (PStr t)) s' k' =
     (if s' = ''lan_sharing'' \<and> k' = k then Inr t else cfg_str c s' k')"
  using lan_section[of c] unfolding cfg_str_def cfg_item_put
  by (cases "s' = ''lan_sharing'' \<and> k' = k") (auto simp only: simp_thms if_True if_False res_bind_Inr pyval.case)

lemma cfg_other_put:
  assumes "(''lan_sharing'', k) \<in> set CONFIG_STRING_FIELDS"
  shows "(s', k') \<in> set CONFIG_INT_FIELDS \<Longrightarrow> cfg_int (cfg_put c ''lan_sharing'' k v) s' k' = cfg_int c s' k'"
    "(s', k') \<in> set CONFIG_BOOL_FIELDS \<Longrightarrow> cfg_bool (cfg_put c ''lan_sharing'' k v) s' k' = cfg_bool c s' k'"
  using bspec[OF field_tables(3) assms] by (auto simp: cfg_int_def cfg_bool_def cfg_item_put)

text \<open>What the sharing section must satisfy, as one condition on its values.\<close>

definition lan_enabled_ok :: "string \<Rightarrow> string \<Rightarrow> string \<Rightarrow> string \<Rightarrow> bool \<Rightarrow> bool \<Rightarrow> bool \<Rightarrow> bool" where
  "lan_enabled_ok mode bind interface cidr enabled auth managed \<longleftrightarrow>
     (enabled \<longrightarrow>
        mode = ''proxy'' \<and> bind \<noteq> [] \<and> (case ip_address bind of None \<Rightarrow> False | Some a \<Rightarrow> \<not> addr_loopback a) \<and> auth \<or>
        mode = ''gateway'' \<and> interface \<noteq> [] \<and> cidr \<noteq> [] \<and> managed)"

definition lan_values_ok ::
  "bool \<Rightarrow> string \<Rightarrow> int \<Rightarrow> int \<Rightarrow> string \<Rightarrow> string \<Rightarrow> string \<Rightarrow> string \<Rightarrow> bool \<Rightarrow> bool \<Rightarrow> bool \<Rightarrow> bool" where
  "lan_values_ok wild mode socks http bind interface cidr dns enabled auth managed \<longleftrightarrow>
     mode \<in> set [''disabled'', ''proxy'', ''gateway''] \<and> check_ports socks http = Inr () \<and>
     (bind = [] \<or> validate_lan_bind_address wild bind = Inr ()) \<and>
     (interface = [] \<or> validate_gateway_interface interface = Inr ()) \<and>
     (cidr = [] \<or> validate_gateway_client_cidr cidr = Inr ()) \<and> dns = ''manual'' \<and>
     lan_enabled_ok mode bind interface cidr enabled auth managed"

lemma guard_cases: "r = Inr () \<or> r = Inl PersistentValidationError \<Longrightarrow>
    res_bind r (\<lambda>_. q) = (if r = Inr () then q else Inl PersistentValidationError)"
  by (cases r) auto

lemma lan_check_cases:
  "check_ports socks http = Inr () \<or> check_ports socks http = Inl PersistentValidationError"
  "validate_lan_bind_address wild bind = Inr () \<or> validate_lan_bind_address wild bind = Inl PersistentValidationError"
  "validate_gateway_interface itf = Inr () \<or> validate_gateway_interface itf = Inl PersistentValidationError"
  "validate_gateway_client_cidr cidr = Inr () \<or> validate_gateway_client_cidr cidr = Inl PersistentValidationError"
  by (simp_all add: check_ports_def validate_lan_bind_address_def validate_gateway_interface_def
      validate_gateway_client_cidr_def res_guard_def Let_def split: option.split ip_net.split)

lemma bind_address_parses: "validate_lan_bind_address wild bind = Inr () \<Longrightarrow> \<exists>a. ip_address bind = Some a"
  by (cases "ip_address bind") (simp_all add: validate_lan_bind_address_def)

lemma res_when_cases: "r = Inr () \<or> r = Inl PersistentValidationError \<Longrightarrow>
    res_bind (res_when b r) (\<lambda>_. q) = (if \<not> b \<or> r = Inr () then q else Inl PersistentValidationError)"
  by (cases r) (auto simp: res_when_def)

definition lan_puts :: "config \<Rightarrow> string \<Rightarrow> string \<Rightarrow> string \<Rightarrow> string \<Rightarrow> config" where
  "lan_puts c bind interface cidr dns =
     cfg_put (cfg_put (cfg_put (cfg_put c ''lan_sharing'' ''bind_address'' (PStr bind))
       ''lan_sharing'' ''gateway_interface'' (PStr interface)) ''lan_sharing'' ''gateway_client_cidr'' (PStr cidr))
       ''lan_sharing'' ''gateway_dns_mode'' (PStr dns)"

definition lan_field_values ::
  "config \<Rightarrow> string \<Rightarrow> int \<Rightarrow> int \<Rightarrow> string \<Rightarrow> string \<Rightarrow> string \<Rightarrow> string \<Rightarrow> bool \<Rightarrow> bool \<Rightarrow> bool \<Rightarrow> bool" where
  "lan_field_values c mode socks http bind interface cidr dns enabled auth managed \<longleftrightarrow>
     cfg_str c ''lan_sharing'' ''mode'' = Inr mode \<and> cfg_int c ''lan_sharing'' ''socks_port'' = Inr socks \<and>
     cfg_int c ''lan_sharing'' ''http_port'' = Inr http \<and> cfg_str c ''lan_sharing'' ''bind_address'' = Inr bind \<and>
     cfg_str c ''lan_sharing'' ''gateway_interface'' = Inr interface \<and>
     cfg_str c ''lan_sharing'' ''gateway_client_cidr'' = Inr cidr \<and>
     cfg_str c ''lan_sharing'' ''gateway_dns_mode'' = Inr dns \<and>
     cfg_bool c ''lan_sharing'' ''enabled'' = Inr enabled \<and>
     cfg_bool c ''lan_sharing'' ''authentication_required'' = Inr auth \<and>
     cfg_bool c ''lan_sharing'' ''firewall_managed'' = Inr managed"

lemma lan_field_values_ex:
  assumes c: "config_fields c"
  shows "\<exists>mode socks http bind interface cidr dns enabled auth managed.
    lan_field_values c mode socks http bind interface cidr dns enabled auth managed"
proof -
  have str: "\<exists>t. cfg_str c ''lan_sharing'' k = Inr t"
    if "k \<in> set [''mode'', ''bind_address'', ''gateway_interface'', ''gateway_client_cidr'', ''gateway_dns_mode'']" for k
    using cfg_str_field[OF c bspec[OF lan_string_fields(1) that]] by auto
  have num: "\<exists>t. cfg_int c ''lan_sharing'' k = Inr t" if "k \<in> set [''socks_port'', ''http_port'']" for k
    using cfg_int_field[OF c bspec[OF lan_string_fields(2) that]] by auto
  have flag: "\<exists>t. cfg_bool c ''lan_sharing'' k = Inr t"
    if "k \<in> set [''enabled'', ''authentication_required'', ''firewall_managed'']" for k
    using cfg_bool_field[OF c bspec[OF lan_string_fields(3) that]] by auto
  show ?thesis unfolding lan_field_values_def
    using str[of "''mode''"] num[of "''socks_port''"] num[of "''http_port''"] str[of "''bind_address''"]
      str[of "''gateway_interface''"] str[of "''gateway_client_cidr''"] str[of "''gateway_dns_mode''"]
      flag[of "''enabled''"] flag[of "''authentication_required''"] flag[of "''firewall_managed''"]
    by (simp del: list.simps(15)) (simp)
qed

lemma lan_puts_values:
  assumes "config_fields c" "lan_field_values c mode socks http b i z d enabled auth managed"
  shows "config_fields (lan_puts c bind itf cidr dns) \<and>
    lan_field_values (lan_puts c bind itf cidr dns) mode socks http bind itf cidr dns enabled auth managed"
proof -
  note str = bspec[OF lan_string_fields(1)] and num = bspec[OF lan_string_fields(2)] and flag = bspec[OF lan_string_fields(3)]
  have f: "config_fields (cfg_put e ''lan_sharing'' k (PStr t))"
    if "config_fields e" "k \<in> set [''mode'', ''bind_address'', ''gateway_interface'', ''gateway_client_cidr'', ''gateway_dns_mode'']" for e k t
    using config_fields_put[OF that(1) str[OF that(2)]] .
  show ?thesis
    using assms unfolding lan_puts_def lan_field_values_def
    by (simp add: f cfg_str_put cfg_other_put str num flag)
qed

lemma strip_lan_eq:
  "cfg_str c ''lan_sharing'' k = Inr s \<Longrightarrow> strip_lan c k = Inr (py_strip s, cfg_put c ''lan_sharing'' k (PStr (py_strip s)))"
  by (simp add: strip_lan_def)

lemma lan_enabled_eq:
  assumes v: "lan_field_values c mode socks http b i z d enabled auth managed"
    and b: "bind = [] \<or> validate_lan_bind_address wild bind = Inr ()"
  shows "res_bind (cfg_bool c ''lan_sharing'' ''enabled'') (\<lambda>enabled.
      if \<not> enabled then Inr c
      else if mode = ''proxy'' then res_bind (validate_enabled_lan_proxy c bind) (\<lambda>_. Inr c)
      else if mode = ''gateway'' then res_bind (validate_enabled_lan_gateway c itf cidr) (\<lambda>_. Inr c)
      else Inl PersistentValidationError) =
    (if lan_enabled_ok mode bind itf cidr enabled auth managed then Inr c else Inl PersistentValidationError)"
proof -
  have bools: "cfg_bool c ''lan_sharing'' ''enabled'' = Inr enabled" "cfg_bool c ''lan_sharing'' ''authentication_required'' = Inr auth"
    "cfg_bool c ''lan_sharing'' ''firewall_managed'' = Inr managed"
    using v unfolding lan_field_values_def by simp_all
  have "res_bind (validate_enabled_lan_gateway c itf cidr) (\<lambda>_. Inr c) =
      (if itf \<noteq> [] \<and> cidr \<noteq> [] \<and> managed then Inr c else Inl PersistentValidationError)"
    unfolding validate_enabled_lan_gateway_def bools by (simp add: res_guard_def)
  moreover have "res_bind (validate_enabled_lan_proxy c bind) (\<lambda>_. Inr c) =
      (if bind \<noteq> [] \<and> (case ip_address bind of None \<Rightarrow> False | Some a \<Rightarrow> \<not> addr_loopback a) \<and> auth then Inr c
       else Inl PersistentValidationError)"
    unfolding validate_enabled_lan_proxy_def bools using b bind_address_parses[of wild bind]
    by (auto simp: res_guard_def split: option.split)
  ultimately show ?thesis unfolding lan_enabled_ok_def bools by (cases enabled; cases "mode = ''proxy''") simp_all
qed

lemma validate_lan_sharing_eq:
  assumes c: "config_fields c" and v: "lan_field_values c mode socks http b i z d enabled auth managed"
  shows "validate_lan_sharing wild c =
    (if lan_values_ok wild mode socks http (py_strip b) (py_strip i) (py_strip z) (py_strip d) enabled auth managed
     then Inr (lan_puts c (py_strip b) (py_strip i) (py_strip z) (py_strip d)) else Inl PersistentValidationError)"
proof -
  note str = bspec[OF lan_string_fields(1)]
  define c1 where "c1 = cfg_put c ''lan_sharing'' ''bind_address'' (PStr (py_strip b))"
  define c2 where "c2 = cfg_put c1 ''lan_sharing'' ''gateway_interface'' (PStr (py_strip i))"
  define c3 where "c3 = cfg_put c2 ''lan_sharing'' ''gateway_client_cidr'' (PStr (py_strip z))"
  define c4 where "c4 = lan_puts c (py_strip b) (py_strip i) (py_strip z) (py_strip d)"
  have f: "config_fields c1" "config_fields c2" "config_fields c3"
    unfolding c3_def c2_def c1_def by (intro config_fields_put c; simp add: str)+
  have s: "strip_lan c ''bind_address'' = Inr (py_strip b, c1)" "strip_lan c1 ''gateway_interface'' = Inr (py_strip i, c2)"
    "strip_lan c2 ''gateway_client_cidr'' = Inr (py_strip z, c3)" "strip_lan c3 ''gateway_dns_mode'' = Inr (py_strip d, c4)"
  proof -
    show "strip_lan c ''bind_address'' = Inr (py_strip b, c1)"
      using v unfolding c1_def lan_field_values_def by (simp add: strip_lan_eq)
    have "cfg_str c1 ''lan_sharing'' ''gateway_interface'' = Inr i" "cfg_str c2 ''lan_sharing'' ''gateway_client_cidr'' = Inr z"
      "cfg_str c3 ''lan_sharing'' ''gateway_dns_mode'' = Inr d"
      using v c f unfolding c1_def c2_def c3_def lan_field_values_def by (simp_all add: cfg_str_put)
    then show "strip_lan c1 ''gateway_interface'' = Inr (py_strip i, c2)"
      "strip_lan c2 ''gateway_client_cidr'' = Inr (py_strip z, c3)" "strip_lan c3 ''gateway_dns_mode'' = Inr (py_strip d, c4)"
      by (simp_all add: strip_lan_eq c2_def c3_def c4_def c1_def lan_puts_def)
  qed
  have w: "lan_field_values c4 mode socks http (py_strip b) (py_strip i) (py_strip z) (py_strip d) enabled auth managed"
    using lan_puts_values[OF c v] unfolding c4_def by blast
  note chk = lan_check_cases
  let ?bind = "py_strip b = [] \<or> validate_lan_bind_address wild (py_strip b) = Inr ()"
  have m: "cfg_str c ''lan_sharing'' ''mode'' = Inr mode" "cfg_int c ''lan_sharing'' ''socks_port'' = Inr socks"
    "cfg_int c ''lan_sharing'' ''http_port'' = Inr http" using v unfolding lan_field_values_def by simp_all
  note tail = lan_enabled_eq[OF w, of "py_strip b" wild]
  have dns: "py_strip d \<notin> set [''manual''] \<longleftrightarrow> py_strip d \<noteq> ''manual''" by simp
  show ?thesis
    unfolding validate_lan_sharing_def m s res_bind_Inr prod.case lan_values_ok_def c4_def[symmetric] dns
      guard_cases[OF chk(1)] res_when_cases[OF chk(2)] res_when_cases[OF chk(3)] res_when_cases[OF chk(4)] not_not
    by (cases "mode \<in> set [''disabled'', ''proxy'', ''gateway'']"; cases "check_ports socks http = Inr ()"; cases ?bind;
        cases "py_strip i = [] \<or> validate_gateway_interface (py_strip i) = Inr ()";
        cases "py_strip z = [] \<or> validate_gateway_client_cidr (py_strip z) = Inr ()"; cases "py_strip d = ''manual''";
        simp only: tail simp_thms if_True if_False)
qed

lemma lan_puts_same:
  assumes "config_fields c" "lan_field_values c mode socks http bind itf cidr dns enabled auth managed"
  shows "lan_puts c bind itf cidr dns = c"
proof -
  have item: "cfg_item c ''lan_sharing'' k = Inr (PStr t)" if str: "cfg_str c ''lan_sharing'' k = Inr t" for k t
  proof -
    obtain v where "cfg_item c ''lan_sharing'' k = Inr v" "(case v of PStr s \<Rightarrow> Inr s | _ \<Rightarrow> Inl TypeError) = Inr t"
      using str unfolding cfg_str_def res_bind_eq_Inr_iff by blast
    then show ?thesis by (cases v) simp_all
  qed
  note same = cfg_put_same[OF config_fields_distinct[OF assms(1)] item]
  show ?thesis using assms(2) unfolding lan_puts_def lan_field_values_def by (elim conjE) (simp only: same)
qed

lemma lan_puts_other: "s \<noteq> ''lan_sharing'' \<Longrightarrow> cfg_item (lan_puts c b i z d) s k = cfg_item c s k"
  by (simp add: lan_puts_def cfg_item_put)

lemma checks_other_sections:
  assumes "\<And>s k. s \<noteq> ''lan_sharing'' \<Longrightarrow> cfg_item c' s k = cfg_item c s k"
  shows "check_policies c' = check_policies c" "check_intervals c' = check_intervals c" "check_quorum c' = check_quorum c"
    "check_timeout c' = check_timeout c"
  unfolding check_policies_def check_intervals_def check_quorum_def check_timeout_def cfg_str_def cfg_int_def
  by (simp_all add: assms cong: if_cong)

lemma config_fields_validated: "config_fields c \<Longrightarrow> res_map validate_section c = Inr c"
proof -
  assume c: "config_fields c"
  have "validate_section p = Inr p" if p: "p \<in> set c" for p
  proof -
    obtain s d where sd: "p = (s, d)" by (cases p)
    have sh: "config_shape c = config_shape DEFAULT_CONFIG" using c by (simp add: config_fields_def)
    have "map_of c s = Some d" using map_of_is_SomeI[OF config_fields_distinct[OF c]] p sd by simp
    then have "map_option (map fst) (map_of DEFAULT_CONFIG s) = Some (map fst d)" using map_of_shape[of c s] map_of_shape[of DEFAULT_CONFIG s] sh by simp
    then obtain d0 where d0: "map_of DEFAULT_CONFIG s = Some d0" "map fst d0 = map fst d" by auto
    have "\<forall>p \<in> set c. case p of (s, d) \<Rightarrow> \<forall>(k, v) \<in> set d. validate_field s k v = Inr v" using c by (simp add: config_fields_def)
    then have ok: "\<forall>(k, v) \<in> set d. validate_field s k v = Inr v" using p sd by fastforce
    have "validate_entry s d0 x = Inr x" if "x \<in> set d" for x
    proof -
      have "fst x \<in> set (map fst d0)" using that unfolding d0(2) by simp
      then show ?thesis using that bspec[OF ok that] by (cases x) simp
    qed
    then have "res_map (validate_entry s d0) (map (\<lambda>x. x) d) = Inr d" by (intro res_map_id) simp
    then show ?thesis by (simp add: sd d0(1))
  qed
  then show ?thesis using res_map_id[of c validate_section "\<lambda>x. x"] by simp
qed

text \<open>A configuration that validation leaves as it is.\<close>

definition settled_config :: "bool \<Rightarrow> config \<Rightarrow> bool" where
  "settled_config wild c \<longleftrightarrow> config_fields c \<and>
     check_policies c = Inr () \<and> check_intervals c = Inr () \<and> check_quorum c = Inr () \<and> check_timeout c = Inr () \<and>
     (\<exists>mode socks http bind itf cidr dns enabled auth managed.
        lan_field_values c mode socks http bind itf cidr dns enabled auth managed \<and>
        lan_values_ok wild mode socks http bind itf cidr dns enabled auth managed \<and>
        py_strip bind = bind \<and> py_strip itf = itf \<and> py_strip cidr = cidr \<and> py_strip dns = dns)"

lemma settled_validates: "settled_config wild c \<Longrightarrow> validate_config wild c = Inr c"
proof -
  assume s: "settled_config wild c"
  then obtain mode socks http bind itf cidr dns enabled auth managed where
    v: "config_fields c" "lan_field_values c mode socks http bind itf cidr dns enabled auth managed"
      "lan_values_ok wild mode socks http bind itf cidr dns enabled auth managed"
      "py_strip bind = bind" "py_strip itf = itf" "py_strip cidr = cidr" "py_strip dns = dns"
    unfolding settled_config_def by (elim conjE exE) rule
  have "validate_lan_sharing wild c = Inr c"
    using validate_lan_sharing_eq[OF v(1,2), of wild] v(3-7) lan_puts_same[OF v(1,2)] by simp
  moreover have "check_policies c = Inr ()" "check_intervals c = Inr ()" "check_quorum c = Inr ()" "check_timeout c = Inr ()"
    using s unfolding settled_config_def by simp_all
  ultimately show ?thesis by (simp add: validate_config_def config_fields_validated[OF v(1)])
qed

lemma validate_config_settles:
  assumes "validate_config wild c = Inr c'" "config_shape c = config_shape DEFAULT_CONFIG"
  shows "settled_config wild c'"
proof -
  obtain v where v: "res_map validate_section c = Inr v" and chk: "check_policies v = Inr ()" "check_intervals v = Inr ()"
      "check_quorum v = Inr ()" "check_timeout v = Inr ()" and lan: "validate_lan_sharing wild v = Inr c'"
    using assms(1) unfolding validate_config_def res_bind_eq_Inr_iff old.unit.exhaust by (elim exE conjE) simp
  have f: "config_fields v" using validate_sections_shape[OF v] unfolding config_fields_def assms(2) by (elim conjE) (intro conjI)
  obtain mode socks http b i z d enabled auth managed where
    w: "lan_field_values v mode socks http b i z d enabled auth managed" using lan_field_values_ex[OF f] by (elim exE) (rule that)
  have ok: "lan_values_ok wild mode socks http (py_strip b) (py_strip i) (py_strip z) (py_strip d) enabled auth managed"
    using lan unfolding validate_lan_sharing_eq[OF f w, of wild] by (rule contrapos_pp) simp
  have c': "c' = lan_puts v (py_strip b) (py_strip i) (py_strip z) (py_strip d)"
    using lan ok unfolding validate_lan_sharing_eq[OF f w, of wild] by simp
  have other: "check_policies c' = Inr ()" "check_intervals c' = Inr ()" "check_quorum c' = Inr ()" "check_timeout c' = Inr ()"
    using checks_other_sections[of c' v] chk lan_puts_other[of _ v "py_strip b" "py_strip i" "py_strip z" "py_strip d"]
    unfolding c' by simp_all
  have f': "config_fields c'" "lan_field_values c' mode socks http (py_strip b) (py_strip i) (py_strip z) (py_strip d) enabled auth managed"
    using lan_puts_values[OF f w, of "py_strip b" "py_strip i" "py_strip z" "py_strip d"] unfolding c' by simp_all
  show ?thesis unfolding settled_config_def
    by (intro conjI f'(1) other exI) (rule f'(2) ok py_strip_idem)+
qed

lemma merged_fields:
  assumes "merge_tables DEFAULT_CONFIG data = Inr m" "res_map validate_section m = Inr v"
  shows "config_shape m = config_shape DEFAULT_CONFIG" "config_fields v"
proof -
  note v = validate_sections_shape[OF assms(2)]
  show m: "config_shape m = config_shape DEFAULT_CONFIG"
  proof (rule extends_same_shape)
    have d: "distinct (map fst DEFAULT_CONFIG)" "\<forall>(s, d) \<in> set DEFAULT_CONFIG. distinct (map fst d)"
      by code_simp+
    show "config_extends DEFAULT_CONFIG m" "distinct (map fst m)" using merge_tables_extends[OF assms(1) d(2,1)] by simp_all
    show "distinct (map fst DEFAULT_CONFIG)" by (rule d(1))
    show "\<forall>(s, d) \<in> set m. \<exists>d0. map_of DEFAULT_CONFIG s = Some d0 \<and> set (map fst d) \<subseteq> set (map fst d0)"
      using v by (elim conjE)
  qed
  show "config_fields v" using v unfolding config_fields_def m by (elim conjE) (intro conjI)
qed

lemma merged_settled:
  assumes "merge_tables DEFAULT_CONFIG data = Inr m" "validate_config wild m = Inr c"
  shows "settled_config wild c"
proof -
  obtain v where "res_map validate_section m = Inr v" using assms(2) unfolding validate_config_def res_bind_eq_Inr_iff by blast
  then show ?thesis using validate_config_settles[OF assms(2)] merged_fields[OF assms(1)] by blast
qed

lemma default_settled: "settled_config wild DEFAULT_CONFIG"
proof (rule validate_config_settles[OF _ refl])
  have "validate_config True DEFAULT_CONFIG = Inr DEFAULT_CONFIG" "validate_config False DEFAULT_CONFIG = Inr DEFAULT_CONFIG"
    by code_simp+
  then show "validate_config wild DEFAULT_CONFIG = Inr DEFAULT_CONFIG" by (cases wild) simp_all
qed

lemma AppConfig_load_settled:
  assumes "AppConfig_load wild f = Inr c"
  shows "settled_config wild c"
proof (cases f)
  case FMissing
  then show ?thesis using assms default_settled by (simp add: AppConfig_load_def)
next
  case FMalformed
  then show ?thesis using assms by (simp add: AppConfig_load_def)
next
  case (FJson v)
  then obtain data where "v = PDict data" using assms by (cases v) (simp_all add: AppConfig_load_def)
  then obtain m where "merge_tables DEFAULT_CONFIG (migrate_rotation data) = Inr m" "validate_config wild m = Inr c"
    using assms FJson by (auto simp: AppConfig_load_def)
  then show ?thesis by (rule merged_settled)
qed


section \<open>What a failing load raises\<close>

lemma checks_raise:
  assumes c: "config_fields c"
  shows "raises_only {PersistentValidationError} (check_policies c)" "raises_only {PersistentValidationError} (check_intervals c)"
    "raises_only {PersistentValidationError} (check_quorum c)" "raises_only {PersistentValidationError} (check_timeout c)"
    "raises_only {PersistentValidationError} (validate_lan_sharing wild c)"
proof -
  have tabs: "(''kill_switch'', ''on_manual_disconnect'') \<in> set CONFIG_STRING_FIELDS" "(''dns'', ''mode'') \<in> set CONFIG_STRING_FIELDS"
    "(''watchdog'', ''check_interval_seconds'') \<in> set CONFIG_INT_FIELDS" "(''watchdog'', ''reconnect_backoff_seconds'') \<in> set CONFIG_INT_FIELDS"
    "(''rotation'', ''max_backoff_interval_seconds'') \<in> set CONFIG_INT_FIELDS" "(''rotation'', ''test_timeout_seconds'') \<in> set CONFIG_INT_FIELDS"
    "(''rotation'', ''health_success_quorum'') \<in> set CONFIG_INT_FIELDS" by code_simp+
  obtain p m where "cfg_str c ''kill_switch'' ''on_manual_disconnect'' = Inr p" "cfg_str c ''dns'' ''mode'' = Inr m"
    using cfg_str_field[OF c tabs(1)] cfg_str_field[OF c tabs(2)] by (metis fst_conv snd_conv)
  then show "raises_only {PersistentValidationError} (check_policies c)"
    unfolding check_policies_def res_bind_Inr by (simp only: res_bind_Inr) (intro raises_only_if raises_only_Inl raises_only_guard; rule singletonI)
  obtain a b d where "cfg_int c ''watchdog'' ''check_interval_seconds'' = Inr a" "cfg_int c ''watchdog'' ''reconnect_backoff_seconds'' = Inr b"
      "cfg_int c ''rotation'' ''max_backoff_interval_seconds'' = Inr d"
    using cfg_int_field[OF c tabs(3)] cfg_int_field[OF c tabs(4)] cfg_int_field[OF c tabs(5)] by (metis fst_conv snd_conv)
  then show "raises_only {PersistentValidationError} (check_intervals c)"
    by (simp add: check_intervals_def raises_only_if raises_only_guard)
  obtain t where "cfg_int c ''rotation'' ''test_timeout_seconds'' = Inr t"
    using cfg_int_field[OF c tabs(6)] by (metis fst_conv snd_conv)
  then show "raises_only {PersistentValidationError} (check_timeout c)" by (simp add: check_timeout_def raises_only_guard)
  obtain q where "cfg_int c ''rotation'' ''health_success_quorum'' = Inr q"
    using cfg_int_field[OF c tabs(7)] by (metis fst_conv snd_conv)
  then obtain v where "cfg_item c ''rotation'' ''health_success_quorum'' = Inr v" unfolding cfg_int_def by auto
  moreover obtain ts where "cfg_item c ''rotation'' ''health_targets'' = Inr (PList (map PStr ts))" by (rule cfg_targets_field[OF c])
  moreover have "str_values (PList (map PStr ts)) = Inr ts" for ts by (simp add: res_map_id)
  ultimately show "raises_only {PersistentValidationError} (check_quorum c)"
    by (simp add: check_quorum_def split: sum.split del: str_values.simps)
  obtain mode socks http b i z d enabled auth managed where
    w: "lan_field_values c mode socks http b i z d enabled auth managed" using lan_field_values_ex[OF c] by (elim exE) (rule that)
  show "raises_only {PersistentValidationError} (validate_lan_sharing wild c)" by (simp add: validate_lan_sharing_eq[OF c w])
qed

lemma validate_field_raises: "raises_only {PersistentValidationError} (validate_field s k v)"
  unfolding validate_field_def
  by (intro raises_only_if raises_only_bind raises_strict) (simp_all split: pyval.split sum.split)

lemma validate_sections_raise: "raises_only {PersistentValidationError} (res_map validate_section c)"
proof (rule raises_only_map)
  fix p :: "string \<times> dict"
  have e: "raises_only {PersistentValidationError} (validate_entry s d x)" for s d x
    by (cases x) (simp add: raises_only_bind validate_field_raises)
  show "raises_only {PersistentValidationError} (validate_section p)"
    by (cases p) (auto split: option.split intro!: raises_only_bind raises_only_map e)
qed

lemma merge_tables_raise: "raises_only {PersistentValidationError} (merge_tables c data)"
  by (induction c data rule: merge_tables.induct) (auto split: pyval.split)

lemma AppConfig_load_raises: "raises_only {PersistentStoreError, PersistentValidationError} (AppConfig_load wild f)"
proof -
  let ?E = "{PersistentValidationError}"
  have v: "raises_only ?E (validate_config wild m)" if m: "merge_tables DEFAULT_CONFIG data = Inr m" for m data
    unfolding validate_config_def
    by (rule raises_only_bind[OF validate_sections_raise], drule merged_fields(2)[OF m])
      (intro raises_only_bind checks_raise; assumption)
  have "raises_only ?E (res_bind (merge_tables DEFAULT_CONFIG data) (validate_config wild))" for data
    by (rule raises_only_bind[OF merge_tables_raise v])
  then have "raises_only {PersistentStoreError, PersistentValidationError} (res_bind (merge_tables DEFAULT_CONFIG data) (validate_config wild))" for data
    by (rule raises_only_mono) simp
  then show ?thesis unfolding AppConfig_load_def by (simp split: json_file.split pyval.split)
qed


section \<open>Properties of the configuration\<close>


definition sample_config_file :: json_file where
  "sample_config_file = FJson (PDict [(''lan_sharing'', PDict [(''enabled'', PBool True), (''mode'', PStr ''proxy''),
     (''bind_address'', PStr '' 192.168.1.10 '')])])"


lemma put_config_value:
  "distinct (map fst c) \<Longrightarrow> map_of c s = Some d \<Longrightarrow> dict_put (config_value c) s (PDict (dict_put d k w)) = config_value (cfg_put c s k w)"
proof (induction c)
  case (Cons p c)
  obtain s' d' where p: "p = (s', d')" by (cases p)
  show ?case
  proof (cases "s' = s")
    case True
    have "cfg_put c s k w = c" unfolding cfg_put_def
    proof (rule map_idI)
      fix x assume "x \<in> set c"
      then have "fst x \<noteq> s" using Cons.prems(1) p True by auto
      then show "(case x of (s', d) \<Rightarrow> if s' = s then (s', dict_put d k w) else (s', d)) = x" by (cases x) simp
    qed
    then show ?thesis using True Cons.prems p by (simp add: config_value_def cfg_put_def)
  next
    case False
    then show ?thesis using Cons p by (simp add: config_value_def cfg_put_def)
  qed
qed simp

definition legacy_targets :: "config \<Rightarrow> bool" where
  "legacy_targets c \<longleftrightarrow> cfg_item c ''rotation'' ''health_targets'' = Inr (PList (map PStr LEGACY_UNRELIABLE_HEALTH_TARGETS))"

definition upgraded :: "config \<Rightarrow> config" where
  "upgraded c = (if legacy_targets c then cfg_put c ''rotation'' ''health_targets'' (PList (map PStr DEFAULT_HEALTH_TARGETS)) else c)"

lemma migrate_saved:
  assumes c: "config_fields c"
  shows "migrate_rotation (config_value c) = config_value (upgraded c)"
proof -
  have sh: "map_of (config_shape c) ''rotation'' = map_of (config_shape DEFAULT_CONFIG) ''rotation''"
    using c by (simp add: config_fields_def)
  have "case map_of (config_shape DEFAULT_CONFIG) ''rotation'' of None \<Rightarrow> False | Some ks \<Rightarrow> ''test_url'' \<notin> set ks" by code_simp
  then obtain rot where rot: "map_of c ''rotation'' = Some rot" "''test_url'' \<notin> set (map fst rot)"
    unfolding sh[symmetric] map_of_shape[of c] by (cases "map_of c ''rotation''") simp_all
  have "map_of rot ''test_url'' = None" using rot(2) by (simp add: map_of_eq_None_iff)
  then have m: "migrate_test_url rot = rot" by (simp add: migrate_test_url_def)
  have g: "map_of (config_value c) ''rotation'' = Some (PDict rot)"
    using rot(1) by (induction c) (auto simp: config_value_def split: if_splits)
  have l: "legacy_targets c \<longleftrightarrow> map_of rot ''health_targets'' = Some (PList (map PStr LEGACY_UNRELIABLE_HEALTH_TARGETS))"
    by (simp add: legacy_targets_def cfg_item_def rot(1) dict_item_def split: option.split)
  show ?thesis
  proof (cases "legacy_targets c")
    case True
    then show ?thesis
      using put_config_value[OF config_fields_distinct[OF c] rot(1)] l
      by (simp only: migrate_rotation_def g m migrate_targets_def upgraded_def option.case pyval.case if_True simp_thms)
  next
    case False
    then show ?thesis using l dict_put_same[OF g]
      by (simp only: migrate_rotation_def g m migrate_targets_def upgraded_def option.case pyval.case if_False simp_thms)
  qed
qed

lemma upgraded_settled:
  assumes s: "settled_config wild c"
  shows "settled_config wild (upgraded c)"
proof (cases "legacy_targets c")
  case True
  define c' where "c' = upgraded c"
  have c': "c' = cfg_put c ''rotation'' ''health_targets'' (PList (map PStr DEFAULT_HEALTH_TARGETS))"
    using True by (simp add: c'_def upgraded_def)
  have c: "config_fields c" using s by (simp add: settled_config_def)
  have f: "config_fields c'" unfolding c'
  proof (rule config_fields_put_valid[OF c])
    show "(''rotation'', ''health_targets'') \<in> set (CONFIG_BOOL_FIELDS @ CONFIG_INT_FIELDS @ CONFIG_STRING_FIELDS @ CONFIG_STRING_LIST_FIELDS)"
      by code_simp
    show "validate_field ''rotation'' ''health_targets'' (PList (map PStr DEFAULT_HEALTH_TARGETS)) = Inr (PList (map PStr DEFAULT_HEALTH_TARGETS))"
      by code_simp
  qed
  have other: "cfg_item c' s k = cfg_item c s k" if "k \<noteq> ''health_targets''" for s k
    using that by (simp add: c' cfg_item_put)
  have "''rotation'' \<in> set (map fst c)"
    using c unfolding config_fields_def shape_keys[symmetric] by (elim conjE) (simp only:, code_simp)
  then have new: "cfg_item c' ''rotation'' ''health_targets'' = Inr (PList (map PStr DEFAULT_HEALTH_TARGETS))"
    by (simp only: c' cfg_item_put simp_thms if_True)
  have old: "cfg_item c ''rotation'' ''health_targets'' = Inr (PList (map PStr LEGACY_UNRELIABLE_HEALTH_TARGETS))"
    using True by (simp only: legacy_targets_def)
  have len: "length DEFAULT_HEALTH_TARGETS = length LEGACY_UNRELIABLE_HEALTH_TARGETS" by code_simp
  have sv: "str_values (PList (map PStr ts)) = Inr ts" for ts by (simp add: res_map_id)
  have q: "check_quorum c' = check_quorum c"
    unfolding check_quorum_def new old res_bind_Inr sv other[of "''health_success_quorum''", simplified] validate_success_quorum_def len ..
  have "check_policies c' = check_policies c" "check_intervals c' = check_intervals c" "check_timeout c' = check_timeout c"
    unfolding check_policies_def check_intervals_def check_timeout_def cfg_str_def cfg_int_def by (simp_all add: other cong: if_cong)
  moreover have "lan_field_values c' = lan_field_values c"
    unfolding lan_field_values_def[abs_def] cfg_str_def cfg_int_def cfg_bool_def by (simp add: other)
  ultimately show ?thesis using s f q unfolding settled_config_def c'_def[symmetric] by simp
qed (use s in \<open>simp add: upgraded_def\<close>)

lemma settled_reads_back:
  assumes "settled_config wild c"
  shows "AppConfig_load wild (FJson (PDict (config_value c))) = Inr (upgraded c)"
proof -
  have c: "config_fields c" using assms by (simp add: settled_config_def)
  note u = upgraded_settled[OF assms]
  have "config_shape (upgraded c) = config_shape DEFAULT_CONFIG" using u by (simp add: settled_config_def config_fields_def)
  moreover have "distinct (map fst DEFAULT_CONFIG)" "\<forall>(s, d) \<in> set DEFAULT_CONFIG. distinct (map fst d)" by code_simp+
  ultimately have "merge_tables DEFAULT_CONFIG (config_value (upgraded c)) = Inr (upgraded c)"
    using merge_tables_same[of "upgraded c" DEFAULT_CONFIG "[]"] by simp
  then show ?thesis using settled_validates[OF u] by (simp add: AppConfig_load_def migrate_saved[OF c])
qed


definition legacy_config :: dict where
  "legacy_config = [(''rotation'', PDict [(''health_targets'', PList (map PStr LEGACY_UNRELIABLE_HEALTH_TARGETS))])]"


end
