(* ===== verification/Endpoint_Policy.thy ===== *)
theory Endpoint_Policy
  imports OpenVPN_Safety Effects
begin

text \<open>
  \<open>src/parsers/endpoint_policy.py\<close> and \<open>validated_openvpn_remote_host\<close> of \<open>src/parsers/openvpn_safety.py\<close>: which
  remote endpoints a profile may connect to. \<open>glob\<close> is \<open>is_global\<close> of the standard library's \<open>ipaddress\<close>, whose
  table of special ranges follows the IANA registry; \<open>resolve\<close> is \<open>socket.getaddrinfo\<close>, an action that may raise
  and gives the address text of each row (\<open>None\<close> for a row without one).
\<close>

definition validated_openvpn_remote_host :: "(pyval \<Rightarrow> string) \<Rightarrow> (ip_addr \<Rightarrow> bool) \<Rightarrow> profile \<Rightarrow> string res" where
  "validated_openvpn_remote_host rp glob p =
     res_bind (validate_openvpn_config (raw_config_of rp p)) (\<lambda>directives.
     let lines = (\<lambda>k. case map_of directives k of None \<Rightarrow> [] | Some xs \<Rightarrow> xs) in
     if lines ''remote-random'' \<noteq> [] then Inl OpenVPNConfigValidationError
     else if lines ''remote-random-hostname'' \<noteq> [] then Inl OpenVPNConfigValidationError
     else if length (lines ''remote'') > 1 then Inl OpenVPNConfigValidationError
     else
       let host = (case filter (\<lambda>args. args \<noteq> []) (lines ''remote'') of [] \<Rightarrow> [] | args # _ \<Rightarrow> hd args) in
       case parse_ipv4 host of
         None \<Rightarrow> Inl OpenVPNConfigValidationError
       | Some n \<Rightarrow> if glob (IPv4 n) then Inr (ipv4_str n) else Inl OpenVPNConfigValidationError)"

definition normalise_host :: "(pyval \<Rightarrow> string) \<Rightarrow> pyval \<Rightarrow> string res" where
  "normalise_host rp v =
     (let host = py_strip (if py_truthy v then py_str rp v else []);
          host' = (if py_startswith host ''['' \<and> py_endswith host '']'' then butlast (tl host) else host);
          host'' = py_rstrip_chars ''.'' host'
      in if host'' = [] \<or> list_ex py_isspace host'' \<or> CHR 0x00 \<in> set host'' then Inl EndpointPolicyError
         else Inr host'')"

definition row_address :: "string option \<Rightarrow> ip_addr res" where
  "row_address row = (case row of
       None \<Rightarrow> Inl EndpointPolicyError
     | Some t \<Rightarrow> (case ip_address (before_char (CHR ''%'') t) of
           None \<Rightarrow> Inl EndpointPolicyError
         | Some a \<Rightarrow> Inr a))"

definition resolved_addresses :: "(string \<Rightarrow> ('s, string option list) act) \<Rightarrow> string \<Rightarrow> ('s, ip_addr list) act" where
  "resolved_addresses resolve host =
     act_bind (act_try (resolve host) (\<lambda>e. act_raise (if e = OSError then EndpointPolicyError else e))) (\<lambda>rows.
     act_bind (act_res (res_map row_address rows)) (\<lambda>addresses.
       if addresses = [] then act_raise EndpointPolicyError else act_return (remdups addresses)))"

definition in_ranges :: "ip_net list \<Rightarrow> ip_addr \<Rightarrow> bool" where
  "in_ranges nets a \<longleftrightarrow> list_ex (ip_in_net a) nets"

definition fakeip_networks :: "string list \<Rightarrow> ip_net list res" where
  "fakeip_networks ranges = res_map (\<lambda>r. case ip_network r of None \<Rightarrow> Inl ValueError | Some w \<Rightarrow> Inr w) ranges"

definition judge_addresses :: "(ip_addr \<Rightarrow> bool) \<Rightarrow> string list \<Rightarrow> string \<Rightarrow> ip_addr list \<Rightarrow> string res" where
  "judge_addresses glob ranges host addresses =
     (if list_all glob addresses then Inr host
      else res_bind (fakeip_networks ranges) (\<lambda>nets.
        if nets \<noteq> [] \<and> list_all (in_ranges nets) addresses then Inr host else Inl EndpointPolicyError))"

definition canonicalize_remote_endpoint ::
  "(pyval \<Rightarrow> string) \<Rightarrow> (ip_addr \<Rightarrow> bool) \<Rightarrow> (string \<Rightarrow> ('s, string option list) act) \<Rightarrow> pyval \<Rightarrow> bool \<Rightarrow> bool
     \<Rightarrow> string list \<Rightarrow> ('s, string) act" where
  "canonicalize_remote_endpoint rp glob resolve host require_resolution resolve_hostnames ranges =
     act_bind (act_res (normalise_host rp host)) (\<lambda>normalised.
     if py_lower normalised \<in> set [''localhost'', ''localhost.localdomain''] then act_raise EndpointPolicyError
     else case ip_address normalised of
         Some a \<Rightarrow> if glob a then act_return normalised else act_raise EndpointPolicyError
       | None \<Rightarrow>
           if \<not> (resolve_hostnames \<or> require_resolution) then act_return normalised
           else
             act_bind
               (act_try
                 (act_bind (resolved_addresses resolve normalised) (\<lambda>a. act_return (Some a)))
                 (\<lambda>e. if e = EndpointPolicyError \<and> \<not> require_resolution then act_return None else act_raise e))
               (\<lambda>r. case r of
                   None \<Rightarrow> act_return normalised
                 | Some addresses \<Rightarrow> act_res (judge_addresses glob ranges normalised addresses)))"

definition text_field :: "dict \<Rightarrow> string \<Rightarrow> string option" where
  "text_field d k = (case dict_get d k PNone of PStr s \<Rightarrow> if py_strip s \<noteq> [] then Some s else None | _ \<Rightarrow> None)"

text \<open>\<open>raw.rsplit(":", 1)[0]\<close> when there is a colon.\<close>

definition before_last_colon :: "string \<Rightarrow> string" where
  "before_last_colon s =
     (if CHR '':'' \<in> set s then rev (drop 1 (dropWhile (\<lambda>c. c \<noteq> CHR '':'') (rev s))) else s)"

definition profile_endpoint_host :: "(pyval \<Rightarrow> string) \<Rightarrow> (ip_addr \<Rightarrow> bool) \<Rightarrow> profile \<Rightarrow> string option res" where
  "profile_endpoint_host rp glob p =
     (if p_protocol p = OPENVPN then res_bind (validated_openvpn_remote_host rp glob p) (\<lambda>h. Inr (Some h))
      else case (text_field (p_config p) ''host'', text_field (p_config p) ''server'') of
          (Some h, _) \<Rightarrow> Inr (Some h)
        | (None, Some h) \<Rightarrow> Inr (Some h)
        | (None, None) \<Rightarrow>
            (case text_field (p_config p) ''endpoint'' of
               None \<Rightarrow> Inr None
             | Some e \<Rightarrow>
                 (let raw = py_strip e in
                  Inr (Some (if py_startswith raw ''['' \<and> CHR '']'' \<in> set raw
                             then before_char (CHR '']'') (drop 1 raw) else before_last_colon raw)))))"

text \<open>\<open>except ValueError\<close>: the classes below it that the extraction can raise.\<close>

definition ENDPOINT_VALUE_ERRORS :: "exn list" where
  "ENDPOINT_VALUE_ERRORS = [ValueError, OpenVPNConfigValidationError, EndpointPolicyError]"

definition validate_profile_endpoint ::
  "(pyval \<Rightarrow> string) \<Rightarrow> (ip_addr \<Rightarrow> bool) \<Rightarrow> (string \<Rightarrow> ('s, string option list) act) \<Rightarrow> profile \<Rightarrow> bool \<Rightarrow> bool
     \<Rightarrow> string list \<Rightarrow> ('s, string) act" where
  "validate_profile_endpoint rp glob resolve p require_resolution resolve_hostnames ranges =
     (case profile_endpoint_host rp glob p of
        Inl e \<Rightarrow> act_raise (if e \<in> set ENDPOINT_VALUE_ERRORS then EndpointPolicyError else e)
      | Inr None \<Rightarrow> act_raise EndpointPolicyError
      | Inr (Some host) \<Rightarrow>
          canonicalize_remote_endpoint rp glob resolve (PStr host) require_resolution resolve_hostnames ranges)"


section \<open>Which endpoints pass\<close>

lemma judge_addresses_ok:
  "judge_addresses glob ranges host as = Inr h \<longleftrightarrow>
     h = host \<and> (list_all glob as \<or>
       (\<exists>nets. fakeip_networks ranges = Inr nets \<and> nets \<noteq> [] \<and> list_all (in_ranges nets) as))"
  by (auto simp: judge_addresses_def split: if_splits)

lemma resolved_addresses_run:
  assumes "resolved_addresses resolve host s = (Inr as, t)"
  obtains rows as' where "resolve host s = (Inr rows, t)" "res_map row_address rows = Inr as'" "set as = set as'" "as' \<noteq> []"
proof -
  from assms obtain rows as' where *: "resolve host s = (Inr rows, t)" "Inr as' = res_map row_address rows"
    "as' \<noteq> []" "as = remdups as'"
    by (auto simp: resolved_addresses_def act_runs split: if_splits)
  show thesis by (rule that[OF *(1) *(2)[symmetric]]) (use * in auto)
qed

text \<open>
  C6. Before a connection every endpoint is proved remote. When the check that requires resolution accepts a
  host, the host is not a local name, and either it is a literal global address, or the resolver
  answered and every address it gave is global, or every address lies in the fake ranges the caller admitted
  because a tunnel of the program itself captures them. Without admitted ranges no address outside the global ones
  can occur.
\<close>

theorem accepted_endpoint_is_remote:
  assumes "canonicalize_remote_endpoint rp glob resolve host True b ranges s = (Inr h, t)"
  shows "normalise_host rp host = Inr h \<and> py_lower h \<notin> set [''localhost'', ''localhost.localdomain''] \<and>
    (case ip_address h of
       Some a \<Rightarrow> glob a \<and> t = s
     | None \<Rightarrow> \<exists>rows as. resolve h s = (Inr rows, t) \<and> res_map row_address rows = Inr as \<and> as \<noteq> [] \<and>
         ((\<forall>a \<in> set as. glob a) \<or>
          (\<exists>nets. fakeip_networks ranges = Inr nets \<and> nets \<noteq> [] \<and> (\<forall>a \<in> set as. in_ranges nets a))))"
proof -
  obtain n where n': "Inr n = normalise_host rp host" "py_lower n \<notin> set [''localhost'', ''localhost.localdomain'']"
    using assms by (auto simp: canonicalize_remote_endpoint_def act_runs split: if_splits)
  note n = n'(1)[symmetric] n'(2)
  show ?thesis
  proof (cases "ip_address n")
    case (Some a)
    then show ?thesis using assms n by (auto simp: canonicalize_remote_endpoint_def act_runs split: if_splits)
  next
    case None
    then obtain as where as: "resolved_addresses resolve n s = (Inr as, t)" "judge_addresses glob ranges n as = Inr h"
      using assms n by (auto simp: canonicalize_remote_endpoint_def act_runs split: if_splits)
    obtain rows as' where r: "resolve n s = (Inr rows, t)" "res_map row_address rows = Inr as'" "set as = set as'" "as' \<noteq> []"
      by (rule resolved_addresses_run[OF as(1)])
    have h: "h = n" and ok: "(\<forall>a \<in> set as'. glob a) \<or>
        (\<exists>nets. fakeip_networks ranges = Inr nets \<and> nets \<noteq> [] \<and> (\<forall>a \<in> set as'. in_ranges nets a))"
      using as(2) r(3) by (auto simp: judge_addresses_ok list_all_iff)
    show ?thesis unfolding h using n None r ok by (auto intro!: exI[of _ rows] exI[of _ as'])
  qed
qed

theorem accepted_endpoint_is_remote_witness:
  "canonicalize_remote_endpoint (\<lambda>v. []) (\<lambda>a. a = IPv4 134744072) (\<lambda>h. act_return [Some ''8.8.8.8'']) (PStr ''vpn.example.'')
       True False [] () = (Inr ''vpn.example'', ()) \<and>
   (\<exists>as. res_map row_address [Some ''8.8.8.8''] = Inr as \<and> as \<noteq> [] \<and> (\<forall>a \<in> set as. a = IPv4 134744072))"
proof -
  define res :: "string \<Rightarrow> (unit, string option list) act" where "res h = act_return [Some ''8.8.8.8'']" for h
  have addr: "ip_address ''vpn.example'' = None" "row_address (Some ''8.8.8.8'') = Inr (IPv4 134744072)"
    "normalise_host (\<lambda>v. []) (PStr ''vpn.example.'') = Inr ''vpn.example''"
    "py_lower ''vpn.example'' \<notin> set [''localhost'', ''localhost.localdomain'']" by code_simp+
  have run: "canonicalize_remote_endpoint (\<lambda>v. []) (\<lambda>a. a = IPv4 134744072) res (PStr ''vpn.example.'') True False [] () =
      (Inr ''vpn.example'', ())"
    using addr by (simp add: canonicalize_remote_endpoint_def resolved_addresses_def act_defs judge_addresses_def res_def)
  have "\<exists>as. res_map row_address [Some ''8.8.8.8''] = Inr as \<and> as \<noteq> [] \<and> (\<forall>a \<in> set as. a = IPv4 134744072)"
    using accepted_endpoint_is_remote[OF run] addr by (auto simp: fakeip_networks_def res_def act_return_def)
  then show ?thesis using run unfolding res_def by blast
qed

end
