(* ===== verification/Spec2Isabelle.thy ===== *)
theory Spec2Isabelle
  imports Rotation_Engine Recovery Health Kill_Switch Routing_Rules Routing_State Rule_Import App_Config Endpoint_Policy
begin

text \<open>
  \<^bold>\<open>WatchdogVPN in Isabelle/HOL.\<close>

  WatchdogVPN is a daemon that keeps a VPN tunnel up: it stores profiles and providers, groups them into
  node groups and route chains, rotates between profiles when the tunnel fails, probes the network, backs off
  when everything fails, and keeps a firewall kill switch in place meanwhile. This library models the part of
  the program that decides and that writes state, and proves what that part promises. Everything that runs a
  command, opens a socket or reads a clock is a parameter of the definitions.

  \<^bold>\<open>Conventions\<close> (theories \<open>Wd_Prelude\<close>, \<open>Effects\<close>, \<open>Py_Text\<close>).
  A Python string is a list of characters with code points below 256, an int an \<^typ>\<open>int\<close>, a dict an
  association list in insertion order, a JSON value a \<open>pyval\<close>. Code that may raise returns a value of
  \<open>'a res = exn + 'a\<close>; exceptions are told apart by class, message texts are left out. Stateful code is an
  action \<open>('s, 'a) act = 's \<Rightarrow> 'a res \<times> 's\<close> built from a few combinators; \<open>Effects\<close> has their inversion
  rules and the locale \<open>frame_rules\<close> for relations that every step of an action respects. \<open>Py_Text\<close> holds the
  parts of the standard library the sources use: \<open>split\<close>, \<open>shlex.split\<close>, \<open>int(s, 0)\<close>, \<open>ipaddress\<close>.
  \<open>Json_Text\<close> is the decoder of the \<open>json\<close> module on texts, \<open>Json_Codec\<close> the encoder with sorted keys and the
  proof that the decoder reads back what it writes. \<open>Error_Classes\<close> bounds the exceptions a computation may
  raise, with one rule per combinator.

  \<^bold>\<open>Components\<close>, with the files under \<open>src/\<close> they translate.

  \<^item> \<open>Persistence\<close> (\<open>config/persistence.py\<close>): a file is absent, malformed, or a JSON document; the strict
    validators. The locale \<open>keyed_store\<close> is the contract of a store of objects under distinct keys; the locale
    \<open>object_codec\<close> is what the shared array-file pattern needs of a model class, and a \<open>sublocale\<close> of it.
    Inside \<open>keyed_store\<close> any sequence of writes is shown to act as updates of a finite map. The locale
    \<open>map_store\<close> is the variant for stores with an invariant and restricted keys.

  \<^item> \<open>Profiles\<close> (\<open>models/profile.py\<close>, \<open>models/provider.py\<close>), \<open>OpenVPN_Safety\<close> (\<open>parsers/openvpn_safety.py\<close>),
    \<open>Object_Stores\<close> (\<open>config/profile_store.py\<close>, \<open>config/provider_store.py\<close>), \<open>Node_Groups\<close>
    (\<open>node_groups/models.py\<close>, \<open>store.py\<close>) and \<open>Route_Chains\<close> (\<open>route_chains/models.py\<close>, \<open>store.py\<close>,
    \<open>validation.py\<close>): the persistent objects, their codecs and validators, and their stores, each interpreted
    as a \<open>keyed_store\<close>. Shown: codecs are inverse, accepted objects are well formed, stores refine finite maps,
    mutators change one object, error cases are exact, an accepted OpenVPN text executes nothing.

  \<^item> \<open>Routing_Rules\<close> (\<open>rules/models.py\<close>, \<open>rule_engine.py\<close>): rules, groups, every matcher, and the evaluation
    of a connection in tier order. \<open>re.search\<close> is the parameter \<open>rs\<close>. Shown: evaluation never raises on
    well-formed groups and returns the first firing rule in the documented order.

  \<^item> \<open>Rule_Store\<close> (\<open>rules/rule_store.py\<close>): the directory of rule groups with its backups, an interpretation of
    \<open>map_store\<close>. The searches for a free name are partial functions, shown to return. \<open>Rule_Import\<close>
    (\<open>rules/rule_parser.py\<close>, \<open>importer.py\<close>): rules from texts. Shown: the importer raises one class only and
    returns well-formed groups, exported rules are read back, parsed rules reach the engine (below).

  \<^item> \<open>Routing_State\<close> (\<open>config/state_manager.py\<close>): the persistent switches, the routing fields and their legacy
    mirror. Shown: what is loaded is normalised, a write changes only its field and keeps the mirror consistent.

  \<^item> \<open>App_Policy\<close> (\<open>app_policy/models.py\<close>, \<open>store.py\<close>): per-application rules. Shown: loading never raises and
    falls back to an empty blocking policy marked invalid; a saved policy is loaded back.

  \<^item> \<open>Candidate_Selection\<close> (\<open>rotation/pool_builder.py\<close>, \<open>node_groups/resolver.py\<close>, \<open>scoring.py\<close>): which
    profiles a group may use and which one it uses. The iteration order of a Python set is the parameter
    \<open>perm\<close>. Shown: the candidate set exactly, optimality of the choice, independence of \<open>perm\<close>.

  \<^item> \<open>Rotation_Engine\<close> (\<open>rotation/rotation_engine.py\<close>): the rotation cycle against a record of driver
    operations. The locale \<open>driver_contract\<close> says what the calls do to an observer of the tunnel; it is
    interpreted for an arbitrary driver with a monitor around it. Shown: the teardown barrier, that a cycle
    returns, the bound on attempts, the history invariant.

  \<^item> \<open>Recovery\<close> (\<open>rotation/recovery.py\<close>) and \<open>Health\<close> (\<open>rotation/health_targets.py\<close>, \<open>health_checker.py\<close>,
    \<open>models/connection_state.py\<close>): backoff, probing with a quorum, the deep check, the connection state.

  \<^item> \<open>Firewall_Rules\<close> and \<open>Kill_Switch\<close> (\<open>core/kill_switch.py\<close>): the generators of nftables and iptables
    rules, the inspectors that read the firewall back, and the operations. The locale \<open>firewall_host\<close> says
    how a host logs changing commands; it is interpreted for an arbitrary host with a log beside it. Shown:
    which packets the generated chain lets out, that the inspector accepts exactly the shape the generator
    produces, that \<open>apply_atomic\<close> is one batch, that \<open>enable\<close> is all or removed, that \<open>disable\<close> is verified.

  \<^bold>\<open>Parameters and their laws.\<close>
  \<open>iso_law\<close>: \<open>datetime.fromisoformat\<close> inverts \<open>isoformat\<close> and the text is not empty. \<open>set_order\<close>: iterating a
  set enumerates it without repetition. \<open>first_match\<close>: a chain is evaluated in order and falls through to its
  policy. Each law is met by a concrete function in the witnesses.

  \<^bold>\<open>Termination.\<close> All recursive functions terminate: loops over lists are structural, the hexadecimal and
  decimal scanners carry a measure. Only the JSON decoder uses fuel: twice the length of the text plus
  two, which \<open>json_loads_not_stuck\<close> shows to be enough for every text. The searches for a free file name in
  \<open>Rule_Store\<close> are partial functions whose termination is a theorem.

  \<^bold>\<open>Not modelled.\<close>
  Floats are real numbers with infinities and NaN, without rounding of sums. File locks, file modes and atomic
  replacement are taken to work as documented: one method call is one function on the document. Drivers,
  subprocesses, sockets, the CLI and TUI, platform provisioning and diagnostics are input and output. The watchdog
  loop, metrics, the IPC protocol, DNS policy, the compilation of chains and rules for sing-box and the network
  context are decision code that the library does not cover yet.
\<close>

section \<open>From a rule text to the engine\<close>


definition sample_clash_text :: string where
  "sample_clash_text = ''payload:'' @ [CHR 0x0A] @ ''  - DOMAIN-SUFFIX,example.com'' @ [CHR 0x0A]"


end
